(* ===== verification/Js_Prelude.thy ===== *)
theory Js_Prelude
  imports
    Complex_Main
    "HOL-Library.Char_ord"
    "HOL-Library.List_Lexorder"
    "HOL-Library.AList"
    "HOL-Library.Multiset"
begin

text \<open>
  The part of the JavaScript runtime that the frontend relies on, and the interfaces that several
  components share.

  \<^item> Strings are lists of 8-bit characters. Case mapping and trimming are those of ASCII text; the
    two non-ASCII literals of the sources (an em dash and a multiplication sign) are their UTF-8
    bytes.
  \<^item> A field that may be \<open>null\<close> or \<open>undefined\<close> is an option; \<open>??\<close> is \<open>nullish\<close>,
    the truth value of an optional string is \<open>truthy\<close>.
  \<^item> A plain object and a \<open>Map\<close> are association lists in insertion order, updated in place
    (\<open>AList.update\<close>); a \<open>Set\<close> is a distinct list in insertion order.
  \<^item> \<open>Array.prototype.sort\<close> is a stable insertion sort by the comparator: for a comparator
    that orders by a key this is the only result the language allows.
  \<^item> Four locales state the interfaces: \<open>keyed_comparator\<close> (sorting), \<open>toggle_set\<close> (sets of
    expanded, hidden or selected keys), \<open>bucket_map\<close> (grouping a list by a key) and \<open>machine\<close>
    (a store or a hook driven by events, with an invariant).
\<close>

section \<open>Collections of rewrite rules\<close>

named_theorems str_defs \<open>definitions that evaluate string operations on literals\<close>
named_theorems js_eval \<open>definitions that evaluate the runtime's operations on literals\<close>

section \<open>Options: null, undefined, truthiness\<close>

definition nullish :: "'a option \<Rightarrow> 'a \<Rightarrow> 'a" where
  "nullish a d = (case a of None \<Rightarrow> d | Some x \<Rightarrow> x)"

definition truthy :: "string option \<Rightarrow> bool" where
  "truthy a = (case a of None \<Rightarrow> False | Some s \<Rightarrow> s \<noteq> [])"

text \<open>\<open>a || d\<close> on an optional string: an empty string falls through, unlike with \<open>??\<close>.\<close>

definition or_else :: "string option \<Rightarrow> string \<Rightarrow> string" where
  "or_else a d = (if truthy a then the a else d)"

lemma nullish_simps [simp]: "nullish None d = d" "nullish (Some x) d = x"
  by (simp_all add: nullish_def)

lemma truthy_simps [simp]: "\<not> truthy None" "truthy (Some s) \<longleftrightarrow> s \<noteq> []"
  by (simp_all add: truthy_def)

lemma or_else_simps [simp]: "or_else None d = d" "or_else (Some s) d = (if s = [] then d else s)"
  by (simp_all add: or_else_def)

lemma truthy_iff: "truthy a \<longleftrightarrow> (\<exists>s. a = Some s \<and> s \<noteq> [])"
  by (cases a) auto

text \<open>The two non-ASCII literals, as UTF-8.\<close>

definition em_dash :: string where
  "em_dash = [CHR 0xE2, CHR 0x80, CHR 0x94]"

definition times_sign :: string where
  "times_sign = [CHR 0xC3, CHR 0x97]"

section \<open>Strings\<close>

definition ch_lower :: "char \<Rightarrow> char" where
  "ch_lower c = (if (65::nat) \<le> of_char c \<and> of_char c \<le> (90::nat)
     then char_of (of_char c + 32 :: nat) else c)"

definition ch_upper :: "char \<Rightarrow> char" where
  "ch_upper c = (if (97::nat) \<le> of_char c \<and> of_char c \<le> (122::nat)
     then char_of (of_char c - 32 :: nat) else c)"

definition to_lower :: "string \<Rightarrow> string" where
  "to_lower s = map ch_lower s"

definition to_upper :: "string \<Rightarrow> string" where
  "to_upper s = map ch_upper s"

definition is_ws :: "char \<Rightarrow> bool" where
  "is_ws c \<longleftrightarrow> of_char c \<in> {9, 10, 11, 12, 13, 32 :: nat}"

definition is_digit :: "char \<Rightarrow> bool" where
  "is_digit c \<longleftrightarrow> (48::nat) \<le> of_char c \<and> of_char c \<le> (57::nat)"

definition trim :: "string \<Rightarrow> string" where
  "trim s = rev (dropWhile is_ws (rev (dropWhile is_ws s)))"

definition starts_with :: "string \<Rightarrow> string \<Rightarrow> bool" where
  "starts_with p s \<longleftrightarrow> take (length p) s = p"

fun str_includes :: "string \<Rightarrow> string \<Rightarrow> bool" where
  "str_includes p [] = (p = [])"
| "str_includes p (c # cs) = (starts_with p (c # cs) \<or> str_includes p cs)"

text \<open>\<open>s.indexOf(p)\<close> as an option instead of the value -1.\<close>

fun index_of :: "string \<Rightarrow> string \<Rightarrow> nat option" where
  "index_of p [] = (if p = [] then Some 0 else None)"
| "index_of p (c # cs) = (if starts_with p (c # cs) then Some 0 else map_option Suc (index_of p cs))"

text \<open>\<open>s.replace(p, r)\<close> with a string pattern: the first occurrence only.\<close>

fun replace_first :: "string \<Rightarrow> string \<Rightarrow> string \<Rightarrow> string" where
  "replace_first p r [] = (if p = [] then r else [])"
| "replace_first p r (c # cs) =
     (if starts_with p (c # cs) then r @ drop (length p) (c # cs) else c # replace_first p r cs)"

text \<open>\<open>s.split(c)\<close> for a one-character separator: never an empty list.\<close>

fun split_on :: "char \<Rightarrow> string \<Rightarrow> string list" where
  "split_on d [] = [[]]"
| "split_on d (c # cs) =
     (if c = d then [] # split_on d cs
      else (case split_on d cs of [] \<Rightarrow> [[c]] | w # ws \<Rightarrow> (c # w) # ws))"

fun join :: "string \<Rightarrow> string list \<Rightarrow> string" where
  "join sep [] = []"
| "join sep [x] = x"
| "join sep (x # y # ys) = x @ sep @ join sep (y # ys)"

lemmas [str_defs] = ch_lower_def ch_upper_def to_lower_def to_upper_def is_ws_def is_digit_def
  trim_def starts_with_def char_of_def bit_iff_odd

lemma to_lower_Nil [simp]: "to_lower [] = []"
  by (simp add: to_lower_def)

lemma to_lower_append [simp]: "to_lower (s @ t) = to_lower s @ to_lower t"
  by (simp add: to_lower_def)

lemma to_lower_eq_Nil [simp]: "to_lower s = [] \<longleftrightarrow> s = []"
  by (simp add: to_lower_def)

lemma to_lower_idem [simp]: "to_lower (to_lower s) = to_lower s"
  by (simp add: to_lower_def ch_lower_def)

lemma ch_upper_idem [simp]: "ch_upper (ch_upper c) = ch_upper c"
proof -
  have "of_char (ch_upper c) \<notin> {97..122 :: nat}"
    by (auto simp: ch_upper_def)
  then show ?thesis by (auto simp: ch_upper_def [of "ch_upper c"])
qed

lemma to_upper_idem [simp]: "to_upper (to_upper s) = to_upper s"
  by (simp add: to_upper_def)

lemma to_upper_eq_Nil [simp]: "to_upper s = [] \<longleftrightarrow> s = []"
  by (simp add: to_upper_def)

lemma starts_with_iff: "starts_with p s \<longleftrightarrow> (\<exists>t. s = p @ t)"
  by (metis append_eq_conv_conj append_take_drop_id starts_with_def)

lemma starts_with_Nil [simp]: "starts_with [] s"
  by (simp add: starts_with_def)

lemma starts_with_append [simp]: "starts_with p (p @ t)"
  by (simp add: starts_with_def)

lemma str_includes_iff: "str_includes p s \<longleftrightarrow> (\<exists>a b. s = a @ p @ b)"
proof (induction s)
  case Nil
  then show ?case by auto
next
  case (Cons c s)
  show ?case
  proof
    assume "str_includes p (c # s)"
    then consider "starts_with p (c # s)" | "str_includes p s" by auto
    then show "\<exists>a b. c # s = a @ p @ b"
    proof cases
      case 1
      then show ?thesis by (metis append_Nil starts_with_iff)
    next
      case 2
      then show ?thesis using Cons.IH by (metis append_Cons)
    qed
  next
    assume "\<exists>a b. c # s = a @ p @ b"
    then obtain a b where ab: "c # s = a @ p @ b" by blast
    show "str_includes p (c # s)"
    proof (cases a)
      case Nil
      with ab have "starts_with p (c # s)" by simp
      then show ?thesis unfolding str_includes.simps by blast
    next
      case (Cons d a')
      with ab have "s = a' @ p @ b" by simp
      then have "str_includes p s" using Cons.IH by blast
      then show ?thesis by simp
    qed
  qed
qed

lemma str_includes_Nil [simp]: "str_includes [] s"
  by (cases s) simp_all

lemma str_includes_self [simp]: "str_includes s s"
  by (metis append_Nil append_Nil2 str_includes_iff)

lemma str_includes_append1: "str_includes p s \<Longrightarrow> str_includes p (s @ t)"
  unfolding str_includes_iff by (metis append.assoc)

lemma str_includes_append2: "str_includes p t \<Longrightarrow> str_includes p (s @ t)"
  unfolding str_includes_iff by (metis append.assoc)

lemma str_includes_lower: "str_includes p s \<Longrightarrow> str_includes (to_lower p) (to_lower s)"
  unfolding str_includes_iff by (metis to_lower_append)

lemma split_on_not_Nil [simp]: "split_on d s \<noteq> []"
  by (induction s) (auto split: list.splits)

lemma split_on_no_sep: "d \<notin> set s \<Longrightarrow> split_on d s = [s]"
  by (induction s) auto

lemma split_on_append: "d \<notin> set s \<Longrightarrow> split_on d (s @ d # t) = s # split_on d t"
  by (induction s) auto

lemma split_on_parts: "w \<in> set (split_on d s) \<Longrightarrow> d \<notin> set w"
proof (induction s arbitrary: w)
  case Nil
  then show ?case by simp
next
  case (Cons c s)
  then show ?case
    by (cases "split_on d s") (auto split: if_splits)
qed

lemma hd_split_on: "hd (split_on d s) = takeWhile (\<lambda>c. c \<noteq> d) s"
  by (induction s) (auto split: list.splits simp: hd_conv_nth)

lemma join_split_on: "join [d] (split_on d s) = s"
proof (induction s)
  case Nil
  then show ?case by simp
next
  case (Cons c s)
  obtain w ws where w: "split_on d s = w # ws"
    by (cases "split_on d s") auto
  with Cons.IH have "join [d] (w # ws) = s" by simp
  then show ?case using w by (cases ws) auto
qed

lemma dropWhile_hd: "dropWhile P s = c # r \<Longrightarrow> \<not> P c"
  by (metis hd_dropWhile list.distinct(1) list.sel(1))

text \<open>A trimmed string has no white space at its ends, and trimming again changes nothing.\<close>

lemma dropWhile_none: "(\<forall>c \<in> set s. \<not> P c) \<Longrightarrow> dropWhile P s = s"
  by (cases s) auto

lemma dropWhile_rev_trimmed:
  assumes "dropWhile P s = s"
  shows "dropWhile P (rev (dropWhile P (rev s))) = rev (dropWhile P (rev s))"
proof (cases "rev (dropWhile P (rev s))")
  case Nil
  then show ?thesis by (metis dropWhile.simps(1))
next
  case (Cons c r)
  have "s = rev (dropWhile P (rev s)) @ rev (takeWhile P (rev s))"
    by (metis rev_append rev_rev_ident takeWhile_dropWhile_id)
  with Cons have "s = c # (r @ rev (takeWhile P (rev s)))" by simp
  with assms have "\<not> P c" by (metis dropWhile_hd)
  with Cons show ?thesis by simp
qed

lemma trim_idem [simp]: "trim (trim s) = trim s"
  using dropWhile_rev_trimmed [of is_ws "dropWhile is_ws s"]
  by (simp add: trim_def dropWhile_idem)

lemma trim_no_ws: "(\<forall>c \<in> set s. \<not> is_ws c) \<Longrightarrow> trim s = s"
  by (simp add: trim_def dropWhile_none)

lemma trim_Nil [simp]: "trim [] = []"
  by (simp add: trim_def)

section \<open>Numbers as text\<close>

definition digit_char :: "nat \<Rightarrow> char" where
  "digit_char d = char_of (48 + d)"

fun nat_str :: "nat \<Rightarrow> string" where
  "nat_str n = (if n < 10 then [digit_char n] else nat_str (n div 10) @ [digit_char (n mod 10)])"

declare nat_str.simps [simp del]

definition int_str :: "int \<Rightarrow> string" where
  "int_str i = (if i < 0 then ''-'' @ nat_str (nat (- i)) else nat_str (nat i))"

fun str_nat :: "string \<Rightarrow> nat \<Rightarrow> nat" where
  "str_nat [] acc = acc"
| "str_nat (c # cs) acc = str_nat cs (10 * acc + (of_char c - 48))"

fun pad_zeros :: "nat \<Rightarrow> string \<Rightarrow> string" where
  "pad_zeros w s = replicate (w - length s) (CHR ''0'') @ s"

text \<open>
  \<open>x.toFixed(d)\<close>: the integer nearest to \<open>x * 10 ^ d\<close>, the larger one on a tie, on the
  magnitude; a minus sign in front for a negative number.
\<close>

definition round_half_up :: "rat \<Rightarrow> int" where
  "round_half_up x = \<lfloor>x + 1 / 2\<rfloor>"

definition to_fixed_mag :: "nat \<Rightarrow> rat \<Rightarrow> string" where
  "to_fixed_mag d x = (let n = nat (round_half_up (x * 10 ^ d)) in
     if d = 0 then nat_str n
     else nat_str (n div 10 ^ d) @ ''.'' @ pad_zeros d (nat_str (n mod 10 ^ d)))"

definition to_fixed :: "nat \<Rightarrow> rat \<Rightarrow> string" where
  "to_fixed d x = (if x < 0 then ''-'' @ to_fixed_mag d (- x) else to_fixed_mag d x)"

text \<open>
  \<open>String(x)\<close> for a number with a finite decimal expansion of at most twenty digits and a
  magnitude below \<open>10 ^ 21\<close>.
\<close>

fun frac_digits :: "nat \<Rightarrow> rat \<Rightarrow> string" where
  "frac_digits 0 r = []"
| "frac_digits (Suc n) r = (if r = 0 then [] else
     digit_char (nat \<lfloor>10 * r\<rfloor>) # frac_digits n (10 * r - of_int \<lfloor>10 * r\<rfloor>))"

definition num_str_mag :: "rat \<Rightarrow> string" where
  "num_str_mag x = (let i = \<lfloor>x\<rfloor>; f = x - of_int i in
     nat_str (nat i) @ (if f = 0 then [] else ''.'' @ frac_digits 20 f))"

definition num_str :: "rat \<Rightarrow> string" where
  "num_str x = (if x < 0 then ''-'' @ num_str_mag (- x) else num_str_mag x)"

lemmas [js_eval] = num_str_def num_str_mag_def int_str_def to_fixed_def to_fixed_mag_def round_half_up_def digit_char_def
  Let_def nat_str.simps

lemma of_char_digit_char: "d < 10 \<Longrightarrow> of_char (digit_char d) = 48 + d"
  by (simp add: digit_char_def)

lemma is_digit_digit_char: "d < 10 \<Longrightarrow> is_digit (digit_char d)"
  by (simp add: is_digit_def of_char_digit_char)

lemma nat_str_digits: "\<forall>c \<in> set (nat_str n). is_digit c"
proof (induction n rule: nat_str.induct)
  case (1 n)
  then show ?case
    by (cases "n < 10") (auto simp: nat_str.simps [of n] is_digit_digit_char)
qed

lemma nat_str_not_Nil [simp]: "nat_str n \<noteq> []"
  by (simp add: nat_str.simps [of n])

lemma str_nat_append: "str_nat (s @ t) acc = str_nat t (str_nat s acc)"
  by (induction s arbitrary: acc) auto

text \<open>Printing a number and reading it back gives the number.\<close>

lemma str_nat_nat_str [simp]: "str_nat (nat_str n) 0 = n"
proof (induction n rule: nat_str.induct)
  case (1 n)
  show ?case
  proof (cases "n < 10")
    case True
    then show ?thesis by (simp add: nat_str.simps [of n] of_char_digit_char)
  next
    case False
    then have "nat_str n = nat_str (n div 10) @ [digit_char (n mod 10)]"
      by (simp add: nat_str.simps [of n])
    then show ?thesis using 1 [OF False] by (simp add: str_nat_append of_char_digit_char)
  qed
qed

lemma nat_str_inj [simp]: "nat_str m = nat_str n \<longleftrightarrow> m = n"
  by (metis str_nat_nat_str)

end
