(* ===== verification/Js_Collections.thy ===== *)
theory Js_Collections
  imports Js_Prelude
begin

text \<open>
  The containers of the JavaScript runtime (\<open>Set\<close>, \<open>Map\<close>, plain objects, sorted arrays) and
  the interfaces stated over them. The lemmas of the locales are proved once, from the laws of the
  operations, and reach the components through the interpretations in their theories.
\<close>

section \<open>Set: a distinct list in insertion order\<close>

definition set_add :: "'a \<Rightarrow> 'a list \<Rightarrow> 'a list" where
  "set_add x xs = (if x \<in> set xs then xs else xs @ [x])"

definition set_delete :: "'a \<Rightarrow> 'a list \<Rightarrow> 'a list" where
  "set_delete x xs = filter (\<lambda>y. y \<noteq> x) xs"

definition set_toggle :: "'a \<Rightarrow> 'a list \<Rightarrow> 'a list" where
  "set_toggle x xs = (if x \<in> set xs then set_delete x xs else set_add x xs)"

text \<open>\<open>[...new Set(xs)]\<close>: the first occurrence of each element.\<close>

definition dedup :: "'a list \<Rightarrow> 'a list" where
  "dedup xs = foldl (\<lambda>s x. set_add x s) [] xs"

lemmas [js_eval] = set_add_def set_delete_def set_toggle_def dedup_def

lemma set_set_add [simp]: "set (set_add x xs) = insert x (set xs)"
  by (auto simp: set_add_def)

lemma set_set_delete [simp]: "set (set_delete x xs) = set xs - {x}"
  by (auto simp: set_delete_def)

lemma set_set_toggle: "set (set_toggle x xs) = (if x \<in> set xs then set xs - {x} else insert x (set xs))"
  by (simp add: set_toggle_def)

lemma distinct_set_add [simp]: "distinct (set_add x xs) \<longleftrightarrow> distinct xs"
  by (auto simp: set_add_def)

lemma distinct_set_delete [simp]: "distinct xs \<Longrightarrow> distinct (set_delete x xs)"
  by (simp add: set_delete_def)

lemma distinct_set_toggle [simp]: "distinct xs \<Longrightarrow> distinct (set_toggle x xs)"
  by (simp add: set_toggle_def)

lemma foldl_set_add: "set (foldl (\<lambda>s x. set_add (f x) s) ys xs) = set ys \<union> f ` set xs"
  by (induction xs arbitrary: ys) auto

lemma distinct_foldl_set_add:
  "distinct (foldl (\<lambda>s x. set_add (f x) s) ys xs) \<longleftrightarrow> distinct ys"
  by (induction xs arbitrary: ys) auto

lemma set_dedup [simp]: "set (dedup xs) = set xs"
  using foldl_set_add [of "\<lambda>x. x" "[]" xs] by (simp add: dedup_def)

lemma distinct_dedup [simp]: "distinct (dedup xs)"
  using distinct_foldl_set_add [of "\<lambda>x. x" "[]" xs] by (simp add: dedup_def)

section \<open>Map and plain objects: association lists\<close>

type_synonym 'v jsobj = "(string \<times> 'v) list"

definition obj_get :: "('k \<times> 'v) list \<Rightarrow> 'k \<Rightarrow> 'v option" where
  "obj_get m k = map_of m k"

definition obj_set :: "'k \<Rightarrow> 'v \<Rightarrow> ('k \<times> 'v) list \<Rightarrow> ('k \<times> 'v) list" where
  "obj_set k v m = AList.update k v m"

lemmas [js_eval] = obj_get_def obj_set_def

lemma obj_get_Nil [simp]: "obj_get [] k = None"
  by (simp add: obj_get_def)

lemma obj_get_set [simp]: "obj_get (obj_set k v m) j = (if j = k then Some v else obj_get m j)"
  by (simp add: obj_get_def obj_set_def update_conv')

lemma distinct_obj_set [simp]: "distinct (map fst m) \<Longrightarrow> distinct (map fst (obj_set k v m))"
  by (simp add: obj_set_def distinct_update)

lemma dom_obj_set [simp]: "fst ` set (obj_set k v m) = insert k (fst ` set m)"
  unfolding obj_set_def by (induction m) auto

lemma obj_get_Some_in: "obj_get m k = Some v \<Longrightarrow> (k, v) \<in> set m"
  by (simp add: obj_get_def map_of_SomeD)

lemma obj_get_eq_Some:
  "distinct (map fst m) \<Longrightarrow> obj_get m k = Some v \<longleftrightarrow> (k, v) \<in> set m"
  by (simp add: obj_get_def)

lemma obj_get_eq_None: "obj_get m k = None \<longleftrightarrow> k \<notin> fst ` set m"
  by (simp add: obj_get_def map_of_eq_None_iff)

lemma keys_obj_set:
  "map fst (obj_set k v m) = (if k \<in> fst ` set m then map fst m else map fst m @ [k])"
  unfolding obj_set_def by (induction m) auto

text \<open>
  \<open>Object.keys\<close>: the keys that are array indices (canonical decimal numbers below \<open>2 ^ 32 - 1\<close>)
  come first in ascending order, the others follow in insertion order.
\<close>

definition is_index_key :: "string \<Rightarrow> bool" where
  "is_index_key s \<longleftrightarrow> s \<noteq> [] \<and> list_all is_digit s \<and> nat_str (str_nat s 0) = s
     \<and> str_nat s 0 < 2 ^ 32 - 1"

definition obj_keys :: "'v jsobj \<Rightarrow> string list" where
  "obj_keys m = sort_key (\<lambda>s. str_nat s 0) (filter is_index_key (map fst m))
     @ filter (\<lambda>s. \<not> is_index_key s) (map fst m)"

definition obj_entries :: "'v jsobj \<Rightarrow> (string \<times> 'v) list" where
  "obj_entries m = concat (map (\<lambda>k. case obj_get m k of None \<Rightarrow> [] | Some v \<Rightarrow> [(k, v)]) (obj_keys m))"

lemma set_obj_keys [simp]: "set (obj_keys m) = fst ` set m"
  by (auto simp: obj_keys_def)

lemma mset_obj_keys: "mset (obj_keys m) = mset (map fst m)"
  by (simp add: obj_keys_def)

lemma distinct_obj_keys [simp]: "distinct (obj_keys m) \<longleftrightarrow> distinct (map fst m)"
  by (metis mset_obj_keys mset_eq_imp_distinct_iff)

lemma in_obj_entries: "(k, v) \<in> set (obj_entries m) \<longleftrightarrow> obj_get m k = Some v"
proof -
  have dom: "obj_get m k = Some v \<Longrightarrow> k \<in> fst ` set m"
    by (metis obj_get_eq_None option.distinct(1))
  have "(k, v) \<in> set (obj_entries m) \<longleftrightarrow> k \<in> fst ` set m \<and> obj_get m k = Some v"
    unfolding obj_entries_def set_concat set_map set_obj_keys
    by (auto split: option.splits) (force split: option.splits)+
  with dom show ?thesis by blast
qed

text \<open>
  Reading \<open>m[k]\<close> also finds the members that every plain object inherits, so a key with such a name
  counts as present although it was never stored.
\<close>

definition PROTO_MEMBERS :: "string list" where
  "PROTO_MEMBERS = [''constructor'', ''__defineGetter__'', ''__defineSetter__'', ''hasOwnProperty'',
     ''__lookupGetter__'', ''__lookupSetter__'', ''isPrototypeOf'', ''propertyIsEnumerable'', ''toString'',
     ''valueOf'', ''__proto__'', ''toLocaleString'']"

definition obj_has :: "'v jsobj \<Rightarrow> string \<Rightarrow> bool" where
  "obj_has m k \<longleftrightarrow> obj_get m k \<noteq> None \<or> k \<in> set PROTO_MEMBERS"

section \<open>Array.prototype.sort\<close>

fun js_insert :: "('a \<Rightarrow> 'a \<Rightarrow> rat) \<Rightarrow> 'a \<Rightarrow> 'a list \<Rightarrow> 'a list" where
  "js_insert cmp x [] = [x]"
| "js_insert cmp x (y # ys) = (if cmp x y \<le> 0 then x # y # ys else y # js_insert cmp x ys)"

definition js_sort :: "('a \<Rightarrow> 'a \<Rightarrow> rat) \<Rightarrow> 'a list \<Rightarrow> 'a list" where
  "js_sort cmp xs = foldr (js_insert cmp) xs []"

lemmas [js_eval] = js_sort_def

lemma mset_js_insert: "mset (js_insert cmp x ys) = {#x#} + mset ys"
  by (induction ys) auto

lemma mset_js_sort [simp]: "mset (js_sort cmp xs) = mset xs"
  by (induction xs) (simp_all add: js_sort_def mset_js_insert)

lemma set_js_sort [simp]: "set (js_sort cmp xs) = set xs"
  by (metis mset_js_sort set_mset_mset)

lemma length_js_sort [simp]: "length (js_sort cmp xs) = length xs"
  by (metis mset_js_sort size_mset)

lemma distinct_map_js_sort [simp]: "distinct (map f (js_sort cmp xs)) \<longleftrightarrow> distinct (map f xs)"
  by (metis mset_js_sort mset_map mset_eq_imp_distinct_iff)

text \<open>
  Sort keys with a direction: ascending, descending, or a missing value that sinks to the bottom in
  either direction. The instance of \<open>linorder\<close> makes the library's \<open>sorted\<close> and
  \<open>sort_key\<close> apply.
\<close>

datatype 'a dirkey = Up 'a | Down 'a | Bottom

instantiation dirkey :: (linorder) linorder
begin

fun less_eq_dirkey :: "'a dirkey \<Rightarrow> 'a dirkey \<Rightarrow> bool" where
  "less_eq_dirkey (Up a) (Up b) \<longleftrightarrow> a \<le> b"
| "less_eq_dirkey (Up a) _ \<longleftrightarrow> True"
| "less_eq_dirkey (Down a) (Up b) \<longleftrightarrow> False"
| "less_eq_dirkey (Down a) (Down b) \<longleftrightarrow> b \<le> a"
| "less_eq_dirkey (Down a) Bottom \<longleftrightarrow> True"
| "less_eq_dirkey Bottom b \<longleftrightarrow> b = Bottom"

definition less_dirkey :: "'a dirkey \<Rightarrow> 'a dirkey \<Rightarrow> bool" where
  "less_dirkey a b \<longleftrightarrow> a \<le> b \<and> \<not> b \<le> (a :: 'a dirkey)"

instance
proof
  fix x y z :: "'a dirkey"
  show "x < y \<longleftrightarrow> x \<le> y \<and> \<not> y \<le> x" by (simp add: less_dirkey_def)
  show "x \<le> x" by (cases x) simp_all
  show "x \<le> y \<Longrightarrow> y \<le> z \<Longrightarrow> x \<le> z" by (cases x; cases y; cases z) auto
  show "x \<le> y \<Longrightarrow> y \<le> x \<Longrightarrow> x = y" by (cases x; cases y) auto
  show "x \<le> y \<or> y \<le> x" by (cases x; cases y) auto
qed

end

text \<open>A comparator that orders by a key: the sort is the library's stable \<open>sort_key\<close>.\<close>

locale keyed_comparator =
  fixes cmp :: "'a \<Rightarrow> 'a \<Rightarrow> rat"
    and key :: "'a \<Rightarrow> 'k::linorder"
  assumes cmp_le: "cmp x y \<le> 0 \<longleftrightarrow> key x \<le> key y"
begin

lemma js_insert_eq: "js_insert cmp x ys = insort_key key x ys"
  by (induction ys) (auto simp: cmp_le)

lemma js_sort_eq: "js_sort cmp xs = sort_key key xs"
  by (induction xs) (simp_all add: js_sort_def js_insert_eq)

lemma sorted_js_sort: "sorted (map key (js_sort cmp xs))"
  by (simp add: js_sort_eq)

lemma stable_js_sort:
  "filter (\<lambda>x. key x = k) (js_sort cmp xs) = filter (\<lambda>x. key x = k) xs"
  by (simp add: js_sort_eq sort_key_stable)

lemma js_sort_sorted: "sorted (map key xs) \<Longrightarrow> js_sort cmp xs = xs"
  by (simp add: js_sort_eq sort_key_id_if_sorted)

end

section \<open>Sets of keys that are toggled\<close>

locale toggle_set =
  fixes toggle :: "'k \<Rightarrow> 's \<Rightarrow> 's"
    and mem :: "'s \<Rightarrow> 'k \<Rightarrow> bool"
  assumes mem_toggle: "mem (toggle k s) j \<longleftrightarrow> (if j = k then \<not> mem s k else mem s j)"
begin

lemma toggle_twice: "mem (toggle k (toggle k s)) j \<longleftrightarrow> mem s j"
  by (simp add: mem_toggle)

lemma toggle_commute: "mem (toggle k (toggle l s)) j \<longleftrightarrow> mem (toggle l (toggle k s)) j"
  by (simp add: mem_toggle)

lemma toggle_run: "mem (foldl (\<lambda>s k. toggle k s) s ks) j \<longleftrightarrow> mem s j \<noteq> odd (count_list ks j)"
  by (induction ks arbitrary: s) (auto simp: mem_toggle)

end

text \<open>The set itself, toggled with \<open>has\<close> / \<open>delete\<close> / \<open>add\<close> on a copy.\<close>

interpretation js_set: toggle_set set_toggle "\<lambda>s k. k \<in> set s"
  by unfold_locales (auto simp: set_toggle_def)

section \<open>Grouping by a key\<close>

text \<open>
  The idiom \<open>(groups[k] ??= []).push(v)\<close>: a lookup that returns the empty list for a missing key
  and an update that appends. The client is the fold over a list.
\<close>

locale bucket_map =
  fixes bucket :: "'m \<Rightarrow> 'k \<Rightarrow> 'v list"
    and push :: "'k \<Rightarrow> 'v \<Rightarrow> 'm \<Rightarrow> 'm"
  assumes bucket_push: "bucket (push k v m) j = (if j = k then bucket m j @ [v] else bucket m j)"
begin

lemma bucket_fold:
  "bucket (foldl (\<lambda>m x. push (f x) (g x) m) m xs) j
     = bucket m j @ map g (filter (\<lambda>x. f x = j) xs)"
  by (induction xs arbitrary: m) (auto simp: bucket_push)

lemma bucket_fold_guarded:
  "bucket (foldl (\<lambda>m x. if P x then push (f x) (g x) m else m) m xs) j
     = bucket m j @ map g (filter (\<lambda>x. P x \<and> f x = j) xs)"
  by (induction xs arbitrary: m) (auto simp: bucket_push)

end

definition obj_bucket :: "('k \<times> 'v list) list \<Rightarrow> 'k \<Rightarrow> 'v list" where
  "obj_bucket m k = nullish (obj_get m k) []"

definition obj_push :: "'k \<Rightarrow> 'v \<Rightarrow> ('k \<times> 'v list) list \<Rightarrow> ('k \<times> 'v list) list" where
  "obj_push k v m = obj_set k (obj_bucket m k @ [v]) m"

lemmas [js_eval] = obj_bucket_def obj_push_def

interpretation js_groups: bucket_map obj_bucket obj_push
  by unfold_locales (simp add: obj_bucket_def obj_push_def)

lemma obj_bucket_Nil [simp]: "obj_bucket [] k = []"
  by (simp add: obj_bucket_def)

lemma distinct_obj_push [simp]: "distinct (map fst m) \<Longrightarrow> distinct (map fst (obj_push k v m))"
  by (simp add: obj_push_def)

lemma dom_obj_push [simp]: "fst ` set (obj_push k v m) = insert k (fst ` set m)"
  by (simp add: obj_push_def)

lemma dom_fold_obj_push:
  "fst ` set (foldl (\<lambda>m x. obj_push (f x) (g x) m) m xs) = fst ` set m \<union> f ` set xs"
  by (induction xs arbitrary: m) auto

lemma dom_fold_obj_push_guarded:
  "fst ` set (foldl (\<lambda>m x. if P x then obj_push (f x) (g x) m else m) m xs)
     = fst ` set m \<union> f ` {x \<in> set xs. P x}"
  by (induction xs arbitrary: m) auto

lemma distinct_fold_obj_push_guarded:
  "distinct (map fst m) \<Longrightarrow>
   distinct (map fst (foldl (\<lambda>m x. if P x then obj_push (f x) (g x) m else m) m xs))"
  by (induction xs arbitrary: m) simp_all

section \<open>Event-driven components\<close>

locale machine =
  fixes init :: 's
    and step :: "'s \<Rightarrow> 'e \<Rightarrow> 's"
    and inv :: "'s \<Rightarrow> bool"
  assumes inv_init: "inv init"
    and inv_step: "inv s \<Longrightarrow> inv (step s e)"
begin

lemma inv_foldl: "inv s \<Longrightarrow> inv (foldl step s es)"
  by (induction es arbitrary: s) (simp_all add: inv_step)

lemma inv_run: "inv (foldl step init es)"
  by (simp add: inv_foldl inv_init)

end

end
