(* ===== verification/Types.thy ===== *)
theory Types
  imports Js_Collections
begin

text \<open>
  The data that the backend and the frontend exchange (\<open>frontend/src/types/index.ts\<close>): one record
  per interface, in the file's order, field names prefixed to keep them apart. A string union that
  the code only compares stays a string where the server may send any value and is a datatype where
  the frontend constructs it. Row counts, byte counts and times are integers, percentages and rates
  are rationals; \<open>unknown\<close> metadata values are strings, the only use the code makes of them.
\<close>

section \<open>Auth\<close>

record login_request =
  lr_host :: string
  lr_port :: int
  lr_username :: string
  lr_password :: string

record login_response =
  lp_token :: string
  lp_username :: string
  lp_roles :: "string list"
  lp_default_role :: "string option"

record user_info =
  ui_username :: string
  ui_roles :: "string list"
  ui_default_role :: "string option"
  ui_is_user_admin :: bool
  ui_can_manage_grants :: bool

section \<open>Grant management\<close>

datatype grantee_kind = GUser | GRole
datatype grant_action = Grant | Revoke
datatype grant_kind = Privilege | RoleGrant

record grantee_ref =
  ge_name :: string
  ge_type :: grantee_kind

record grant_object_ref =
  go_object_type :: string
  go_catalog :: "string option"
  go_database :: "string option"
  go_name :: "string option"

record grant_request =
  gq_action :: grant_action
  gq_type :: grant_kind
  gq_grantee :: grantee_ref
  gq_object :: "grant_object_ref option"
  gq_privileges :: "string list option"
  gq_role :: "string option"
  gq_with_grant_option :: "bool option"

record grant_spec =
  gs_object_types :: "string list jsobj"

record grant_preview_response =
  pv_sql :: "string list"
  pv_warnings :: "string list"

datatype audit_state = AuditOk | AuditFailed

record grant_execute_response =
  ex_audit :: audit_state

record audit_entry =
  au_log_time :: string
  au_actor :: string
  au_action :: string
  au_grant_type :: string
  au_sql_text :: string
  au_result :: string
  au_error_msg :: "string option"

section \<open>Objects, privileges, roles\<close>

record catalog_item =
  ci_name :: string
  ci_catalog_type :: string

record database_item =
  di_name :: string
  di_catalog :: string

record object_item =
  oi_name :: string
  oi_object_type :: string
  oi_catalog :: string
  oi_database :: string

record privilege_grant =
  pg_grantee :: string
  pg_grantee_type :: string
  pg_object_catalog :: "string option"
  pg_object_database :: "string option"
  pg_object_name :: "string option"
  pg_object_type :: string
  pg_privilege_type :: string
  pg_is_grantable :: bool
  pg_source :: string

record role_item =
  ri_name :: string
  ri_is_builtin :: bool

section \<open>My permissions and search\<close>

record role_tree_grant =
  rg_privilege_type :: string
  rg_object_type :: string
  rg_object_catalog :: "string option"
  rg_object_database :: "string option"
  rg_object_name :: "string option"

record role_tree_entry =
  rt_grants :: "role_tree_grant list"
  rt_parent_roles :: "string list"

record effective_privilege = role_tree_grant +
  ep_source :: string

record accessible_object =
  ao_catalog :: "string option"
  ao_database :: string
  ao_name :: string
  ao_type :: string
  ao_rows :: "int option"
  ao_size :: "int option"
  ao_signature :: "string option"
  ao_return_type :: "string option"
  ao_function_type :: "string option"
  ao_properties :: "string option"

record accessible_database =
  ad_name :: string
  ad_catalog :: string

record accessible_catalog =
  ac_name :: string
  ac_type :: string

record my_permissions =
  mp_username :: string
  mp_direct_roles :: "string list"
  mp_role_tree :: "role_tree_entry jsobj"
  mp_effective_privileges :: "effective_privilege list"
  mp_accessible_databases :: "accessible_database list"
  mp_accessible_catalogs :: "accessible_catalog list"
  mp_accessible_objects :: "accessible_object list"
  mp_system_objects :: "string jsobj list"

record search_result =
  sr_name :: string
  sr_type :: string
  sr_catalog :: string
  sr_database :: string
  sr_path :: string

section \<open>DAG\<close>

record dag_node =
  dn_id :: string
  dn_label :: string
  dn_type :: string
  dn_color :: "string option"
  dn_node_role :: "string option"
  dn_metadata :: "string jsobj option"

record dag_edge =
  de_id :: string
  de_source :: string
  de_target :: string
  de_edge_type :: string

record dag_graph =
  dg_nodes :: "dag_node list"
  dg_edges :: "dag_edge list"

section \<open>Table detail\<close>

record column_info =
  co_name :: string
  co_column_type :: string
  co_ordinal_position :: int
  co_is_nullable :: string
  co_column_default :: "string option"
  co_column_key :: "string option"
  co_comment :: "string option"

record table_detail =
  td_table_name :: string
  td_table_type :: string
  td_engine :: "string option"
  td_row_count :: "int option"
  td_data_size :: "int option"
  td_create_time :: "string option"
  td_update_time :: "string option"
  td_comment :: "string option"
  td_columns :: "column_info list"
  td_ddl :: "string option"
  td_key_type :: "string option"
  td_distribution_type :: "string option"
  td_bucket_keys :: "string list option"
  td_bucket_count :: "int option"
  td_partition_method :: "string option"
  td_partition_key :: "string option"
  td_partition_count :: "int option"
  td_replication_num :: "int option"
  td_storage_medium :: "string option"
  td_compression :: "string option"

section \<open>Cluster status\<close>

record fe_node =
  fe_name :: string
  fe_ip :: string
  fe_edit_log_port :: "int option"
  fe_http_port :: "int option"
  fe_query_port :: "int option"
  fe_rpc_port :: "int option"
  fe_role :: string
  fe_alive :: bool
  fe_join :: bool
  fe_last_heartbeat :: "string option"
  fe_replayed_journal_id :: "int option"
  fe_start_time :: "string option"
  fe_version :: "string option"
  fe_err_msg :: "string option"
  fe_jvm_heap_used_pct :: "rat option"
  fe_gc_young_count :: "int option"
  fe_gc_young_time_ms :: "int option"
  fe_gc_old_count :: "int option"
  fe_gc_old_time_ms :: "int option"
  fe_query_p99_ms :: "rat option"
  fe_connection_count :: "int option"
  fe_qps :: "rat option"
  fe_metrics_error :: "string option"

datatype be_kind = Backend | Compute

record be_node =
  be_name :: string
  be_ip :: string
  be_node_type :: be_kind
  be_heartbeat_port :: "int option"
  be_be_port :: "int option"
  be_http_port :: "int option"
  be_brpc_port :: "int option"
  be_alive :: bool
  be_last_heartbeat :: "string option"
  be_last_start_time :: "string option"
  be_tablet_count :: "int option"
  be_data_used_capacity :: "string option"
  be_total_capacity :: "string option"
  be_used_pct :: "rat option"
  be_cpu_cores :: "int option"
  be_cpu_used_pct :: "rat option"
  be_mem_used_pct :: "rat option"
  be_mem_limit :: "string option"
  be_num_running_queries :: "int option"
  be_warehouse :: "string option"
  be_version :: "string option"
  be_err_msg :: "string option"

record cluster_metrics =
  cm_fe_total :: int
  cm_fe_alive :: int
  cm_be_total :: int
  cm_be_alive :: int
  cm_cn_total :: int
  cm_cn_alive :: int
  cm_total_tablets :: "int option"
  cm_total_data_used :: "string option"
  cm_avg_disk_used_pct :: "rat option"
  cm_avg_cpu_used_pct :: "rat option"
  cm_avg_mem_used_pct :: "rat option"
  cm_avg_fe_heap_used_pct :: "rat option"
  cm_total_connections :: "int option"
  cm_total_qps :: "rat option"

datatype cluster_mode = FullMode | LimitedMode

record cluster_status =
  cs_frontends :: "fe_node list"
  cs_backends :: "be_node list"
  cs_metrics :: cluster_metrics
  cs_has_errors :: bool
  cs_mode :: cluster_mode
  cs_metrics_warning :: "string option"
  cs_server_now :: "string option"

section \<open>Queries\<close>

record running_query =
  rq_query_id :: string
  rq_connection_id :: "int option"
  rq_user :: string
  rq_database :: "string option"
  rq_start_time :: "string option"
  rq_fe_ip :: "string option"
  rq_warehouse :: "string option"
  rq_resource_group :: "string option"
  rq_exec_state :: "string option"
  rq_exec_progress :: "string option"
  rq_scan_rows :: "rat option"
  rq_scan_bytes :: "rat option"
  rq_scan_bytes_display :: "string option"
  rq_memory_bytes :: "rat option"
  rq_memory_display :: "string option"
  rq_spill_bytes :: "rat option"
  rq_spill_display :: "string option"
  rq_cpu_time_ms :: "rat option"
  rq_cpu_time_display :: "string option"
  rq_exec_time_ms :: "rat option"
  rq_exec_time_display :: "string option"
  rq_cpu_avg_cores :: "rat option"
  rq_sql :: "string option"

record queries_response =
  qr_queries :: "running_query list"
  qr_server_now :: "string option"
  qr_can_kill :: bool

record history_query =
  hq_query_id :: "string option"
  hq_timestamp :: "string option"
  hq_user :: "string option"
  hq_database :: "string option"
  hq_warehouse :: "string option"
  hq_query_type :: "string option"
  hq_state :: "string option"
  hq_is_error :: bool
  hq_error_code :: "string option"
  hq_query_time_ms :: "rat option"
  hq_scan_rows :: "rat option"
  hq_scan_bytes :: "rat option"
  hq_mem_cost_bytes :: "rat option"
  hq_cpu_cost_ns :: "rat option"
  hq_sql :: "string option"

record history_response =
  hr_available :: bool
  hr_queries :: "history_query list"
  hr_server_now :: "string option"
  hr_reason :: "string option"

end
