(* ===== verification/Js_Regex.thy ===== *)
theory Js_Regex
  imports Js_Collections
begin

text \<open>
  The regular expressions of the sources, matched the way the language defines it: by backtracking,
  greedy operators trying the longer match first, captures recorded on the way. A state is the
  position and the text that is left. Stars range over character classes only, which is all the
  sources use, so the matcher is structurally recursive.
\<close>

section \<open>Syntax and matcher\<close>

datatype re =
    Eps
  | Cls "char \<Rightarrow> bool"
  | Seq re re
  | Alt re re
  | Opt re
  | Star "char \<Rightarrow> bool"
  | Cap nat re
  | Bos
  | Eos
  | NotAhead re

type_synonym mstate = "nat \<times> string"
type_synonym captures = "(nat \<times> string) list"
type_synonym mresult = "(mstate \<times> captures) option"

fun star_match :: "(char \<Rightarrow> bool) \<Rightarrow> nat \<Rightarrow> string \<Rightarrow> (mstate \<Rightarrow> mresult) \<Rightarrow> mresult" where
  "star_match p i [] k = k (i, [])"
| "star_match p i (c # cs) k =
     (if p c then (case star_match p (Suc i) cs k of Some r \<Rightarrow> Some r | None \<Rightarrow> k (i, c # cs))
      else k (i, c # cs))"

fun re_match :: "re \<Rightarrow> mstate \<Rightarrow> captures \<Rightarrow> (mstate \<Rightarrow> captures \<Rightarrow> mresult) \<Rightarrow> mresult" where
  "re_match Eps st cs k = k st cs"
| "re_match (Cls p) st cs k =
     (case snd st of [] \<Rightarrow> None | c # r \<Rightarrow> if p c then k (Suc (fst st), r) cs else None)"
| "re_match (Seq a b) st cs k = re_match a st cs (\<lambda>st' cs'. re_match b st' cs' k)"
| "re_match (Alt a b) st cs k =
     (case re_match a st cs k of Some r \<Rightarrow> Some r | None \<Rightarrow> re_match b st cs k)"
| "re_match (Opt a) st cs k = (case re_match a st cs k of Some r \<Rightarrow> Some r | None \<Rightarrow> k st cs)"
| "re_match (Star p) st cs k = star_match p (fst st) (snd st) (\<lambda>st'. k st' cs)"
| "re_match (Cap n a) st cs k =
     re_match a st cs (\<lambda>st' cs'. k st' ((n, take (fst st' - fst st) (snd st)) # cs'))"
| "re_match Bos st cs k = (if fst st = 0 then k st cs else None)"
| "re_match Eos st cs k = (if snd st = [] then k st cs else None)"
| "re_match (NotAhead a) st cs k =
     (case re_match a st cs (\<lambda>st' cs'. Some (st', cs')) of Some _ \<Rightarrow> None | None \<Rightarrow> k st cs)"

text \<open>A match that starts exactly at a state: the text left after it and the captures.\<close>

definition re_at :: "re \<Rightarrow> nat \<Rightarrow> string \<Rightarrow> (string \<times> captures) option" where
  "re_at r i s = map_option (\<lambda>(st, cs). (snd st, cs)) (re_match r (i, s) [] (\<lambda>st cs. Some (st, cs)))"

text \<open>The leftmost match: the text before it, the match, the text after it, the captures.\<close>

fun re_search_from :: "re \<Rightarrow> nat \<Rightarrow> string \<Rightarrow> (string \<times> string \<times> string \<times> captures) option" where
  "re_search_from r i [] = (case re_at r i [] of Some (_, cs) \<Rightarrow> Some ([], [], [], cs) | None \<Rightarrow> None)"
| "re_search_from r i (c # s) =
     (case re_at r i (c # s) of
        Some (rest, cs) \<Rightarrow> Some ([], take (length (c # s) - length rest) (c # s), rest, cs)
      | None \<Rightarrow> map_option (\<lambda>(a, m, b, cs). (c # a, m, b, cs)) (re_search_from r (Suc i) s))"

definition re_search :: "re \<Rightarrow> string \<Rightarrow> (string \<times> string \<times> string \<times> captures) option" where
  "re_search r s = re_search_from r 0 s"

definition re_test :: "re \<Rightarrow> string \<Rightarrow> bool" where
  "re_test r s \<longleftrightarrow> re_search r s \<noteq> None"

text \<open>\<open>s.replace(r, t)\<close> without the \<open>g\<close> flag.\<close>

definition re_replace :: "re \<Rightarrow> string \<Rightarrow> string \<Rightarrow> string" where
  "re_replace r t s = (case re_search r s of Some (a, _, b, _) \<Rightarrow> a @ t @ b | None \<Rightarrow> s)"

text \<open>
  The \<open>g\<close> flag: all matches from left to right. Each of the sources' global patterns matches at
  least one character; the fuel is the length of the text, and a match that consumed nothing
  moves on by one character as the language prescribes.
\<close>

fun re_all :: "nat \<Rightarrow> re \<Rightarrow> nat \<Rightarrow> string \<Rightarrow> (string \<times> string) list \<times> string" where
  "re_all 0 r i s = ([], s)"
| "re_all (Suc n) r i s =
     (case re_search_from r i s of
        None \<Rightarrow> ([], s)
      | Some (a, m, b, _) \<Rightarrow>
          (if m = [] then
             (case b of [] \<Rightarrow> ([(a, m)], [])
              | c # b' \<Rightarrow> (case re_all n r (i + length a + 1) b' of
                   ([], e) \<Rightarrow> ([(a, m)], c # e)
                 | ((a', m') # ms, e) \<Rightarrow> ((a, m) # (c # a', m') # ms, e)))
           else (case re_all n r (i + length a + length m) b of (ms, e) \<Rightarrow> ((a, m) # ms, e))))"

definition re_match_all :: "re \<Rightarrow> string \<Rightarrow> string list" where
  "re_match_all r s = map snd (fst (re_all (Suc (length s)) r 0 s))"

definition re_replace_all :: "re \<Rightarrow> string \<Rightarrow> string \<Rightarrow> string" where
  "re_replace_all r t s =
     (case re_all (Suc (length s)) r 0 s of (ms, e) \<Rightarrow> concat (map (\<lambda>(a, _). a @ t) ms) @ e)"

definition capture :: "nat \<Rightarrow> captures \<Rightarrow> string" where
  "capture n cs = nullish (map_of cs n) []"

section \<open>Derived forms\<close>

definition lit :: "char \<Rightarrow> re" where
  "lit c = Cls (\<lambda>d. d = c)"

definition plus :: "(char \<Rightarrow> bool) \<Rightarrow> re" where
  "plus p = Seq (Cls p) (Star p)"

fun lits :: "string \<Rightarrow> re" where
  "lits [] = Eps"
| "lits (c # cs) = Seq (lit c) (lits cs)"

fun re_seq :: "re list \<Rightarrow> re" where
  "re_seq [] = Eps"
| "re_seq [r] = r"
| "re_seq (r # s # rs) = Seq r (re_seq (s # rs))"

fun re_times :: "nat \<Rightarrow> re \<Rightarrow> re" where
  "re_times 0 r = Eps"
| "re_times (Suc n) r = Seq r (re_times n r)"

lemmas [js_eval] = re_at_def re_search_def re_test_def re_replace_def re_match_all_def
  re_replace_all_def capture_def lit_def plus_def

section \<open>Lemmas\<close>

text \<open>
  Evaluation proceeds from a concrete state only, so that a continuation is not unfolded before its
  state is known.
\<close>

declare re_match.simps [simp del]

lemma re_match_pair [simp]:
  "re_match Eps (i, s) cs k = k (i, s) cs"
  "re_match (Cls p) (i, []) cs k = None"
  "re_match (Cls p) (i, c # r) cs k = (if p c then k (Suc i, r) cs else None)"
  "re_match (Seq a b) (i, s) cs k = re_match a (i, s) cs (\<lambda>st' cs'. re_match b st' cs' k)"
  "re_match (Alt a b) (i, s) cs k =
     (case re_match a (i, s) cs k of Some r \<Rightarrow> Some r | None \<Rightarrow> re_match b (i, s) cs k)"
  "re_match (Opt a) (i, s) cs k = (case re_match a (i, s) cs k of Some r \<Rightarrow> Some r | None \<Rightarrow> k (i, s) cs)"
  "re_match (Cap n a) (i, s) cs k =
     re_match a (i, s) cs (\<lambda>st' cs'. k st' ((n, take (fst st' - i) s) # cs'))"
  "re_match Bos (i, s) cs k = (if i = 0 then k (i, s) cs else None)"
  "re_match Eos (i, s) cs k = (if s = [] then k (i, s) cs else None)"
  "re_match (NotAhead a) (i, s) cs k =
     (case re_match a (i, s) cs (\<lambda>st' cs'. Some (st', cs')) of Some _ \<Rightarrow> None | None \<Rightarrow> k (i, s) cs)"
  by (simp_all add: re_match.simps)

lemma re_match_star_eval:
  "re_match (Star p) (i, s) cs k = star_match p i s (\<lambda>st'. k st' cs)"
  by (simp add: re_match.simps)

text \<open>
  A star followed by something that cannot start inside the class consumes exactly the longest
  prefix in the class, so no backtracking is needed.
\<close>

lemma star_match_prefix:
  assumes "\<forall>c \<in> set s. p c" and "rest = [] \<or> \<not> p (hd rest)" and "k (i + length s, rest) = Some r"
  shows "star_match p i (s @ rest) k = Some r"
  using assms
proof (induction s arbitrary: i)
  case Nil
  then show ?case by (cases rest) auto
next
  case (Cons c s)
  then have "star_match p (Suc i) (s @ rest) k = Some r" by simp
  with Cons.prems show ?case by simp
qed

lemma re_match_star_step:
  assumes "\<forall>c \<in> set s. p c" and "rest = [] \<or> \<not> p (hd rest)" and "k (i + length s, rest) cs \<noteq> None"
  shows "re_match (Star p) (i, s @ rest) cs k = k (i + length s, rest) cs"
  using star_match_prefix [of s p rest "\<lambda>st. k st cs" i] assms by (auto simp: re_match_star_eval)

lemma re_match_plus_step:
  assumes "s \<noteq> []" and "\<forall>c \<in> set s. p c" and "\<not> p d" and "k (i + length s, d # r) cs \<noteq> None"
  shows "re_match (plus p) (i, s @ d # r) cs k = k (i + length s, d # r) cs"
proof -
  obtain c t where s: "s = c # t" using assms(1) by (cases s) auto
  have "re_match (Star p) (Suc i, t @ d # r) cs k = k (Suc i + length t, d # r) cs"
    by (rule re_match_star_step) (use assms s in auto)
  then show ?thesis using assms(2) s by (simp add: plus_def)
qed

text \<open>At the end of the text.\<close>

lemma re_match_star_end:
  assumes "\<forall>c \<in> set s. p c" and "k (i + length s, []) cs \<noteq> None"
  shows "re_match (Star p) (i, s) cs k = k (i + length s, []) cs"
  using re_match_star_step [of s p "[]"] assms by simp

lemma star_match_None:
  assumes "\<And>n. n \<le> length s \<Longrightarrow> k (i + n, drop n s) = None"
  shows "star_match p i s k = None"
  using assms
proof (induction s arbitrary: i)
  case Nil
  then show ?case by (metis add.right_neutral drop0 le0 star_match.simps(1))
next
  case (Cons c s)
  have "star_match p (Suc i) s k = None"
  proof (rule Cons.IH)
    fix n assume "n \<le> length s"
    then show "k (Suc i + n, drop n s) = None" using Cons.prems [of "Suc n"] by simp
  qed
  moreover have "k (i, c # s) = None" using Cons.prems [of 0] by simp
  ultimately show ?case by simp
qed

text \<open>If the pattern needs a character that the text does not have, it does not match.\<close>

fun needs :: "char \<Rightarrow> re \<Rightarrow> bool" where
  "needs d (Cls p) = (\<forall>c. p c \<longrightarrow> c = d)"
| "needs d (Seq a b) = (needs d a \<or> needs d b)"
| "needs d (Alt a b) = (needs d a \<and> needs d b)"
| "needs d (Cap n a) = needs d a"
| "needs d _ = False"

lemma star_match_suffix:
  assumes "star_match p i s k = Some r"
  shows "\<exists>n \<le> length s. k (i + n, drop n s) = Some r"
  using assms
proof (induction s arbitrary: i)
  case Nil
  then show ?case by simp
next
  case (Cons c s)
  show ?case
  proof (cases "p c \<and> star_match p (Suc i) s k = Some r")
    case True
    then obtain n where "n \<le> length s" "k (Suc i + n, drop n s) = Some r"
      using Cons.IH by blast
    then show ?thesis by (intro exI [of _ "Suc n"]) simp
  next
    case False
    with Cons.prems have "k (i, c # s) = Some r"
      by (auto split: if_splits option.splits)
    then show ?thesis by (intro exI [of _ 0]) simp
  qed
qed

text \<open>
  A successful match continues from a suffix of the text it started at, and the text consumed holds
  every character the pattern needs.
\<close>

definition goes_on :: "re \<Rightarrow> mstate \<Rightarrow> (mstate \<Rightarrow> captures \<Rightarrow> mresult) \<Rightarrow> mstate \<times> captures \<Rightarrow> nat \<Rightarrow> captures \<Rightarrow> bool"
  where "goes_on a st k r n cs \<longleftrightarrow> n \<le> length (snd st) \<and> k (fst st + n, drop n (snd st)) cs = Some r
    \<and> (\<forall>d. needs d a \<longrightarrow> d \<in> set (take n (snd st)))"

lemma goes_on_0: "k st cs = Some r \<Longrightarrow> \<forall>d. \<not> needs d a \<Longrightarrow> goes_on a st k r 0 cs"
  by (simp add: goes_on_def)

lemma goes_on_seq:
  assumes "goes_on a st (\<lambda>st' cs'. re_match b st' cs' k) r n cs"
    and "goes_on b (fst st + n, drop n (snd st)) k r m cs'"
  shows "goes_on (Seq a b) st k r (n + m) cs'"
  using assms by (auto simp: goes_on_def take_add add.assoc add.commute [of m n])

lemma re_match_suffix:
  "re_match a st cs k = Some r \<Longrightarrow> \<exists>n cs'. goes_on a st k r n cs'"
proof (induction a arbitrary: st cs k)
  case (Cls p)
  then obtain c s where s: "snd st = c # s" "p c" "k (Suc (fst st), s) cs = Some r"
    by (auto simp: re_match.simps split: list.splits if_splits)
  then have "goes_on (Cls p) st k r 1 cs" by (auto simp: goes_on_def)
  then show ?case by blast
next
  case (Seq a b)
  from Seq.prems have "re_match a st cs (\<lambda>st' cs'. re_match b st' cs' k) = Some r" by (simp add: re_match.simps)
  from Seq.IH(1) [OF this] obtain n cs' where
    n: "goes_on a st (\<lambda>st' cs'. re_match b st' cs' k) r n cs'" by blast
  then have "re_match b (fst st + n, drop n (snd st)) cs' k = Some r"
    by (simp add: goes_on_def)
  from Seq.IH(2) [OF this] n show ?case by (blast intro: goes_on_seq)
next
  case (Alt a b)
  from Alt.prems have "re_match a st cs k = Some r \<or> re_match b st cs k = Some r"
    by (auto simp: re_match.simps split: option.splits)
  then obtain n cs' where "goes_on a st k r n cs' \<or> goes_on b st k r n cs'"
    using Alt.IH by metis
  then have "goes_on (Alt a b) st k r n cs'" by (auto simp: goes_on_def)
  then show ?case by blast
next
  case (Opt a)
  from Opt.prems have "re_match a st cs k = Some r \<or> k st cs = Some r"
    by (auto simp: re_match.simps split: option.splits)
  then obtain n cs' where "goes_on a st k r n cs' \<or> k st cs = Some r"
    using Opt.IH by metis
  then have "goes_on (Opt a) st k r n cs' \<or> goes_on (Opt a) st k r 0 cs"
    by (auto simp: goes_on_def)
  then show ?case by blast
next
  case (Star p)
  then have "star_match p (fst st) (snd st) (\<lambda>st'. k st' cs) = Some r" by (simp add: re_match.simps)
  from star_match_suffix [OF this] show ?case by (auto simp: goes_on_def)
next
  case (Cap m a)
  then have "re_match a st cs (\<lambda>st' cs'. k st' ((m, take (fst st' - fst st) (snd st)) # cs')) = Some r"
    by (simp add: re_match.simps)
  from Cap.IH [OF this] show ?case by (auto simp: goes_on_def)
next
  case (NotAhead a)
  then have "k st cs = Some r" by (auto simp: re_match.simps split: option.splits)
  then have "goes_on (NotAhead a) st k r 0 cs" by (rule goes_on_0) simp
  then show ?case by blast
qed (auto simp: re_match.simps split: if_splits intro!: exI [of _ "0 :: nat"] exI goes_on_0)

lemma needs_no_match:
  assumes "needs d r" and "d \<notin> set s"
  shows "re_at r i s = None"
proof (rule ccontr)
  assume "re_at r i s \<noteq> None"
  then obtain st cs where "re_match r (i, s) [] (\<lambda>st cs. Some (st, cs)) = Some (st, cs)"
    by (auto simp: re_at_def)
  from re_match_suffix [OF this] assms show False
    by (auto simp: goes_on_def dest: in_set_takeD)
qed

lemma needs_no_search:
  assumes "needs d r" and "d \<notin> set s"
  shows "re_search_from r i s = None"
  using assms(2)
proof (induction s arbitrary: i)
  case Nil
  then show ?case using needs_no_match [OF assms(1), of "[]"] by simp
next
  case (Cons c s)
  then show ?case using needs_no_match [OF assms(1) Cons.prems] by simp
qed

end
