(* ===== verification/Grant_Helpers.thy ===== *)
theory Grant_Helpers
  imports Types Js_Regex
begin

text \<open>
  The pure helpers of the grant domain: \<open>utils/constants.ts\<close>, \<open>utils/scopeConfig.ts\<close>,
  \<open>utils/grantHelpers.ts\<close>, \<open>utils/granteeName.ts\<close>, \<open>utils/privColors.ts\<close> and
  \<open>utils/colors.ts\<close>.
\<close>

section \<open>Constants\<close>

definition BUILTIN_ROLES :: "string list" where
  "BUILTIN_ROLES = [''root'', ''cluster_admin'', ''db_admin'', ''user_admin'', ''security_admin'', ''public'']"

definition SCOPE_ORDER :: "string list" where
  "SCOPE_ORDER = [''SYSTEM'', ''CATALOG'', ''DATABASE'', ''TABLE'', ''VIEW'', ''MATERIALIZED VIEW'',
     ''FUNCTION'', ''RESOURCE'', ''STORAGE VOLUME'', ''RESOURCE GROUP'', ''GLOBAL FUNCTION'',
     ''WAREHOUSE'', ''PIPE'', ''TASK'', ''USER'']"

definition SCOPE_ICONS :: "string jsobj" where
  "SCOPE_ICONS = [(''SYSTEM'', ''system''), (''CATALOG'', ''catalog''), (''DATABASE'', ''database''),
     (''TABLE'', ''table''), (''VIEW'', ''view''), (''MATERIALIZED VIEW'', ''mv''),
     (''FUNCTION'', ''function''), (''WAREHOUSE'', ''system''), (''RESOURCE GROUP'', ''system''),
     (''STORAGE VOLUME'', ''system''), (''RESOURCE'', ''system''), (''GLOBAL FUNCTION'', ''function''),
     (''PIPE'', ''system''), (''TASK'', ''system'')]"

definition OBJECT_TYPE_ORDER :: "string list" where
  "OBJECT_TYPE_ORDER = [''CATALOG'', ''DATABASE'', ''TABLE'', ''VIEW'', ''MATERIALIZED VIEW'', ''FUNCTION'']"

section \<open>Which rows can be revoked, which rows match an object\<close>

definition isRevocableRow :: "privilege_grant \<Rightarrow> bool" where
  "isRevocableRow g =
     (if pg_object_type g \<notin> set OBJECT_TYPE_ORDER then False
      else if pg_object_type g = ''CATALOG'' then truthy (pg_object_catalog g)
      else if pg_object_type g = ''DATABASE'' then truthy (pg_object_database g)
      else truthy (pg_object_database g) \<and> truthy (pg_object_name g))"

definition grantMatchesObject ::
  "privilege_grant \<Rightarrow> string \<Rightarrow> string \<Rightarrow> string \<Rightarrow> string \<Rightarrow> bool" where
  "grantMatchesObject g objectType catalog database name =
     (if pg_object_type g \<noteq> objectType then False
      else if nullish (pg_object_catalog g) [] \<noteq> catalog then False
      else let needsDb = objectType \<noteq> ''CATALOG'';
               needsName = objectType \<notin> set [''CATALOG'', ''DATABASE'']
           in if needsDb \<and> nullish (pg_object_database g) [] \<noteq> database then False
              else if needsName \<and> nullish (pg_object_name g) [] \<noteq> name then False
              else True)"

section \<open>Grantee identities\<close>

definition quote :: char where
  "quote = CHR 0x27"

text \<open>\<open>/^'([^']+)'@/\<close>\<close>

definition BARE_USER_RE :: re where
  "BARE_USER_RE = re_seq [Bos, lit quote, Cap 1 (plus (\<lambda>c. c \<noteq> quote)), lit quote, lit CHR ''@'']"

definition bareUser :: "string \<Rightarrow> string" where
  "bareUser name = trim (case re_search BARE_USER_RE name of
      Some (_, _, _, cs) \<Rightarrow> capture 1 cs
    | None \<Rightarrow> hd (split_on CHR ''@'' name))"

record parsed_grantee =
  pa_uname :: string
  pa_host :: "string option"
  pa_hostLabel :: "string option"

definition ALL_HOSTS_LABEL :: string where
  "ALL_HOSTS_LABEL = ''ALL CIDR''"

text \<open>\<open>/^'?([^'@]+)'?@'?([^']*)'?$/\<close>\<close>

definition GRANTEE_RE :: re where
  "GRANTEE_RE = re_seq [Bos, Opt (lit quote), Cap 1 (plus (\<lambda>c. c \<noteq> quote \<and> c \<noteq> CHR ''@'')),
     Opt (lit quote), lit CHR ''@'', Opt (lit quote), Cap 2 (Star (\<lambda>c. c \<noteq> quote)),
     Opt (lit quote), Eos]"

definition host_label :: "string \<Rightarrow> string" where
  "host_label host = (if host = [] \<or> host = ''%'' then ALL_HOSTS_LABEL
     else if str_includes ''/'' host then host else host @ ''/32'')"

definition parseGrantee :: "string \<Rightarrow> parsed_grantee" where
  "parseGrantee name = (case re_search GRANTEE_RE name of
      None \<Rightarrow> \<lparr>pa_uname = name, pa_host = None, pa_hostLabel = None\<rparr>
    | Some (_, _, _, cs) \<Rightarrow>
        \<lparr>pa_uname = capture 1 cs, pa_host = Some (capture 2 cs),
         pa_hostLabel = Some (host_label (capture 2 cs))\<rparr>)"

section \<open>Colours\<close>

record tag_color =
  tc_bg :: string
  tc_fg :: string

definition tag :: "string \<Rightarrow> string \<Rightarrow> tag_color" where
  "tag b f = \<lparr>tc_bg = b, tc_fg = f\<rparr>"

definition PRIV_TAG_COLORS :: "tag_color jsobj" where
  "PRIV_TAG_COLORS = [
     (''SELECT'', tag ''rgba(34,197,94,0.18)'' ''#4ade80''),
     (''INSERT'', tag ''rgba(59,130,246,0.18)'' ''#60a5fa''),
     (''UPDATE'', tag ''rgba(245,158,11,0.18)'' ''#fbbf24''),
     (''DELETE'', tag ''rgba(239,68,68,0.18)'' ''#f87171''),
     (''ALTER'', tag ''rgba(168,85,247,0.18)'' ''#c084fc''),
     (''DROP'', tag ''rgba(220,38,38,0.18)'' ''#f87171''),
     (''ALL'', tag ''rgba(99,102,241,0.18)'' ''#a5b4fc''),
     (''GRANT'', tag ''rgba(249,115,22,0.18)'' ''#fb923c''),
     (''USAGE'', tag ''rgba(14,165,233,0.18)'' ''#38bdf8''),
     (''NODE'', tag ''rgba(6,182,212,0.18)'' ''#22d3ee''),
     (''OPERATE'', tag ''rgba(20,184,166,0.18)'' ''#2dd4bf''),
     (''CREATE'', tag ''rgba(139,92,246,0.18)'' ''#a78bfa''),
     (''REFRESH'', tag ''rgba(236,72,153,0.18)'' ''#f472b6''),
     (''EXPORT'', tag ''rgba(234,179,8,0.18)'' ''#facc15''),
     (''IMPERSONATE'', tag ''rgba(249,115,22,0.18)'' ''#fb923c''),
     (''APPLY'', tag ''rgba(6,182,212,0.18)'' ''#22d3ee'')]"

definition getPrivColor :: "string \<Rightarrow> tag_color" where
  "getPrivColor priv = (let key = to_upper priv in
     case obj_get PRIV_TAG_COLORS key of
       Some c \<Rightarrow> c
     | None \<Rightarrow> (if starts_with ''CREATE'' key then the (obj_get PRIV_TAG_COLORS ''CREATE'')
               else tag ''rgba(139,92,246,0.15)'' ''#a78bfa''))"

text \<open>\<open>C\<close> and \<open>ENTITY_BADGE\<close> of \<open>utils/colors.ts\<close>.\<close>

definition C_palette :: "string jsobj" where
  "C_palette = [(''bg'', ''#0f172a''), (''card'', ''#1e293b''), (''border'', ''#334155''),
     (''borderLight'', ''#475569''), (''text1'', ''#e2e8f0''), (''text2'', ''#94a3b8''),
     (''text3'', ''#64748b''), (''accent'', ''#3b82f6''), (''green'', ''#22c55e''),
     (''warning'', ''#f59e0b'')]"

definition ENTITY_BADGE :: "tag_color jsobj" where
  "ENTITY_BADGE = [(''user'', tag ''rgba(14,165,233,0.18)'' ''#38bdf8''),
     (''role'', tag ''rgba(249,115,22,0.18)'' ''#fb923c'')]"

section \<open>Lemmas\<close>

lemma distinct_SCOPE_ORDER [simp]: "distinct SCOPE_ORDER"
  by (simp add: SCOPE_ORDER_def)

lemma revocable_type: "isRevocableRow g \<Longrightarrow> pg_object_type g \<in> set OBJECT_TYPE_ORDER"
  by (auto simp: isRevocableRow_def split: if_splits)

text \<open>
  A match on a fully specified object means the row carries that object's concrete path: a row that
  matches is one a single-object revoke can target.
\<close>

lemma match_revocable:
  assumes "grantMatchesObject g ot cat db nm" and "ot \<in> set OBJECT_TYPE_ORDER" and "cat \<noteq> []"
    and "ot \<noteq> ''CATALOG'' \<longrightarrow> db \<noteq> []"
    and "ot \<noteq> ''CATALOG'' \<and> ot \<noteq> ''DATABASE'' \<longrightarrow> nm \<noteq> []"
  shows "isRevocableRow g"
  using assms
  by (cases "pg_object_catalog g"; cases "pg_object_database g"; cases "pg_object_name g")
    (auto simp: grantMatchesObject_def isRevocableRow_def Let_def split: if_splits)

text \<open>Both identity parsers on a quoted identity.\<close>

definition quoted_identity :: "string \<Rightarrow> string \<Rightarrow> string" where
  "quoted_identity u h = quote # u @ quote # CHR ''@'' # quote # h @ [quote]"

lemma BARE_USER_quoted:
  assumes "u \<noteq> []" and "quote \<notin> set u"
  shows "\<exists>m b. re_search BARE_USER_RE (quoted_identity u h) = Some ([], m, b, [(1, u)])"
proof -
  have "\<forall>c \<in> set u. c \<noteq> quote" using assms(2) by auto
  with assms(1) have "re_match BARE_USER_RE (0, quoted_identity u h) [] (\<lambda>st cs. Some (st, cs))
      = Some ((length u + 3, quote # h @ [quote]), [(1, u)])"
    by (simp add: BARE_USER_RE_def quoted_identity_def lit_def re_match_plus_step)
  then show ?thesis
    by (simp add: re_search_def re_at_def quoted_identity_def)
qed

lemma bareUser_quoted:
  assumes "u \<noteq> []" and "quote \<notin> set u"
  shows "bareUser (quoted_identity u h) = trim u"
  using BARE_USER_quoted [OF assms, of h] by (auto simp: bareUser_def capture_def)

lemma bareUser_plain:
  assumes "quote \<notin> set name"
  shows "bareUser name = trim (takeWhile (\<lambda>c. c \<noteq> CHR ''@'') name)"
proof -
  have "needs quote BARE_USER_RE" by (simp add: BARE_USER_RE_def lit_def plus_def)
  then have "re_search BARE_USER_RE name = None"
    using assms by (simp add: re_search_def needs_no_search)
  then show ?thesis by (simp add: bareUser_def hd_split_on)
qed

lemma GRANTEE_RE_quoted:
  assumes "u \<noteq> []" and "quote \<notin> set u" and "CHR ''@'' \<notin> set u" and "quote \<notin> set h"
  shows "\<exists>m b. re_search GRANTEE_RE (quoted_identity u h) = Some ([], m, b, [(2, h), (1, u)])"
proof -
  have u: "\<forall>c \<in> set u. c \<noteq> quote \<and> c \<noteq> CHR ''@''" and h: "\<forall>c \<in> set h. c \<noteq> quote"
    using assms by auto
  have q: "quote \<noteq> CHR ''@''" by (simp add: quote_def)
  have "re_match GRANTEE_RE (0, quoted_identity u h) [] (\<lambda>st cs. Some (st, cs))
      = Some ((length u + length h + 5, []), [(2, h), (1, u)])"
    using assms(1) u h q
    by (simp add: GRANTEE_RE_def quoted_identity_def lit_def re_match_plus_step re_match_star_step)
  then show ?thesis
    by (simp add: re_search_def re_at_def quoted_identity_def)
qed

lemma GRANTEE_RE_plain:
  assumes "u \<noteq> []" and "quote \<notin> set u" and "CHR ''@'' \<notin> set u" and "quote \<notin> set h"
  shows "\<exists>m b. re_search GRANTEE_RE (u @ CHR ''@'' # h) = Some ([], m, b, [(2, h), (1, u)])"
proof -
  have u: "\<forall>c \<in> set u. c \<noteq> quote \<and> c \<noteq> CHR ''@''" and h: "\<forall>c \<in> set h. c \<noteq> quote"
    using assms by auto
  have q: "quote \<noteq> CHR ''@''" by (simp add: quote_def)
  obtain c t where ct: "u = c # t" using assms(1) by (cases u) auto
  with u have c: "c \<noteq> quote" by simp
  have hq: "re_match (Cls (\<lambda>d. d = quote)) (i, h) cs k = None" for i cs k
    using h by (cases h) auto
  have oq: "re_match (Cls (\<lambda>d. d = quote)) (i, u @ r) cs k = None" for i r cs k
    using ct c by simp
  have "re_match GRANTEE_RE (0, u @ CHR ''@'' # h) [] (\<lambda>st cs. Some (st, cs))
      = Some ((length u + length h + 1, []), [(2, h), (1, u)])"
    using assms(1) u h q
    by (simp add: GRANTEE_RE_def lit_def re_match_plus_step re_match_star_end oq hq)
  then show ?thesis
    using ct by (simp add: re_search_def re_at_def)
qed

text \<open>
  The three shapes of a grantee: quoted and bare identities give the user and the host, a name with
  no at-sign (a role) is returned as it is.
\<close>

lemma parseGrantee_quoted:
  assumes "u \<noteq> []" and "quote \<notin> set u" and "CHR ''@'' \<notin> set u" and "quote \<notin> set h"
  shows "parseGrantee (quoted_identity u h)
    = \<lparr>pa_uname = u, pa_host = Some h, pa_hostLabel = Some (host_label h)\<rparr>"
  using GRANTEE_RE_quoted [OF assms] by (auto simp: parseGrantee_def capture_def)

lemma parseGrantee_plain:
  assumes "u \<noteq> []" and "quote \<notin> set u" and "CHR ''@'' \<notin> set u" and "quote \<notin> set h"
  shows "parseGrantee (u @ CHR ''@'' # h)
    = \<lparr>pa_uname = u, pa_host = Some h, pa_hostLabel = Some (host_label h)\<rparr>"
  using GRANTEE_RE_plain [OF assms] by (auto simp: parseGrantee_def capture_def)

lemma parseGrantee_role:
  assumes "CHR ''@'' \<notin> set name"
  shows "parseGrantee name = \<lparr>pa_uname = name, pa_host = None, pa_hostLabel = None\<rparr>"
proof -
  have "needs (CHR ''@'') GRANTEE_RE" by (simp add: GRANTEE_RE_def lit_def plus_def)
  then have "re_search GRANTEE_RE name = None"
    using assms by (simp add: re_search_def needs_no_search)
  then show ?thesis by (simp add: parseGrantee_def)
qed

lemma host_label_not_Nil: "host_label h \<noteq> []"
  by (auto simp: host_label_def ALL_HOSTS_LABEL_def)

text \<open>The label is never null or empty on a match: it tells whether the name was parsed.\<close>

lemma hostLabel_discriminates:
  "pa_hostLabel (parseGrantee name) = None \<longleftrightarrow> pa_host (parseGrantee name) = None"
  "pa_hostLabel (parseGrantee name) \<noteq> Some []"
  by (auto simp: parseGrantee_def host_label_not_Nil split: option.splits)

section \<open>Properties\<close>

text \<open>
  C28. Grantee identities: a user and a host written as \<open>'user'@'host'\<close> or as \<open>user@host\<close>
  give back that user, that host and its label, and the self-revoke check reads the same user from
  the quoted form.
\<close>

theorem grantee_roundtrip:
  assumes "u \<noteq> []" and "quote \<notin> set u" and "CHR ''@'' \<notin> set u" and "quote \<notin> set h"
  shows "parseGrantee (quoted_identity u h)
      = \<lparr>pa_uname = u, pa_host = Some h, pa_hostLabel = Some (host_label h)\<rparr>
    \<and> parseGrantee (u @ CHR ''@'' # h)
      = \<lparr>pa_uname = u, pa_host = Some h, pa_hostLabel = Some (host_label h)\<rparr>
    \<and> bareUser (quoted_identity u h) = trim u"
  by (simp add: parseGrantee_quoted parseGrantee_plain bareUser_quoted assms)

lemma grantee_roundtrip_witness:
  "parseGrantee (quoted_identity ''alice'' ''10.0.0.1'')
     = \<lparr>pa_uname = ''alice'', pa_host = Some ''10.0.0.1'', pa_hostLabel = Some ''10.0.0.1/32''\<rparr>"
proof -
  have "host_label ''10.0.0.1'' = ''10.0.0.1/32''" by code_simp
  then show ?thesis
    using grantee_roundtrip [of "''alice''" "''10.0.0.1''"] by (simp add: quote_def)
qed

text \<open>
  A grant row that matches a fully specified object of one of the wizard's types can be revoked:
  the object's path is on the row, and a wildcard row (no catalog, database or name) never matches.
\<close>

theorem match_is_revocable:
  assumes "grantMatchesObject g ot cat db nm" and "ot \<in> set OBJECT_TYPE_ORDER" and "cat \<noteq> []"
    and "ot \<noteq> ''CATALOG'' \<Longrightarrow> db \<noteq> []"
    and "ot \<noteq> ''CATALOG'' \<Longrightarrow> ot \<noteq> ''DATABASE'' \<Longrightarrow> nm \<noteq> []"
  shows "isRevocableRow g \<and> pg_object_catalog g = Some cat
    \<and> (ot = ''CATALOG'' \<or> pg_object_database g = Some db)
    \<and> (ot = ''CATALOG'' \<or> ot = ''DATABASE'' \<or> pg_object_name g = Some nm)"
proof -
  have "isRevocableRow g" using assms by (intro match_revocable) auto
  moreover have "pg_object_catalog g = Some cat"
    "ot \<noteq> ''CATALOG'' \<Longrightarrow> pg_object_database g = Some db"
    "ot \<noteq> ''CATALOG'' \<Longrightarrow> ot \<noteq> ''DATABASE'' \<Longrightarrow> pg_object_name g = Some nm"
    using assms by (auto simp: grantMatchesObject_def Let_def nullish_def split: if_splits option.splits)
  ultimately show ?thesis by blast
qed

definition table_grant :: privilege_grant where
  "table_grant = \<lparr>pg_grantee = ''analyst'', pg_grantee_type = ''ROLE'', pg_object_catalog = Some ''hive'',
     pg_object_database = Some ''db1'', pg_object_name = Some ''t1'', pg_object_type = ''TABLE'',
     pg_privilege_type = ''SELECT'', pg_is_grantable = False, pg_source = ''direct''\<rparr>"

lemma match_is_revocable_witness: "isRevocableRow table_grant"
proof -
  have "grantMatchesObject table_grant ''TABLE'' ''hive'' ''db1'' ''t1''" by code_simp
  then show ?thesis
    using match_is_revocable [of table_grant "''TABLE''" "''hive''" "''db1''" "''t1''"]
    by (simp add: OBJECT_TYPE_ORDER_def)
qed

end
