(* ===== verification/Grant_Display.thy ===== *)
theory Grant_Display
  imports Grant_Helpers
begin

text \<open>
  \<open>utils/grantDisplay.ts\<close>: grants grouped by scope for \<open>GrantTreeView\<close>. The groups object is an
  association list from scopes to items; an item found by its display name is updated in place.
\<close>

section \<open>Definitions\<close>

record display_item =
  di_displayName :: string
  di_context :: string
  di_privs :: "string list"

record display_group =
  dg_scope :: string
  dg_icon :: string
  dg_items :: "display_item list"

type_synonym display_groups = "display_item list jsobj"

definition CHILD_TYPES :: "string list" where
  "CHILD_TYPES = [''TABLE'', ''VIEW'', ''MATERIALIZED VIEW'', ''FUNCTION'']"

definition buildDisplayName :: "privilege_grant \<Rightarrow> string \<Rightarrow> string \<times> string" where
  "buildDisplayName g scope =
     (if truthy (pg_object_name g) then
        (the (pg_object_name g),
         if truthy (pg_object_database g)
         then or_else (pg_object_catalog g) [] @ ''.'' @ the (pg_object_database g)
         else or_else (pg_object_catalog g) [])
      else if truthy (pg_object_database g) then
        (''ALL '' @ scope @ ''S IN '' @ the (pg_object_database g), or_else (pg_object_catalog g) [])
      else if scope = ''DATABASE'' then (''ALL DATABASES'', [])
      else if scope = ''CATALOG'' then (''ALL CATALOGS'', [])
      else if truthy (pg_object_catalog g) then
        (''ALL '' @ scope @ ''S IN '' @ the (pg_object_catalog g), [])
      else if scope \<noteq> ''SYSTEM'' then (''ALL '' @ scope @ ''S'', [])
      else (''SYSTEM'', []))"

text \<open>\<open>privs.push\<close> on the first item with the name, or a new item at the end.\<close>

fun merge_item :: "string \<Rightarrow> string \<Rightarrow> string \<Rightarrow> display_item list \<Rightarrow> display_item list" where
  "merge_item name ctxt priv [] = [\<lparr>di_displayName = name, di_context = ctxt, di_privs = [priv]\<rparr>]"
| "merge_item name ctxt priv (x # xs) =
     (if di_displayName x = name
      then (if priv \<in> set (di_privs x) then x else x\<lparr>di_privs := di_privs x @ [priv]\<rparr>) # xs
      else x # merge_item name ctxt priv xs)"

definition items_of :: "display_groups \<Rightarrow> string \<Rightarrow> display_item list" where
  "items_of groups scope = obj_bucket groups scope"

definition merge_into :: "string \<Rightarrow> string \<Rightarrow> string \<Rightarrow> string \<Rightarrow> display_groups \<Rightarrow> display_groups" where
  "merge_into scope name ctxt priv groups =
     obj_set scope (merge_item name ctxt priv (items_of groups scope)) groups"

definition grant_scope :: "privilege_grant \<Rightarrow> string" where
  "grant_scope g = or_else (Some (to_upper (pg_object_type g))) ''SYSTEM''"

definition searchable :: "privilege_grant \<Rightarrow> string" where
  "searchable g = (let scope = grant_scope g; (name, ctxt) = buildDisplayName g scope in
     to_lower (name @ '' '' @ ctxt @ '' '' @ pg_privilege_type g @ '' '' @ scope))"

definition passes_filter :: "string \<Rightarrow> privilege_grant \<Rightarrow> bool" where
  "passes_filter filterLower g \<longleftrightarrow> filterLower = [] \<or> str_includes filterLower (searchable g)"

definition group_grant :: "string \<Rightarrow> display_groups \<Rightarrow> privilege_grant \<Rightarrow> display_groups" where
  "group_grant filterLower groups g =
     (if passes_filter filterLower g
      then let scope = grant_scope g; (name, ctxt) = buildDisplayName g scope
           in merge_into scope name ctxt (pg_privilege_type g) groups
      else groups)"

subsection \<open>Implicit usage\<close>

definition implicit_step ::
  "string list \<times> string list \<Rightarrow> privilege_grant \<Rightarrow> string list \<times> string list" where
  "implicit_step acc g =
     (let (dbs, cats) = acc; scope = to_upper (pg_object_type g);
          (dbs', cats') =
            (if scope \<in> set CHILD_TYPES \<and> truthy (pg_object_database g)
             then (set_add (the (pg_object_database g)) dbs,
                   if truthy (pg_object_catalog g) then set_add (the (pg_object_catalog g)) cats else cats)
             else (dbs, cats))
      in (dbs', if scope = ''DATABASE'' \<and> truthy (pg_object_catalog g)
                then set_add (the (pg_object_catalog g)) cats' else cats'))"

definition hasExplicit :: "display_groups \<Rightarrow> string \<Rightarrow> string \<Rightarrow> bool" where
  "hasExplicit groups scope name \<longleftrightarrow>
     (\<exists>x \<in> set (items_of groups scope). ''USAGE'' \<in> set (di_privs x) \<and> str_includes name (di_displayName x))"

definition add_implicit :: "string \<Rightarrow> display_groups \<Rightarrow> string \<Rightarrow> display_groups" where
  "add_implicit scope groups name =
     (if hasExplicit groups scope name then groups
      else obj_push scope \<lparr>di_displayName = name, di_context = ''implicit access'',
             di_privs = [''USAGE (implicit)'']\<rparr> groups)"

definition addImplicitUsage :: "privilege_grant list \<Rightarrow> display_groups \<Rightarrow> display_groups" where
  "addImplicitUsage grants groups =
     (let (dbs, cats) = foldl implicit_step ([], []) grants
      in foldl (add_implicit ''CATALOG'') (foldl (add_implicit ''DATABASE'') groups dbs) cats)"

subsection \<open>Mirrored CREATE privileges\<close>

definition CREATE_SCOPE_MAP :: "string jsobj" where
  "CREATE_SCOPE_MAP = [(''CREATE TABLE'', ''TABLE''), (''CREATE VIEW'', ''VIEW''),
     (''CREATE MATERIALIZED VIEW'', ''MATERIALIZED VIEW''), (''CREATE FUNCTION'', ''FUNCTION''),
     (''CREATE PIPE'', ''PIPE'')]"

definition SYSTEM_CREATE_MAP :: "string jsobj" where
  "SYSTEM_CREATE_MAP = [(''CREATE RESOURCE GROUP'', ''RESOURCE GROUP''),
     (''CREATE RESOURCE'', ''RESOURCE''), (''CREATE EXTERNAL CATALOG'', ''CATALOG''),
     (''CREATE STORAGE VOLUME'', ''STORAGE VOLUME''), (''CREATE WAREHOUSE'', ''WAREHOUSE''),
     (''CREATE GLOBAL FUNCTION'', ''GLOBAL FUNCTION'')]"

definition mirror_create :: "display_groups \<Rightarrow> privilege_grant \<Rightarrow> display_groups" where
  "mirror_create groups g =
     (let priv = to_upper (pg_privilege_type g); scope = to_upper (pg_object_type g) in
      case obj_get CREATE_SCOPE_MAP priv of
        Some dbTarget \<Rightarrow>
          (let name = ''CREATE in '' @ or_else (pg_object_database g) ''ALL DATABASES'' in
           if \<exists>x \<in> set (items_of groups dbTarget). di_displayName x = name then groups
           else obj_push dbTarget \<lparr>di_displayName = name, di_context = or_else (pg_object_catalog g) [],
                  di_privs = [priv]\<rparr> groups)
      | None \<Rightarrow>
          (if scope = ''SYSTEM'' then
             (case obj_get SYSTEM_CREATE_MAP priv of
                Some sysTarget \<Rightarrow> merge_into sysTarget ''CREATE (system)'' [] priv groups
              | None \<Rightarrow> groups)
           else groups))"

subsection \<open>The whole function\<close>

definition sorted_scopes :: "display_groups \<Rightarrow> string list" where
  "sorted_scopes groups =
     (let sorted = filter (\<lambda>s. items_of groups s \<noteq> []) SCOPE_ORDER
      in sorted @ filter (\<lambda>s. s \<notin> set sorted) (obj_keys groups))"

definition display_groups_of :: "privilege_grant list \<Rightarrow> bool \<Rightarrow> string \<Rightarrow> display_groups" where
  "display_groups_of grants addImplicit filterLower =
     (let groups = foldl (group_grant filterLower) [] grants;
          groups' = (if addImplicit then addImplicitUsage grants groups else groups)
      in foldl mirror_create groups' grants)"

definition buildGrantDisplay :: "privilege_grant list \<Rightarrow> bool \<Rightarrow> string \<Rightarrow> display_group list" where
  "buildGrantDisplay grants addImplicit flt =
     (let groups = display_groups_of grants addImplicit (to_lower flt)
      in map (\<lambda>scope. \<lparr>dg_scope = scope, dg_icon = or_else (obj_get SCOPE_ICONS scope) ''system'',
                dg_items = items_of groups scope\<rparr>) (sorted_scopes groups))"

definition extractSourceRoles :: "privilege_grant list \<Rightarrow> string list" where
  "extractSourceRoles grants =
     dedup (map pg_source (filter (\<lambda>g. pg_source g \<noteq> ''direct'') grants))"

section \<open>Lemmas\<close>

subsection \<open>Merging items\<close>

lemma items_of_merge_into [simp]:
  "items_of (merge_into s n c p groups) t
     = (if t = s then merge_item n c p (items_of groups s) else items_of groups t)"
  by (simp add: items_of_def merge_into_def obj_bucket_def)

lemma items_of_push [simp]:
  "items_of (obj_push s x groups) t = (if t = s then items_of groups s @ [x] else items_of groups t)"
  by (simp add: items_of_def js_groups.bucket_push)

lemma items_of_Nil [simp]: "items_of [] s = []"
  by (simp add: items_of_def)

lemma merge_item_not_Nil [simp]: "merge_item n c p xs \<noteq> []"
  by (cases xs) auto

lemma names_merge_item:
  "map di_displayName (merge_item n c p xs)
     = (if n \<in> di_displayName ` set xs then map di_displayName xs else map di_displayName xs @ [n])"
  by (induction xs) auto

lemma merge_item_has: "\<exists>x \<in> set (merge_item n c p xs). di_displayName x = n \<and> p \<in> set (di_privs x)"
  by (induction xs) auto

lemma merge_item_keeps:
  "x \<in> set xs \<Longrightarrow> \<exists>y \<in> set (merge_item n c p xs). di_displayName y = di_displayName x
     \<and> set (di_privs x) \<subseteq> set (di_privs y)"
  by (induction xs) auto

lemma merge_item_sound:
  "y \<in> set (merge_item n c p xs) \<Longrightarrow> q \<in> set (di_privs y) \<Longrightarrow>
   (di_displayName y = n \<and> q = p) \<or> (\<exists>x \<in> set xs. di_displayName x = di_displayName y \<and> q \<in> set (di_privs x))"
  by (induction xs) (auto split: if_splits)

subsection \<open>Well-formed groups\<close>

definition item_ok :: "display_item \<Rightarrow> bool" where
  "item_ok x \<longleftrightarrow> di_privs x \<noteq> [] \<and> distinct (di_privs x)"

text \<open>
  No scope occurs twice, no scope is empty, every item lists at least one privilege and none twice.
\<close>

definition groups_ok :: "display_groups \<Rightarrow> bool" where
  "groups_ok groups \<longleftrightarrow> distinct (map fst groups)
     \<and> (\<forall>s \<in> fst ` set groups. items_of groups s \<noteq> [])
     \<and> (\<forall>s. \<forall>x \<in> set (items_of groups s). item_ok x)"

definition names_distinct :: "display_groups \<Rightarrow> bool" where
  "names_distinct groups \<longleftrightarrow> (\<forall>s. distinct (map di_displayName (items_of groups s)))"

lemma item_ok_add: "item_ok x \<Longrightarrow> p \<notin> set (di_privs x) \<Longrightarrow> item_ok (x\<lparr>di_privs := di_privs x @ [p]\<rparr>)"
  by (simp add: item_ok_def)

lemma merge_item_ok: "\<forall>x \<in> set xs. item_ok x \<Longrightarrow> \<forall>x \<in> set (merge_item n c p xs). item_ok x"
  by (induction xs) (simp_all add: item_ok_add, simp add: item_ok_def)

lemma dom_merge_into [simp]: "fst ` set (merge_into s n c p groups) = insert s (fst ` set groups)"
  by (simp add: merge_into_def)

lemma groups_ok_Nil: "groups_ok []"
  by (simp add: groups_ok_def)

lemma groups_ok_merge: "groups_ok groups \<Longrightarrow> groups_ok (merge_into s n c p groups)"
  using merge_item_ok [of "items_of groups s" n c p]
  by (auto simp: groups_ok_def) (simp add: merge_into_def)

lemma groups_ok_push: "groups_ok groups \<Longrightarrow> item_ok x \<Longrightarrow> groups_ok (obj_push s x groups)"
  by (auto simp: groups_ok_def split: if_splits)

lemma groups_ok_group_grant: "groups_ok groups \<Longrightarrow> groups_ok (group_grant f groups g)"
  by (simp add: group_grant_def groups_ok_merge Let_def split: prod.split)

lemma groups_ok_add_implicit: "groups_ok groups \<Longrightarrow> groups_ok (add_implicit s groups n)"
  by (simp add: add_implicit_def groups_ok_push item_ok_def)

lemma groups_ok_mirror: "groups_ok groups \<Longrightarrow> groups_ok (mirror_create groups g)"
  by (simp add: mirror_create_def Let_def groups_ok_push groups_ok_merge item_ok_def split: option.split)

lemma groups_ok_foldl:
  "(\<And>groups x. groups_ok groups \<Longrightarrow> groups_ok (f groups x)) \<Longrightarrow> groups_ok groups \<Longrightarrow>
   groups_ok (foldl f groups xs)"
  by (induction xs arbitrary: groups) simp_all

lemma groups_ok_display: "groups_ok (display_groups_of grants imp f)"
  unfolding display_groups_of_def addImplicitUsage_def Let_def
  by (auto intro!: groups_ok_foldl groups_ok_mirror groups_ok_add_implicit groups_ok_group_grant
      groups_ok_Nil split: prod.split)

lemma names_distinct_merge: "names_distinct groups \<Longrightarrow> names_distinct (merge_into s n c p groups)"
  by (auto simp: names_distinct_def names_merge_item)

lemma names_distinct_group_grant: "names_distinct groups \<Longrightarrow> names_distinct (group_grant f groups g)"
  by (simp add: group_grant_def names_distinct_merge Let_def split: prod.split)

lemma names_distinct_push:
  "names_distinct groups \<Longrightarrow> \<forall>y \<in> set (items_of groups s). di_displayName y \<noteq> di_displayName x \<Longrightarrow>
   names_distinct (obj_push s x groups)"
  by (auto simp: names_distinct_def)

lemma names_distinct_mirror: "names_distinct groups \<Longrightarrow> names_distinct (mirror_create groups g)"
  by (auto simp: mirror_create_def Let_def names_distinct_merge intro!: names_distinct_push split: option.split)

lemma names_distinct_foldl:
  "(\<And>groups x. names_distinct groups \<Longrightarrow> names_distinct (f groups x)) \<Longrightarrow> names_distinct groups \<Longrightarrow>
   names_distinct (foldl f groups xs)"
  by (induction xs arbitrary: groups) simp_all

lemma names_distinct_display: "names_distinct (display_groups_of grants False f)"
  unfolding display_groups_of_def Let_def
  by (auto intro!: names_distinct_foldl names_distinct_mirror names_distinct_group_grant)
    (simp add: names_distinct_def)

subsection \<open>The order of the scopes\<close>

lemma items_of_not_Nil_dom: "items_of groups s \<noteq> [] \<Longrightarrow> s \<in> fst ` set groups"
  by (metis items_of_def nullish_simps(1) obj_bucket_def obj_get_eq_None)

lemma set_sorted_scopes: "groups_ok groups \<Longrightarrow> set (sorted_scopes groups) = fst ` set groups"
  by (auto simp: sorted_scopes_def Let_def dest: items_of_not_Nil_dom)

lemma distinct_sorted_scopes: "groups_ok groups \<Longrightarrow> distinct (sorted_scopes groups)"
  by (auto simp: sorted_scopes_def Let_def groups_ok_def)

subsection \<open>Every grant is shown\<close>

definition shown :: "display_groups \<Rightarrow> string \<Rightarrow> string \<Rightarrow> string \<Rightarrow> bool" where
  "shown groups scope name priv \<longleftrightarrow>
     (\<exists>x \<in> set (items_of groups scope). di_displayName x = name \<and> priv \<in> set (di_privs x))"

lemma shown_merge: "shown groups s n p \<Longrightarrow> shown (merge_into s' n' c' p' groups) s n p"
  by (auto simp: shown_def dest!: merge_item_keeps [of _ "items_of groups s'" n' c' p'])

lemma shown_merge_new: "shown (merge_into s n c p groups) s n p"
  by (simp add: shown_def merge_item_has)

lemma shown_push: "shown groups s n p \<Longrightarrow> shown (obj_push s' x groups) s n p"
  by (auto simp: shown_def)

lemma shown_group_grant: "shown groups s n p \<Longrightarrow> shown (group_grant f groups g) s n p"
  by (simp add: group_grant_def shown_merge Let_def split: prod.split)

lemma shown_add_implicit: "shown groups s n p \<Longrightarrow> shown (add_implicit s' groups n') s n p"
  by (simp add: add_implicit_def shown_push)

lemma shown_mirror: "shown groups s n p \<Longrightarrow> shown (mirror_create groups g) s n p"
  by (simp add: mirror_create_def Let_def shown_push shown_merge split: option.split)

lemma shown_foldl:
  "(\<And>groups x. shown groups s n p \<Longrightarrow> shown (f groups x) s n p) \<Longrightarrow> shown groups s n p \<Longrightarrow>
   shown (foldl f groups xs) s n p"
  by (induction xs arbitrary: groups) simp_all

lemma shown_group_fold:
  assumes "g \<in> set grants" and "passes_filter f g"
  shows "shown (foldl (group_grant f) groups grants) (grant_scope g)
    (fst (buildDisplayName g (grant_scope g))) (pg_privilege_type g)"
  using assms(1)
proof (induction grants arbitrary: groups)
  case Nil
  then show ?case by simp
next
  case (Cons h grants)
  show ?case
  proof (cases "g = h")
    case True
    have "shown (group_grant f groups h) (grant_scope g)
        (fst (buildDisplayName g (grant_scope g))) (pg_privilege_type g)"
      using assms(2) True by (simp add: group_grant_def Let_def shown_merge_new split: prod.split)
    then show ?thesis by (auto intro!: shown_foldl shown_group_grant)
  next
    case False
    with Cons show ?thesis by simp
  qed
qed

lemma shown_display:
  assumes "g \<in> set grants" and "passes_filter f g"
  shows "shown (display_groups_of grants imp f) (grant_scope g)
    (fst (buildDisplayName g (grant_scope g))) (pg_privilege_type g)"
proof -
  define G where "G = foldl (group_grant f) [] grants"
  obtain dbs cats where "foldl implicit_step ([], []) grants = (dbs, cats)" by fastforce
  then have "display_groups_of grants imp f = foldl mirror_create
      (if imp then foldl (add_implicit ''CATALOG'') (foldl (add_implicit ''DATABASE'') G dbs) cats else G) grants"
    by (simp add: display_groups_of_def addImplicitUsage_def Let_def G_def)
  moreover have "shown G (grant_scope g) (fst (buildDisplayName g (grant_scope g))) (pg_privilege_type g)"
    unfolding G_def by (rule shown_group_fold [OF assms])
  ultimately show ?thesis
    by (auto intro!: shown_foldl [OF shown_mirror] shown_foldl [OF shown_add_implicit])
qed

subsection \<open>Nothing is shown that was not granted\<close>

definition sound_groups :: "(string \<Rightarrow> string \<Rightarrow> string \<Rightarrow> bool) \<Rightarrow> display_groups \<Rightarrow> bool" where
  "sound_groups J groups \<longleftrightarrow>
     (\<forall>s. \<forall>x \<in> set (items_of groups s). \<forall>p \<in> set (di_privs x). J s (di_displayName x) p)"

lemma sound_Nil: "sound_groups J []"
  by (simp add: sound_groups_def)

lemma sound_merge: "sound_groups J groups \<Longrightarrow> J s n p \<Longrightarrow> sound_groups J (merge_into s n c p groups)"
  by (force simp: sound_groups_def dest: merge_item_sound)

lemma sound_push:
  "sound_groups J groups \<Longrightarrow> (\<And>p. p \<in> set (di_privs x) \<Longrightarrow> J s (di_displayName x) p) \<Longrightarrow>
   sound_groups J (obj_push s x groups)"
  by (auto simp: sound_groups_def)

lemma sound_foldl:
  "(\<And>groups x. x \<in> set xs \<Longrightarrow> sound_groups J groups \<Longrightarrow> sound_groups J (f groups x)) \<Longrightarrow>
   sound_groups J groups \<Longrightarrow> sound_groups J (foldl f groups xs)"
  by (induction xs arbitrary: groups) simp_all

text \<open>Where the databases and catalogs of the implicit rows come from.\<close>

definition implies_db :: "privilege_grant \<Rightarrow> string \<Rightarrow> bool" where
  "implies_db g d \<longleftrightarrow> to_upper (pg_object_type g) \<in> set CHILD_TYPES \<and> d \<noteq> [] \<and> pg_object_database g = Some d"

definition implies_cat :: "privilege_grant \<Rightarrow> string \<Rightarrow> bool" where
  "implies_cat g c \<longleftrightarrow> c \<noteq> [] \<and> pg_object_catalog g = Some c
     \<and> (to_upper (pg_object_type g) = ''DATABASE''
        \<or> to_upper (pg_object_type g) \<in> set CHILD_TYPES \<and> truthy (pg_object_database g))"

lemma implicit_step_sets:
  "set (fst (implicit_step acc g)) = set (fst acc) \<union> {d. implies_db g d}"
  "set (snd (implicit_step acc g)) = set (snd acc) \<union> {c. implies_cat g c}"
  by (auto simp: implicit_step_def implies_db_def implies_cat_def Let_def truthy_iff split: prod.splits)

lemma implicit_fold_sets:
  "set (fst (foldl implicit_step acc gs)) = set (fst acc) \<union> {d. \<exists>g \<in> set gs. implies_db g d}"
  "set (snd (foldl implicit_step acc gs)) = set (snd acc) \<union> {c. \<exists>g \<in> set gs. implies_cat g c}"
  by (induction gs arbitrary: acc) (auto simp: implicit_step_sets)

text \<open>The three reasons for a privilege to appear under a name in a scope.\<close>

definition granted :: "privilege_grant list \<Rightarrow> string \<Rightarrow> string \<Rightarrow> string \<Rightarrow> string \<Rightarrow> bool" where
  "granted grants f s name p \<longleftrightarrow>
     (\<exists>g \<in> set grants. passes_filter f g \<and> grant_scope g = s \<and> pg_privilege_type g = p
        \<and> fst (buildDisplayName g s) = name)"

definition implied :: "privilege_grant list \<Rightarrow> string \<Rightarrow> string \<Rightarrow> string \<Rightarrow> bool" where
  "implied grants s name p \<longleftrightarrow> p = ''USAGE (implicit)''
     \<and> (s = ''DATABASE'' \<and> (\<exists>g \<in> set grants. implies_db g name)
        \<or> s = ''CATALOG'' \<and> (\<exists>g \<in> set grants. implies_cat g name))"

definition mirrored :: "privilege_grant list \<Rightarrow> string \<Rightarrow> string \<Rightarrow> string \<Rightarrow> bool" where
  "mirrored grants s name p \<longleftrightarrow>
     (\<exists>g \<in> set grants. to_upper (pg_privilege_type g) = p
        \<and> (obj_get CREATE_SCOPE_MAP p = Some s
             \<and> name = ''CREATE in '' @ or_else (pg_object_database g) ''ALL DATABASES''
           \<or> to_upper (pg_object_type g) = ''SYSTEM'' \<and> obj_get SYSTEM_CREATE_MAP p = Some s
             \<and> name = ''CREATE (system)''))"

definition justified ::
  "privilege_grant list \<Rightarrow> bool \<Rightarrow> string \<Rightarrow> string \<Rightarrow> string \<Rightarrow> string \<Rightarrow> bool" where
  "justified grants imp f s name p \<longleftrightarrow>
     granted grants f s name p \<or> imp \<and> implied grants s name p \<or> mirrored grants s name p"

lemma sound_group_grant:
  "g \<in> set grants \<Longrightarrow> sound_groups (justified grants imp f) groups \<Longrightarrow>
   sound_groups (justified grants imp f) (group_grant f groups g)"
  by (auto simp: group_grant_def Let_def justified_def granted_def split: prod.split
      intro!: sound_merge bexI [of _ g])

lemma sound_add_implicit:
  "(\<And>p. p = ''USAGE (implicit)'' \<Longrightarrow> J s n p) \<Longrightarrow> sound_groups J groups \<Longrightarrow> sound_groups J (add_implicit s groups n)"
  by (auto simp: add_implicit_def intro!: sound_push)

lemma sound_mirror:
  "g \<in> set grants \<Longrightarrow> sound_groups (justified grants imp f) groups \<Longrightarrow>
   sound_groups (justified grants imp f) (mirror_create groups g)"
  by (auto simp: mirror_create_def Let_def justified_def mirrored_def split: option.split
      intro!: sound_merge sound_push)

lemma sound_implicit:
  "sound_groups (justified grants True f) groups \<Longrightarrow>
   sound_groups (justified grants True f) (addImplicitUsage grants groups)"
  using implicit_fold_sets [of "([], [])" grants]
  by (auto simp: addImplicitUsage_def justified_def implied_def split: prod.split
      intro!: sound_foldl sound_add_implicit)

lemma sound_display: "sound_groups (justified grants imp f) (display_groups_of grants imp f)"
  unfolding display_groups_of_def Let_def
  by (auto intro!: sound_foldl [where f = mirror_create] sound_mirror sound_implicit
      sound_foldl [where f = "group_grant f"] sound_group_grant sound_Nil)

section \<open>Properties\<close>

lemma display_members:
  "dg \<in> set (buildGrantDisplay grants imp flt) \<longleftrightarrow>
     (\<exists>s \<in> fst ` set (display_groups_of grants imp (to_lower flt)).
        dg = \<lparr>dg_scope = s, dg_icon = or_else (obj_get SCOPE_ICONS s) ''system'',
              dg_items = items_of (display_groups_of grants imp (to_lower flt)) s\<rparr>)"
  using set_sorted_scopes [OF groups_ok_display [of grants imp "to_lower flt"]]
  by (auto simp: buildGrantDisplay_def Let_def)

lemma map_scope_display:
  "map dg_scope (buildGrantDisplay grants imp flt)
     = sorted_scopes (display_groups_of grants imp (to_lower flt))"
  by (simp add: buildGrantDisplay_def Let_def comp_def)

text \<open>
  C23. Completeness of the permission tree: every grant that passes the search filter is shown, in the
  group of its scope, under the name built for it, with its privilege among the item's privileges,
  whatever implicit and mirrored rows are added after it.
\<close>

theorem display_complete:
  assumes "g \<in> set grants" and "passes_filter (to_lower flt) g"
  shows "\<exists>dg \<in> set (buildGrantDisplay grants imp flt). dg_scope dg = grant_scope g \<and>
    (\<exists>x \<in> set (dg_items dg). di_displayName x = fst (buildDisplayName g (grant_scope g))
       \<and> pg_privilege_type g \<in> set (di_privs x))"
proof -
  let ?G = "display_groups_of grants imp (to_lower flt)"
  from shown_display [OF assms, of imp] obtain x where
    x: "x \<in> set (items_of ?G (grant_scope g))" "di_displayName x = fst (buildDisplayName g (grant_scope g))"
      "pg_privilege_type g \<in> set (di_privs x)"
    by (auto simp: shown_def)
  then have "items_of ?G (grant_scope g) \<noteq> []" by auto
  then have "grant_scope g \<in> fst ` set ?G" by (rule items_of_not_Nil_dom)
  with x show ?thesis by (intro bexI [OF _ iffD2 [OF display_members]] bexI) auto
qed

definition sample_grant :: privilege_grant where
  "sample_grant = \<lparr>pg_grantee = ''alice'', pg_grantee_type = ''USER'', pg_object_catalog = Some ''hive'',
     pg_object_database = Some ''db1'', pg_object_name = Some ''t1'', pg_object_type = ''TABLE'',
     pg_privilege_type = ''SELECT'', pg_is_grantable = False, pg_source = ''direct''\<rparr>"

lemma display_complete_witness:
  "\<exists>dg \<in> set (buildGrantDisplay [sample_grant] True ''T1''). dg_scope dg = ''TABLE'' \<and>
    (\<exists>x \<in> set (dg_items dg). di_displayName x = ''t1'' \<and> ''SELECT'' \<in> set (di_privs x))"
proof -
  have "passes_filter (to_lower ''T1'') sample_grant" by code_simp
  moreover have "grant_scope sample_grant = ''TABLE''" by code_simp
  moreover have "fst (buildDisplayName sample_grant ''TABLE'') = ''t1''" by code_simp
  moreover have "pg_privilege_type sample_grant = ''SELECT''" by code_simp
  ultimately show ?thesis
    using display_complete [of sample_grant "[sample_grant]" "''T1''" True] by simp
qed

text \<open>
  C24. Soundness of the permission tree: a privilege shown under a name in a scope is there for one of
  three reasons only. A grant of that scope, privilege and name passes the filter; or it is the
  implicit USAGE row of a database or catalog that some grant on a contained object names; or it
  mirrors a CREATE privilege into the section of the type it creates.
\<close>

theorem display_sound:
  "list_all (\<lambda>dg. list_all (\<lambda>x. list_all (\<lambda>p.
       justified grants imp (to_lower flt) (dg_scope dg) (di_displayName x) p)
     (di_privs x)) (dg_items dg)) (buildGrantDisplay grants imp flt)"
  using sound_display [of grants imp "to_lower flt"]
  by (auto simp: list_all_iff display_members sound_groups_def)

text \<open>
  C25. Shape of the permission tree: no scope is listed twice, no group is empty, an item lists at least
  one privilege and none twice, and the scopes come in the canonical order followed by the others.
\<close>

theorem display_wellformed:
  "distinct (map dg_scope (buildGrantDisplay grants imp flt))
   \<and> list_all (\<lambda>dg. dg_items dg \<noteq> [] \<and> list_all item_ok (dg_items dg)) (buildGrantDisplay grants imp flt)
   \<and> (\<exists>others. map dg_scope (buildGrantDisplay grants imp flt)
        = filter (\<lambda>s. s \<in> set (map dg_scope (buildGrantDisplay grants imp flt))) SCOPE_ORDER @ others
        \<and> set others \<inter> set SCOPE_ORDER = {})"
proof (intro conjI)
  let ?G = "display_groups_of grants imp (to_lower flt)"
  note ok = groups_ok_display [of grants imp "to_lower flt"]
  show "distinct (map dg_scope (buildGrantDisplay grants imp flt))"
    by (simp add: map_scope_display distinct_sorted_scopes ok del: map_map)
  show "list_all (\<lambda>dg. dg_items dg \<noteq> [] \<and> list_all item_ok (dg_items dg)) (buildGrantDisplay grants imp flt)"
    unfolding list_all_iff
  proof
    fix dg assume "dg \<in> set (buildGrantDisplay grants imp flt)"
    then obtain s where "s \<in> fst ` set ?G" and "dg_items dg = items_of ?G s"
      unfolding display_members by fastforce
    then show "dg_items dg \<noteq> [] \<and> (\<forall>x \<in> set (dg_items dg). item_ok x)"
      using ok unfolding groups_ok_def by metis
  qed
  have "s \<in> fst ` set ?G \<longleftrightarrow> items_of ?G s \<noteq> []" for s
    using ok items_of_not_Nil_dom [of ?G s] unfolding groups_ok_def by blast
  then show "\<exists>others. map dg_scope (buildGrantDisplay grants imp flt)
      = filter (\<lambda>s. s \<in> set (map dg_scope (buildGrantDisplay grants imp flt))) SCOPE_ORDER @ others
      \<and> set others \<inter> set SCOPE_ORDER = {}"
    unfolding map_scope_display set_sorted_scopes [OF ok]
    by (intro exI [of _ "filter (\<lambda>s. s \<notin> set (filter (\<lambda>s. items_of ?G s \<noteq> []) SCOPE_ORDER)) (obj_keys ?G)"])
      (auto simp: sorted_scopes_def Let_def)
qed

subsection \<open>Two behaviours of the implicit rows\<close>

text \<open>
  The test for an explicit USAGE is a substring test on the names of the items: an explicit USAGE on
  \<open>sales_archive\<close> keeps the implicit row of \<open>sales\<close> from being added.
\<close>

definition usage_on :: "string \<Rightarrow> privilege_grant" where
  "usage_on db = sample_grant\<lparr>pg_object_database := Some db, pg_object_name := Some db,
     pg_object_type := ''DATABASE'', pg_privilege_type := ''USAGE''\<rparr>"

lemma implicit_row_suppressed:
  "map di_displayName (items_of (display_groups_of
     [usage_on ''sales_archive'', sample_grant\<lparr>pg_object_database := Some ''sales''\<rparr>] True []) ''DATABASE'')
   = [''sales_archive'']"
  by code_simp

text \<open>Implicit rows ignore the search filter: a filter that matches no grant still shows them.\<close>

lemma implicit_row_unfiltered:
  "\<not> passes_filter ''zzz'' sample_grant
   \<and> map dg_scope (buildGrantDisplay [sample_grant] True ''zzz'') = [''CATALOG'', ''DATABASE'']"
  by code_simp

end
