(* ===== verification/Query_Utils.thy ===== *)
theory Query_Utils
  imports Types
begin

text \<open>
  The pure helpers of the query panels: \<open>utils/querySort.ts\<close>, \<open>utils/queryCpu.ts\<close>,
  \<open>utils/queryFormat.ts\<close> and \<open>formatBytes\<close> of \<open>utils/inventory-helpers.ts\<close>.
\<close>

section \<open>Sorting (querySort.ts)\<close>

datatype sort_dir = Asc | Desc

datatype query_sort_key =
    ExecTimeMs | CpuTimeMs | CpuAvgCores | MemoryBytes | ScanRows | ScanBytes | SpillBytes

datatype history_sort_key = Timestamp | QueryTimeMs | HScanRows | HScanBytes | MemCostBytes

fun run_field :: "query_sort_key \<Rightarrow> running_query \<Rightarrow> rat option" where
  "run_field ExecTimeMs q = rq_exec_time_ms q"
| "run_field CpuTimeMs q = rq_cpu_time_ms q"
| "run_field CpuAvgCores q = rq_cpu_avg_cores q"
| "run_field MemoryBytes q = rq_memory_bytes q"
| "run_field ScanRows q = rq_scan_rows q"
| "run_field ScanBytes q = rq_scan_bytes q"
| "run_field SpillBytes q = rq_spill_bytes q"

fun hist_field :: "history_sort_key \<Rightarrow> history_query \<Rightarrow> rat option" where
  "hist_field Timestamp q = None"
| "hist_field QueryTimeMs q = hq_query_time_ms q"
| "hist_field HScanRows q = hq_scan_rows q"
| "hist_field HScanBytes q = hq_scan_bytes q"
| "hist_field MemCostBytes q = hq_mem_cost_bytes q"

definition dir_sign :: "sort_dir \<Rightarrow> rat" where
  "dir_sign dir = (if dir = Asc then 1 else -1)"

definition num_cmp :: "('a \<Rightarrow> rat option) \<Rightarrow> sort_dir \<Rightarrow> 'a \<Rightarrow> 'a \<Rightarrow> rat" where
  "num_cmp get dir a b =
     (case (get a, get b) of
        (None, None) \<Rightarrow> 0
      | (None, Some _) \<Rightarrow> 1
      | (Some _, None) \<Rightarrow> -1
      | (Some av, Some bv) \<Rightarrow> (av - bv) * dir_sign dir)"

definition byNumeric :: "'a list \<Rightarrow> ('a \<Rightarrow> rat option) \<Rightarrow> sort_dir \<Rightarrow> 'a list" where
  "byNumeric items get dir = js_sort (num_cmp get dir) items"

definition sortQueries :: "running_query list \<Rightarrow> query_sort_key \<Rightarrow> sort_dir \<Rightarrow> running_query list" where
  "sortQueries queries key dir = byNumeric queries (run_field key) dir"

definition time_cmp :: "sort_dir \<Rightarrow> history_query \<Rightarrow> history_query \<Rightarrow> rat" where
  "time_cmp dir a b =
     (let t\<^sub>a = nullish (hq_timestamp a) []; t\<^sub>b = nullish (hq_timestamp b) [] in
      if t\<^sub>a < t\<^sub>b then - dir_sign dir else if t\<^sub>b < t\<^sub>a then dir_sign dir else 0)"

definition sortHistory :: "history_query list \<Rightarrow> history_sort_key \<Rightarrow> sort_dir \<Rightarrow> history_query list" where
  "sortHistory queries key dir =
     (if key = Timestamp then js_sort (time_cmp dir) queries
      else byNumeric queries (hist_field key) dir)"

text \<open>The keys that the comparators order by.\<close>

definition dir_key :: "sort_dir \<Rightarrow> 'k \<Rightarrow> 'k dirkey" where
  "dir_key dir x = (if dir = Asc then Up x else Down x)"

definition num_key :: "('a \<Rightarrow> rat option) \<Rightarrow> sort_dir \<Rightarrow> 'a \<Rightarrow> rat dirkey" where
  "num_key get dir a = (case get a of None \<Rightarrow> Bottom | Some x \<Rightarrow> dir_key dir x)"

definition time_key :: "sort_dir \<Rightarrow> history_query \<Rightarrow> string dirkey" where
  "time_key dir q = dir_key dir (nullish (hq_timestamp q) [])"

lemma dir_key_le [simp]: "dir_key dir x \<le> dir_key dir y \<longleftrightarrow> (if dir = Asc then x \<le> y else y \<le> x)"
  by (simp add: dir_key_def)

interpretation num_sort: keyed_comparator "num_cmp get dir" "num_key get dir" for get dir
proof
  fix x y
  show "num_cmp get dir x y \<le> 0 \<longleftrightarrow> num_key get dir x \<le> num_key get dir y"
    by (cases "get x"; cases "get y"; cases dir)
      (auto simp: num_cmp_def num_key_def dir_key_def dir_sign_def)
qed

interpretation time_sort: keyed_comparator "time_cmp dir" "time_key dir" for dir
proof
  fix x y
  show "time_cmp dir x y \<le> 0 \<longleftrightarrow> time_key dir x \<le> time_key dir y"
    by (cases dir) (auto simp: time_cmp_def time_key_def dir_key_def dir_sign_def Let_def)
qed

lemma byNumeric_eq: "byNumeric items get dir = sort_key (num_key get dir) items"
  by (simp add: byNumeric_def num_sort.js_sort_eq)

lemma mset_byNumeric [simp]: "mset (byNumeric items get dir) = mset items"
  by (simp add: byNumeric_def)

text \<open>What the column looks like after the sort: values in the direction asked for, then the nulls.\<close>

definition column_ordered :: "sort_dir \<Rightarrow> rat option \<Rightarrow> rat option \<Rightarrow> bool" where
  "column_ordered dir a b =
     (case b of None \<Rightarrow> True
      | Some y \<Rightarrow> (case a of None \<Rightarrow> False | Some x \<Rightarrow> if dir = Asc then x \<le> y else y \<le> x))"

lemma num_key_ordered: "num_key get dir a \<le> num_key get dir b \<longleftrightarrow> column_ordered dir (get a) (get b)"
  by (auto simp: num_key_def column_ordered_def dir_key_def split: option.splits)

text \<open>The key of a value of the column: equal keys are equal values.\<close>

definition num_key_of :: "sort_dir \<Rightarrow> rat option \<Rightarrow> rat dirkey" where
  "num_key_of dir v = (case v of None \<Rightarrow> Bottom | Some x \<Rightarrow> dir_key dir x)"

lemma dir_key_inj [simp]: "dir_key dir x = dir_key dir y \<longleftrightarrow> x = y"
  by (simp add: dir_key_def)

lemma dir_key_not_Bottom [simp]: "dir_key dir x \<noteq> Bottom" "Bottom \<noteq> dir_key dir x"
  by (simp_all add: dir_key_def)

lemma num_key_eq_iff: "num_key get dir a = num_key_of dir v \<longleftrightarrow> get a = v"
  by (auto simp: num_key_def num_key_of_def split: option.splits)

lemma sorted_byNumeric: "sorted_wrt (column_ordered dir) (map get (byNumeric items get dir))"
  using num_sort.sorted_js_sort [of get dir items]
  by (simp add: byNumeric_def sorted_map sorted_wrt_map num_key_ordered)

section \<open>Instantaneous CPU (queryCpu.ts)\<close>

record cpu_sample =
  sa_cpuMs :: rat
  sa_atMs :: int

type_synonym sample_map = "(string \<times> cpu_sample) list"

definition cpu_step ::
  "sample_map \<Rightarrow> int \<Rightarrow> sample_map \<times> (string \<times> rat) list \<Rightarrow> running_query
    \<Rightarrow> sample_map \<times> (string \<times> rat) list" where
  "cpu_step prevSample nowMs acc q =
     (case rq_cpu_time_ms q of
        None \<Rightarrow> acc
      | Some cpu \<Rightarrow>
          (let (nextSamples, instCores) = acc;
               nextSamples' = obj_set (rq_query_id q) \<lparr>sa_cpuMs = cpu, sa_atMs = nowMs\<rparr> nextSamples
           in (nextSamples',
               case obj_get prevSample (rq_query_id q) of
                 None \<Rightarrow> instCores
               | Some prev \<Rightarrow>
                   (if nowMs > sa_atMs prev
                    then let cores = (cpu - sa_cpuMs prev) / of_int (nowMs - sa_atMs prev)
                         in (if cores \<ge> 0 then obj_set (rq_query_id q) cores instCores else instCores)
                    else instCores))))"

definition deriveInstCores ::
  "sample_map \<Rightarrow> queries_response \<Rightarrow> int \<Rightarrow> sample_map \<times> (string \<times> rat) list" where
  "deriveInstCores prevSample res nowMs = foldl (cpu_step prevSample nowMs) ([], []) (qr_queries res)"

text \<open>The figure for one query, as the header of the file defines it.\<close>

definition inst_spec :: "sample_map \<Rightarrow> int \<Rightarrow> running_query \<Rightarrow> rat option" where
  "inst_spec prevSample nowMs q =
     (case (rq_cpu_time_ms q, obj_get prevSample (rq_query_id q)) of
        (Some cpu, Some prev) \<Rightarrow>
          (if nowMs > sa_atMs prev \<and> cpu \<ge> sa_cpuMs prev
           then Some ((cpu - sa_cpuMs prev) / of_int (nowMs - sa_atMs prev)) else None)
      | _ \<Rightarrow> None)"

lemma cores_nonneg_iff:
  "t < now \<Longrightarrow> 0 \<le> (c - p) / (of_int now - of_int t) \<longleftrightarrow> (p :: rat) \<le> c"
  by (simp add: zero_le_divide_iff)

lemma cpu_step_samples:
  "obj_get (fst (cpu_step prev now acc q)) j =
     (if j = rq_query_id q \<and> rq_cpu_time_ms q \<noteq> None
      then Some \<lparr>sa_cpuMs = the (rq_cpu_time_ms q), sa_atMs = now\<rparr> else obj_get (fst acc) j)"
  by (auto simp: cpu_step_def Let_def split: option.split prod.split)

lemma cpu_step_cores:
  "obj_get (snd (cpu_step prev now acc q)) j =
     (if j = rq_query_id q \<and> inst_spec prev now q \<noteq> None then inst_spec prev now q
      else obj_get (snd acc) j)"
  by (auto simp: cpu_step_def inst_spec_def Let_def cores_nonneg_iff split: option.split prod.split)

lemma cpu_fold_other:
  assumes "j \<notin> rq_query_id ` set qs"
  shows "obj_get (fst (foldl (cpu_step prev now) acc qs)) j = obj_get (fst acc) j"
    and "obj_get (snd (foldl (cpu_step prev now) acc qs)) j = obj_get (snd acc) j"
  using assms by (induction qs arbitrary: acc) (auto simp: cpu_step_samples cpu_step_cores)

lemma cpu_step_all_nonneg:
  assumes "list_all (\<lambda>(k, c). 0 \<le> c) (snd acc)"
  shows "list_all (\<lambda>(k, c). 0 \<le> c) (snd (cpu_step prev now acc q))"
proof -
  have upd: "list_all (\<lambda>(k, c). 0 \<le> c) m \<Longrightarrow> 0 \<le> x \<Longrightarrow> list_all (\<lambda>(k, c). 0 \<le> (c::rat)) (obj_set i x m)"
    for i :: string and x m
    by (induction m) (auto simp: obj_set_def)
  show ?thesis
    using assms by (auto simp: cpu_step_def Let_def upd split: option.split prod.split)
qed

lemma cpu_fold_all_nonneg:
  "list_all (\<lambda>(k, c). 0 \<le> c) (snd acc) \<Longrightarrow>
   list_all (\<lambda>(k, c). 0 \<le> c) (snd (foldl (cpu_step prev now) acc qs))"
  by (induction qs arbitrary: acc) (simp_all add: cpu_step_all_nonneg)

lemma cpu_fold_samples_dom:
  "obj_get (fst (foldl (cpu_step prev now) acc qs)) j \<noteq> None \<longleftrightarrow>
     obj_get (fst acc) j \<noteq> None \<or> (\<exists>q \<in> set qs. rq_query_id q = j \<and> rq_cpu_time_ms q \<noteq> None)"
  by (induction qs arbitrary: acc) (auto simp: cpu_step_samples split: if_splits)

lemma cpu_fold_value:
  assumes "distinct (map rq_query_id qs)" and "q \<in> set qs"
    and "obj_get (snd acc) (rq_query_id q) = None"
  shows "obj_get (snd (foldl (cpu_step prev now) acc qs)) (rq_query_id q) = inst_spec prev now q"
  using assms
proof (induction qs arbitrary: acc)
  case Nil
  then show ?case by simp
next
  case (Cons p qs)
  show ?case
  proof (cases "q = p")
    case True
    with Cons.prems have "rq_query_id q \<notin> rq_query_id ` set qs" by simp
    with True Cons.prems show ?thesis by (simp add: cpu_fold_other(2) cpu_step_cores)
  next
    case False
    with Cons.prems(2) have q: "q \<in> set qs" by simp
    then have "rq_query_id q \<in> rq_query_id ` set qs" by blast
    with Cons.prems(1) have "rq_query_id q \<noteq> rq_query_id p" by auto
    moreover have "obj_get (snd (cpu_step prev now acc p)) (rq_query_id q) = None"
      using Cons.prems(3) calculation by (simp add: cpu_step_cores)
    ultimately show ?thesis using Cons.IH Cons.prems(1) q by simp
  qed
qed

section \<open>Formatting (queryFormat.ts)\<close>

definition fmtRows :: "rat option \<Rightarrow> string" where
  "fmtRows n = (case n of
      None \<Rightarrow> em_dash
    | Some n \<Rightarrow>
        (if n \<ge> 10 ^ 9 then to_fixed 2 (n / 10 ^ 9) @ ''B''
         else if n \<ge> 10 ^ 6 then to_fixed 2 (n / 10 ^ 6) @ ''M''
         else if n \<ge> 10 ^ 3 then to_fixed 1 (n / 10 ^ 3) @ ''K''
         else num_str n))"

definition BYTE_UNITS :: "string list" where
  "BYTE_UNITS = [''B'', ''KB'', ''MB'', ''GB'', ''TB'', ''PB'']"

function scale_bytes :: "rat \<Rightarrow> nat \<Rightarrow> rat \<times> nat" where
  "scale_bytes v i = (if v \<ge> 1024 \<and> i < length BYTE_UNITS - 1 then scale_bytes (v / 1024) (Suc i) else (v, i))"
  by pat_completeness auto
termination
  by (relation "measure (\<lambda>(v, i). length BYTE_UNITS - 1 - i)") auto

declare scale_bytes.simps [simp del]

definition fmtBytes :: "rat option \<Rightarrow> string" where
  "fmtBytes n = (case n of
      None \<Rightarrow> em_dash
    | Some n \<Rightarrow> (let (v, i) = scale_bytes n 0 in
        (if i = 0 then num_str v else to_fixed 2 v) @ '' '' @ BYTE_UNITS ! i))"

definition fmtDurationMs :: "rat option \<Rightarrow> string" where
  "fmtDurationMs ms = (case ms of
      None \<Rightarrow> em_dash
    | Some ms \<Rightarrow>
        (if ms < 1000 then int_str (round_half_up ms) @ '' ms''
         else let s = ms / 1000 in
           if s < 60 then to_fixed (if s < 10 then 2 else 1) s @ '' s''
           else let m = \<lfloor>s / 60\<rfloor> in
             int_str m @ ''m '' @ int_str (round_half_up (s - of_int m * 60)) @ ''s''))"

definition fmtCpuShare :: "rat option \<Rightarrow> rat option \<Rightarrow> string" where
  "fmtCpuShare cores totalCores = (case cores of
      None \<Rightarrow> em_dash
    | Some c \<Rightarrow> (case totalCores of
        Some t \<Rightarrow> (if t > 0 then to_fixed 1 (c / t * 100) @ ''%'' else times_sign @ to_fixed 1 c)
      | None \<Rightarrow> times_sign @ to_fixed 1 c))"

text \<open>\<open>formatBytes\<close> of \<open>utils/inventory-helpers.ts\<close>.\<close>

definition formatBytes :: "rat \<Rightarrow> string" where
  "formatBytes bytes =
     (if bytes < 1024 then num_str bytes @ '' B''
      else if bytes < 1024 * 1024 then to_fixed 1 (bytes / 1024) @ '' KB''
      else if bytes < 1024 * 1024 * 1024 then to_fixed 1 (bytes / (1024 * 1024)) @ '' MB''
      else to_fixed 2 (bytes / (1024 * 1024 * 1024)) @ '' GB'')"

lemmas [js_eval] = fmtRows_def fmtBytes_def scale_bytes.simps BYTE_UNITS_def fmtDurationMs_def
  fmtCpuShare_def formatBytes_def

text \<open>The scaling loop keeps the amount, stays in range and stops at a mantissa below 1024 or at PB.\<close>

lemma scale_bytes_spec:
  assumes "i \<le> 5" and "i > 0 \<longrightarrow> v \<ge> 1" and "scale_bytes v i = (w, j)"
  shows "w * 1024 ^ j = v * 1024 ^ i \<and> i \<le> j \<and> j \<le> 5 \<and> (w < 1024 \<or> j = 5) \<and> (j > 0 \<longrightarrow> w \<ge> 1)"
  using assms
proof (induction v i rule: scale_bytes.induct)
  case (1 v i)
  show ?case
  proof (cases "v \<ge> 1024 \<and> i < 5")
    case True
    then have eq: "scale_bytes v i = scale_bytes (v / 1024) (Suc i)"
      by (simp add: scale_bytes.simps [of v i] BYTE_UNITS_def)
    have "w * 1024 ^ j = v / 1024 * 1024 ^ Suc i \<and> Suc i \<le> j \<and> j \<le> 5 \<and> (w < 1024 \<or> j = 5) \<and> (j > 0 \<longrightarrow> w \<ge> 1)"
      using 1 True eq by (simp add: BYTE_UNITS_def)
    then show ?thesis by simp
  next
    case False
    then have "scale_bytes v i = (v, i)" by (auto simp: scale_bytes.simps [of v i] BYTE_UNITS_def)
    with 1 False show ?thesis by auto
  qed
qed

section \<open>Properties\<close>

text \<open>
  C27. Sorting the running queries by a column is a stable permutation: the rows are those given, the
  values ascend or descend as asked, the nulls come last in both directions, and rows with the same
  value keep their order.
\<close>

theorem sortQueries_correct:
  "mset (sortQueries queries key dir) = mset queries
   \<and> sorted_wrt (column_ordered dir) (map (run_field key) (sortQueries queries key dir))
   \<and> filter (\<lambda>q. run_field key q = v) (sortQueries queries key dir)
       = filter (\<lambda>q. run_field key q = v) queries"
proof -
  have "filter (\<lambda>q. num_key (run_field key) dir q = num_key_of dir v) (sortQueries queries key dir)
      = filter (\<lambda>q. num_key (run_field key) dir q = num_key_of dir v) queries"
    by (simp add: sortQueries_def byNumeric_def num_sort.stable_js_sort)
  then show ?thesis
    by (simp add: sortQueries_def sorted_byNumeric num_key_eq_iff)
qed

text \<open>
  Sorting the query history: by time it is a stable permutation ordered by the timestamps (a
  missing one counts as the empty string), by any other column it is the numeric sort with the nulls
  last.
\<close>

theorem sortHistory_correct:
  "mset (sortHistory queries key dir) = mset queries
   \<and> (if key = Timestamp
      then sorted (map (time_key dir) (sortHistory queries key dir))
        \<and> filter (\<lambda>q. nullish (hq_timestamp q) [] = t) (sortHistory queries key dir)
            = filter (\<lambda>q. nullish (hq_timestamp q) [] = t) queries
      else sorted_wrt (column_ordered dir) (map (hist_field key) (sortHistory queries key dir)))"
proof -
  have "filter (\<lambda>q. time_key dir q = dir_key dir t) (js_sort (time_cmp dir) queries)
      = filter (\<lambda>q. time_key dir q = dir_key dir t) queries"
    by (rule time_sort.stable_js_sort)
  then show ?thesis
    using time_sort.sorted_js_sort [of dir queries]
    by (simp add: sortHistory_def sorted_byNumeric time_key_def)
qed

text \<open>
  C26. Instantaneous CPU: for a response in which no query id occurs twice, the figure published for a
  query is the increase of its CPU time over the increase of the clock since its previous sample, and
  none when there is no sample, the clock did not advance or the CPU time fell; the next samples are
  exactly those of the queries of this response that report a CPU time, so finished queries are
  dropped.
\<close>

theorem deriveInstCores_correct:
  assumes "distinct (map rq_query_id (qr_queries res))" and "q \<in> set (qr_queries res)"
  shows "obj_get (snd (deriveInstCores prev res now)) (rq_query_id q) = inst_spec prev now q
    \<and> (obj_get (fst (deriveInstCores prev res now)) j \<noteq> None) =
        (\<exists>p \<in> set (qr_queries res). rq_query_id p = j \<and> rq_cpu_time_ms p \<noteq> None)
    \<and> list_all (\<lambda>(k, c). 0 \<le> c) (snd (deriveInstCores prev res now))"
proof (intro conjI)
  show "obj_get (snd (deriveInstCores prev res now)) (rq_query_id q) = inst_spec prev now q"
    unfolding deriveInstCores_def by (rule cpu_fold_value [OF assms]) simp
  show "(obj_get (fst (deriveInstCores prev res now)) j \<noteq> None) =
      (\<exists>p \<in> set (qr_queries res). rq_query_id p = j \<and> rq_cpu_time_ms p \<noteq> None)"
    using cpu_fold_samples_dom [of prev now "([], [])" "qr_queries res" j]
    by (simp add: deriveInstCores_def)
  show "list_all (\<lambda>(k, c). 0 \<le> c) (snd (deriveInstCores prev res now))"
    unfolding deriveInstCores_def by (rule cpu_fold_all_nonneg) simp
qed

definition sample_query :: running_query where
  "sample_query = \<lparr>rq_query_id = ''q1'', rq_connection_id = None, rq_user = ''alice'', rq_database = None,
     rq_start_time = None, rq_fe_ip = None, rq_warehouse = None, rq_resource_group = None,
     rq_exec_state = None, rq_exec_progress = None, rq_scan_rows = None, rq_scan_bytes = None,
     rq_scan_bytes_display = None, rq_memory_bytes = None, rq_memory_display = None,
     rq_spill_bytes = None, rq_spill_display = None, rq_cpu_time_ms = Some 9000,
     rq_cpu_time_display = None, rq_exec_time_ms = None, rq_exec_time_display = None,
     rq_cpu_avg_cores = None, rq_sql = None\<rparr>"

lemma deriveInstCores_correct_witness:
  "obj_get (snd (deriveInstCores [(''q1'', \<lparr>sa_cpuMs = 1000, sa_atMs = 0\<rparr>)]
     \<lparr>qr_queries = [sample_query], qr_server_now = None, qr_can_kill = True\<rparr> 2000)) ''q1'' = Some 4"
  using deriveInstCores_correct [of "\<lparr>qr_queries = [sample_query], qr_server_now = None, qr_can_kill = True\<rparr>"
      sample_query "[(''q1'', \<lparr>sa_cpuMs = 1000, sa_atMs = 0\<rparr>)]" 2000 "''q1''"]
  by (simp add: sample_query_def inst_spec_def obj_get_def)

text \<open>
  Byte amounts: the printed mantissa times its unit is the amount, the unit is one of the six, the
  mantissa is below 1024 unless the unit is already PB, and it is at least 1 unless the unit is B.
\<close>

theorem fmtBytes_scaled:
  "\<exists>v i. fmtBytes (Some n) = (if i = 0 then num_str v else to_fixed 2 v) @ '' '' @ BYTE_UNITS ! i
     \<and> v * 1024 ^ i = n \<and> i < length BYTE_UNITS \<and> (v < 1024 \<or> i = 5) \<and> (i = 0 \<or> 1 \<le> v)"
proof -
  obtain v i where vi: "scale_bytes n 0 = (v, i)" by fastforce
  from scale_bytes_spec [OF _ _ vi]
  have "v * 1024 ^ i = n" "i \<le> 5" "v < 1024 \<or> i = 5" "i > 0 \<longrightarrow> v \<ge> 1" by auto
  with vi show ?thesis
    by (intro exI [of _ v] exI [of _ i]) (auto simp: fmtBytes_def BYTE_UNITS_def)
qed

text \<open>
  The seconds of a duration are rounded after the minutes are split off, so just under a full minute
  they are printed as 60.
\<close>

lemma duration_sixty_seconds: "fmtDurationMs (Some 119600) = ''1m 60s''"
  by code_simp

end
