(* ===== verification/Js_View.thy ===== *)
theory Js_View
  imports Js_Collections
begin

text \<open>
  What a component renders, without its styling: a tree of elements with their attributes, the events
  that a click or a key on them sends, and the fields with the event of a typed text and of a picked
  option. A component is a function from its properties to such a tree, so what a user can do in a
  state is the list of events that the tree offers.
\<close>

datatype 'e node =
    El string "string jsobj" "'e list" "'e node list"
  | Field string string bool "string \<Rightarrow> 'e" "(string \<times> 'e) list"
  | Txt string

definition show_if :: "bool \<Rightarrow> 'a list \<Rightarrow> 'a list" where
  "show_if c ns = (if c then ns else [])"

definition disabled_if :: "bool \<Rightarrow> string jsobj" where
  "disabled_if c = show_if c [(''disabled'', ''true'')]"

definition box :: "'e node list \<Rightarrow> 'e node" where
  "box ns = El ''div'' [] [] ns"

text \<open>A button with its test id, whether it is disabled, its event and its label.\<close>

definition button :: "string \<Rightarrow> bool \<Rightarrow> 'e \<Rightarrow> string \<Rightarrow> 'e node" where
  "button tid dis e label = El ''button'' ((''data-testid'', tid) # disabled_if dis) [e] [Txt label]"

text \<open>The events that the user can send: those of the elements that are not disabled.\<close>

fun offered :: "'e node \<Rightarrow> 'e list" where
  "offered (Txt t) = []"
| "offered (Field tid v ro f opts) = map snd opts"
| "offered (El tag as es ns) =
     (if obj_get as ''disabled'' = Some ''true'' then [] else es) @ concat (map offered ns)"

text \<open>The texts that a field can send are not listed one by one.\<close>

fun typed :: "'e node \<Rightarrow> (string \<Rightarrow> 'e) list" where
  "typed (Txt t) = []"
| "typed (Field tid v ro f opts) = (if ro then [] else [f])"
| "typed (El tag as es ns) = concat (map typed ns)"

definition can_send :: "'e node \<Rightarrow> 'e \<Rightarrow> bool" where
  "can_send n e \<longleftrightarrow> e \<in> set (offered n) \<or> (\<exists>f \<in> set (typed n). \<exists>t. e = f t)"

fun texts :: "'e node \<Rightarrow> string list" where
  "texts (Txt t) = [t]"
| "texts (Field tid v ro f opts) = [v]"
| "texts (El tag as es ns) = concat (map texts ns)"

fun test_ids :: "'e node \<Rightarrow> string list" where
  "test_ids (Txt t) = []"
| "test_ids (Field tid v ro f opts) = [tid]"
| "test_ids (El tag as es ns) =
     (case obj_get as ''data-testid'' of Some i \<Rightarrow> [i] | None \<Rightarrow> []) @ concat (map test_ids ns)"

lemma in_show_if [simp]: "x \<in> set (show_if c xs) \<longleftrightarrow> c \<and> x \<in> set xs"
  by (simp add: show_if_def)

lemma show_if_simps [simp]: "show_if True xs = xs" "show_if False xs = []"
  by (simp_all add: show_if_def)

lemma offered_box [simp]: "offered (box ns) = concat (map offered ns)"
  by (simp add: box_def)

lemma typed_box [simp]: "typed (box ns) = concat (map typed ns)"
  by (simp add: box_def)

lemma offered_button [simp]: "offered (button tid dis e label) = (if dis then [] else [e])"
  by (simp add: button_def disabled_if_def show_if_def obj_get_def)

lemma typed_button [simp]: "typed (button tid dis e label) = []"
  by (simp add: button_def)

lemma test_ids_button [simp]: "test_ids (button tid dis e label) = [tid]"
  by (simp add: button_def obj_get_def)

text \<open>What an element, a field and a button can send.\<close>

lemma can_send_simps [simp]:
  "\<not> can_send (Txt t) e"
  "can_send (Field i v ro f opts) e \<longleftrightarrow> e \<in> snd ` set opts \<or> \<not> ro \<and> (\<exists>t. e = f t)"
  "can_send (El tg as es ns) e \<longleftrightarrow>
     (obj_get as ''disabled'' \<noteq> Some ''true'' \<and> e \<in> set es) \<or> (\<exists>n \<in> set ns. can_send n e)"
  by (auto simp: can_send_def)

lemma can_send_box [simp]: "can_send (box ns) e \<longleftrightarrow> (\<exists>n \<in> set ns. can_send n e)"
  by (auto simp: can_send_def)

lemma can_send_button [simp]: "can_send (button tid dis e' label) e \<longleftrightarrow> \<not> dis \<and> e = e'"
  by (simp add: can_send_def)

lemma obj_get_Cons: "obj_get ((k, v) # m) j = (if j = k then Some v else obj_get m j)"
  by (simp add: obj_get_def)

end
