(* ===== verification/Toast.thy ===== *)
theory Toast
  imports Js_View
begin

text \<open>
  \<open>utils/toast.ts\<close>: the notification list. Its state is the set of active keys and the
  elements in the container with their timers; the events are a call of \<open>showToast\<close>, a click on a
  toast, the timer of a toast and the removal of a faded element.
\<close>

section \<open>Definitions\<close>

datatype toast_type = TError | TWarning | TInfo

fun toast_type_str :: "toast_type \<Rightarrow> string" where
  "toast_type_str TError = ''error''"
| "toast_type_str TWarning = ''warning''"
| "toast_type_str TInfo = ''info''"

record toast_colors =
  to_bg :: string
  to_border :: string
  to_text :: string

fun COLORS :: "toast_type \<Rightarrow> toast_colors" where
  "COLORS TError = \<lparr>to_bg = ''#1e1215'', to_border = ''#ef4444'', to_text = ''#fca5a5''\<rparr>"
| "COLORS TWarning = \<lparr>to_bg = ''#1e1a12'', to_border = ''#f59e0b'', to_text = ''#fde68a''\<rparr>"
| "COLORS TInfo = \<lparr>to_bg = ''#121a2e'', to_border = ''#3b82f6'', to_text = ''#93c5fd''\<rparr>"

text \<open>A call of \<open>showToast\<close>; the default type is \<open>error\<close>, the default duration 5000.\<close>

record toast_call =
  tk_message :: string
  tk_type :: toast_type
  tk_duration :: nat

definition toast :: "string \<Rightarrow> toast_type \<Rightarrow> toast_call" where
  "toast m t = \<lparr>tk_message = m, tk_type = t, tk_duration = 5000\<rparr>"

definition toast_for :: "string \<Rightarrow> toast_type \<Rightarrow> nat \<Rightarrow> toast_call" where
  "toast_for m t d = \<lparr>tk_message = m, tk_type = t, tk_duration = d\<rparr>"

definition toast_key :: "toast_call \<Rightarrow> string" where
  "toast_key c = toast_type_str (tk_type c) @ '':'' @ tk_message c"

record toast_el =
  te_id :: nat
  te_call :: toast_call
  te_visible :: bool
  te_timer :: bool

record toast_state =
  ts_active :: "string list"
  ts_els :: "toast_el list"
  ts_next :: nat

definition toast_init :: toast_state where
  "toast_init = \<lparr>ts_active = [], ts_els = [], ts_next = 0\<rparr>"

definition showToast :: "toast_call \<Rightarrow> toast_state \<Rightarrow> toast_state" where
  "showToast c s =
     (if toast_key c \<in> set (ts_active s) then s
      else s\<lparr>ts_active := set_add (toast_key c) (ts_active s),
             ts_els := ts_els s @ [\<lparr>te_id = ts_next s, te_call = c, te_visible = True,
                                   te_timer = (tk_duration c > 0)\<rparr>],
             ts_next := Suc (ts_next s)\<rparr>)"

text \<open>\<open>dismiss\<close> of one element: the key is deleted and the element fades.\<close>

definition fade :: "nat \<Rightarrow> toast_el \<Rightarrow> toast_el" where
  "fade i e = (if te_id e = i then e\<lparr>te_visible := False\<rparr> else e)"

definition dismiss :: "toast_el \<Rightarrow> toast_state \<Rightarrow> toast_state" where
  "dismiss e s = s\<lparr>ts_active := set_delete (toast_key (te_call e)) (ts_active s),
     ts_els := map (fade (te_id e)) (ts_els s)\<rparr>"

definition stop_timer :: "nat \<Rightarrow> toast_el \<Rightarrow> toast_el" where
  "stop_timer i e = (if te_id e = i then e\<lparr>te_timer := False\<rparr> else e)"

text \<open>
  An element keeps its timer when it is clicked: the callback runs \<open>dismiss\<close> once more. A removed
  element is out of the container, but its timer still runs, so it stays in the list, not visible.
\<close>

datatype toast_event = ShowToast toast_call | ClickToast nat | ToastTimer nat

fun toast_step :: "toast_state \<Rightarrow> toast_event \<Rightarrow> toast_state" where
  "toast_step s (ShowToast c) = showToast c s"
| "toast_step s (ClickToast i) =
     (case find (\<lambda>e. te_id e = i \<and> te_visible e) (ts_els s) of Some e \<Rightarrow> dismiss e s | None \<Rightarrow> s)"
| "toast_step s (ToastTimer i) =
     (case find (\<lambda>e. te_id e = i \<and> te_timer e) (ts_els s) of
        Some e \<Rightarrow> (let s' = dismiss e s in s'\<lparr>ts_els := map (stop_timer i) (ts_els s')\<rparr>)
      | None \<Rightarrow> s)"

definition visible_keys :: "toast_state \<Rightarrow> string list" where
  "visible_keys s = map (\<lambda>e. toast_key (te_call e)) (filter te_visible (ts_els s))"

section \<open>Invariants\<close>

definition ids_ok :: "toast_state \<Rightarrow> bool" where
  "ids_ok s \<longleftrightarrow> distinct (map te_id (ts_els s)) \<and> (\<forall>e \<in> set (ts_els s). te_id e < ts_next s)"

lemma ids_map [simp]:
  "map te_id (map (fade i) es) = map te_id es" "map te_id (map (stop_timer i) es) = map te_id es"
  by (induction es) (auto simp: fade_def stop_timer_def)

lemma fade_simps [simp]:
  "te_id (fade i e) = te_id e" "te_call (fade i e) = te_call e"
  "te_visible (fade i e) \<longleftrightarrow> te_visible e \<and> te_id e \<noteq> i" "te_timer (fade i e) = te_timer e"
  "te_id (stop_timer i e) = te_id e" "te_call (stop_timer i e) = te_call e"
  "te_visible (stop_timer i e) = te_visible e"
  "te_timer (stop_timer i e) \<longleftrightarrow> te_timer e \<and> te_id e \<noteq> i"
  by (auto simp: fade_def stop_timer_def)

lemma find_el:
  "find P es = Some e \<Longrightarrow> e \<in> set es \<and> P e"
  by (auto simp: find_Some_iff)

text \<open>
  Without clicks the active keys are exactly those of the visible toasts, each visible once, and a
  toast with a running timer is visible.
\<close>

definition toast_ok :: "toast_state \<Rightarrow> bool" where
  "toast_ok s \<longleftrightarrow> ids_ok s \<and> distinct (visible_keys s) \<and> distinct (ts_active s)
     \<and> set (ts_active s) = set (visible_keys s)
     \<and> (\<forall>e \<in> set (ts_els s). te_timer e \<longrightarrow> te_visible e)"

fun no_click :: "toast_event \<Rightarrow> bool" where
  "no_click (ClickToast i) = False"
| "no_click _ = True"

lemma visible_keys_fade:
  assumes "e \<in> set es" and "te_visible e" and "distinct (map te_id es)"
    and "distinct (map (\<lambda>e. toast_key (te_call e)) (filter te_visible es))"
  shows "map (\<lambda>e. toast_key (te_call e)) (filter te_visible (map (fade (te_id e)) es))
    = filter (\<lambda>k. k \<noteq> toast_key (te_call e)) (map (\<lambda>e. toast_key (te_call e)) (filter te_visible es))"
  using assms
proof (induction es)
  case Nil
  then show ?case by simp
next
  case (Cons x es)
  show ?case
  proof (cases "x = e")
    case True
    with Cons.prems(3) have "te_id e \<notin> te_id ` set es" by simp
    then have "\<forall>y \<in> set es. te_id y \<noteq> te_id e" by (metis imageI)
    then have "map (fade (te_id e)) es = es" by (induction es) (auto simp: fade_def)
    moreover have "filter (\<lambda>k. k \<noteq> toast_key (te_call e)) (map (\<lambda>e. toast_key (te_call e)) (filter te_visible es))
        = map (\<lambda>e. toast_key (te_call e)) (filter te_visible es)"
    proof (rule filter_True, rule ballI)
      fix k assume k: "k \<in> set (map (\<lambda>e. toast_key (te_call e)) (filter te_visible es))"
      have "toast_key (te_call e) \<notin> set (map (\<lambda>e. toast_key (te_call e)) (filter te_visible es))"
        using Cons.prems(2,4) True by simp
      with k show "k \<noteq> toast_key (te_call e)" by metis
    qed
    ultimately show ?thesis using True Cons.prems by simp
  next
    case False
    with Cons.prems have e: "e \<in> set es" and "te_id x \<noteq> te_id e" by auto
    moreover have "te_visible x \<Longrightarrow> toast_key (te_call x) \<noteq> toast_key (te_call e)"
      using e Cons.prems by force
    ultimately show ?thesis using Cons.IH [OF e] Cons.prems by (auto split: if_splits)
  qed
qed

lemma toast_ok_init: "toast_ok toast_init"
  by (simp add: toast_ok_def toast_init_def ids_ok_def visible_keys_def)

lemma visible_keys_show:
  "toast_key c \<notin> set (ts_active s) \<Longrightarrow> visible_keys (showToast c s) = visible_keys s @ [toast_key c]"
  by (simp add: showToast_def visible_keys_def)

lemma toast_ok_show: "toast_ok s \<Longrightarrow> toast_ok (showToast c s)"
proof (cases "toast_key c \<in> set (ts_active s)")
  case False
  moreover assume "toast_ok s"
  ultimately show ?thesis
    unfolding toast_ok_def visible_keys_show [OF False]
    by (auto simp: ids_ok_def showToast_def)
qed (simp add: showToast_def)

lemma toast_ok_timer: "toast_ok s \<Longrightarrow> toast_ok (toast_step s (ToastTimer i))"
proof (cases "find (\<lambda>e. te_id e = i \<and> te_timer e) (ts_els s)")
  case None
  moreover assume "toast_ok s"
  ultimately show ?thesis by simp
next
  case (Some e)
  assume ok: "toast_ok s"
  from find_el [OF Some] ok have e: "e \<in> set (ts_els s)" "te_id e = i" "te_visible e"
    by (auto simp: toast_ok_def)
  let ?s' = "toast_step s (ToastTimer i)"
  have s': "?s' = s\<lparr>ts_active := set_delete (toast_key (te_call e)) (ts_active s),
      ts_els := map (stop_timer i) (map (fade i) (ts_els s))\<rparr>"
    using Some e(2) by (simp add: dismiss_def Let_def)
  have "map (\<lambda>e. toast_key (te_call e)) (filter te_visible (map (stop_timer i) es))
      = map (\<lambda>e. toast_key (te_call e)) (filter te_visible es)" for es
    by (induction es) auto
  then have vis: "visible_keys ?s' = filter (\<lambda>k. k \<noteq> toast_key (te_call e)) (visible_keys s)"
    unfolding s' using visible_keys_fade [of e "ts_els s"] e ok
    by (simp add: visible_keys_def toast_ok_def ids_ok_def del: map_map)
  have "ids_ok ?s'"
    unfolding s' using ok by (auto simp: toast_ok_def ids_ok_def comp_def)
  moreover have "\<forall>x \<in> set (ts_els ?s'). te_timer x \<longrightarrow> te_visible x"
    unfolding s' using ok by (auto simp: toast_ok_def)
  moreover have "ts_active ?s' = set_delete (toast_key (te_call e)) (ts_active s)"
    unfolding s' by simp
  then have "set (ts_active ?s') = set (visible_keys ?s')" "distinct (ts_active ?s')"
      "distinct (visible_keys ?s')"
    unfolding vis using ok by (auto simp: toast_ok_def)
  ultimately show ?thesis unfolding toast_ok_def by blast
qed

lemma toast_ok_step: "toast_ok s \<Longrightarrow> no_click e \<Longrightarrow> toast_ok (toast_step s e)"
  using toast_ok_show toast_ok_timer by (cases e) auto

text \<open>The machine whose events are those that are not clicks.\<close>

definition toast_step_auto :: "toast_state \<Rightarrow> toast_event \<Rightarrow> toast_state" where
  "toast_step_auto s e = (if no_click e then toast_step s e else s)"

interpretation toasts: machine toast_init toast_step_auto toast_ok
  by unfold_locales (simp_all add: toast_ok_init toast_step_auto_def toast_ok_step)

lemma run_no_click: "list_all no_click es \<Longrightarrow> foldl toast_step s es = foldl toast_step_auto s es"
  by (induction es arbitrary: s) (simp_all add: toast_step_auto_def)

section \<open>Properties\<close>

text \<open>
  C22. As long as no toast is dismissed by a click, the visible toasts are distinct, the active keys are
  exactly theirs, and a call for a toast that is visible changes nothing.
\<close>

theorem toasts_deduplicated:
  assumes "list_all no_click es"
  shows "distinct (visible_keys (foldl toast_step toast_init es))
    \<and> set (ts_active (foldl toast_step toast_init es)) = set (visible_keys (foldl toast_step toast_init es))
    \<and> (toast_key c \<notin> set (visible_keys (foldl toast_step toast_init es))
        \<or> toast_step (foldl toast_step toast_init es) (ShowToast c) = foldl toast_step toast_init es)"
  using toasts.inv_run [of es] run_no_click [OF assms]
  by (auto simp: toast_ok_def showToast_def)

lemma toasts_deduplicated_witness:
  "distinct (visible_keys (foldl toast_step toast_init
     [ShowToast (toast ''a'' TError), ShowToast (toast ''b'' TInfo), ShowToast (toast ''a'' TError), ToastTimer 0]))"
  using toasts_deduplicated [of "[ShowToast (toast ''a'' TError), ShowToast (toast ''b'' TInfo),
    ShowToast (toast ''a'' TError), ToastTimer 0]"] by simp

text \<open>
  A click does not stop the timer. When the same message is shown again before the old timer fires, the
  timer deletes the key of the new toast, and the next call shows a duplicate of a visible toast.
\<close>

lemma clicked_toast_duplicates:
  "visible_keys (foldl toast_step toast_init
     [ShowToast (toast ''m'' TError), ClickToast 0, ShowToast (toast ''m'' TError), ToastTimer 0,
      ShowToast (toast ''m'' TError)]) = [''error:m'', ''error:m'']"
  by code_simp

end
