(* ===== verification/Grant_Wizard.thy ===== *)
theory Grant_Wizard
  imports Grant_Helpers Toast
begin

text \<open>
  The state of the Manage Privileges wizard: \<open>stores/grantStore.ts\<close> and the hooks of
  \<open>components/grants\<close> (\<open>useGrantForm\<close>, \<open>useGranteeGrants\<close>, \<open>useGrantDataSources\<close>,
  \<open>useGrantPreview\<close>, \<open>useGrantExecutor\<close>). A timer and the requests in flight are part of the
  state of a hook; the answer of the server is the argument of the event that delivers it.
\<close>

section \<open>The store (grantStore.ts)\<close>

record wizard_prefill =
  wp_action :: "grant_action option"
  wp_grantee :: "grantee_ref option"
  wp_object :: "grant_object_ref option"
  wp_privileges :: "string list option"

definition empty_prefill :: wizard_prefill where
  "empty_prefill = \<lparr>wp_action = None, wp_grantee = None, wp_object = None, wp_privileges = None\<rparr>"

record grant_store =
  gr_wizardOpen :: bool
  gr_openId :: nat
  gr_prefill :: "wizard_prefill option"
  gr_refreshTick :: nat

definition grant_store_init :: grant_store where
  "grant_store_init = \<lparr>gr_wizardOpen = False, gr_openId = 0, gr_prefill = None, gr_refreshTick = 0\<rparr>"

definition openWizard :: "wizard_prefill option \<Rightarrow> grant_store \<Rightarrow> grant_store" where
  "openWizard p s = s\<lparr>gr_wizardOpen := True, gr_openId := gr_openId s + 1, gr_prefill := p\<rparr>"

definition closeWizard :: "grant_store \<Rightarrow> grant_store" where
  "closeWizard s = s\<lparr>gr_wizardOpen := False, gr_prefill := None\<rparr>"

definition bumpRefresh :: "grant_store \<Rightarrow> grant_store" where
  "bumpRefresh s = s\<lparr>gr_refreshTick := gr_refreshTick s + 1\<rparr>"

section \<open>The form (useGrantForm.ts)\<close>

record grant_form =
  gf_action :: grant_action
  gf_grantType :: grant_kind
  gf_granteeName :: string
  gf_granteeType :: grantee_kind
  gf_objectType :: string
  gf_catalog :: string
  gf_database :: string
  gf_objName :: string
  gf_privileges :: "string list"
  gf_withGrantOption :: bool
  gf_role :: string
  gf_keepOpen :: bool

definition obj_field :: "(grant_object_ref \<Rightarrow> string option) \<Rightarrow> wizard_prefill option \<Rightarrow> string option" where
  "obj_field f p = Option.bind p (\<lambda>p. Option.bind (wp_object p) f)"

definition initial_form :: "wizard_prefill option \<Rightarrow> grant_form" where
  "initial_form p = \<lparr>
     gf_action = nullish (Option.bind p wp_action) Grant,
     gf_grantType = Privilege,
     gf_granteeName = nullish (map_option ge_name (Option.bind p wp_grantee)) [],
     gf_granteeType = nullish (map_option ge_type (Option.bind p wp_grantee)) GUser,
     gf_objectType = nullish (obj_field (Some \<circ> go_object_type) p) ''TABLE'',
     gf_catalog = nullish (obj_field go_catalog p) ''default_catalog'',
     gf_database = nullish (obj_field go_database p) [],
     gf_objName = nullish (obj_field go_name p) [],
     gf_privileges = dedup (nullish (Option.bind p wp_privileges) []),
     gf_withGrantOption = False,
     gf_role = [],
     gf_keepOpen = False\<rparr>"

definition needsDb :: "string \<Rightarrow> bool" where
  "needsDb objectType \<longleftrightarrow> objectType \<noteq> ''CATALOG''"

definition needsName :: "string \<Rightarrow> bool" where
  "needsName objectType \<longleftrightarrow> objectType \<notin> set [''CATALOG'', ''DATABASE'']"

definition buildRequest :: "grant_form \<Rightarrow> grant_request option" where
  "buildRequest f =
     (if trim (gf_granteeName f) = [] then None
      else let grantee = \<lparr>ge_name = trim (gf_granteeName f), ge_type = gf_granteeType f\<rparr> in
        if gf_grantType f = RoleGrant then
          (if trim (gf_role f) = [] then None
           else Some \<lparr>gq_action = gf_action f, gq_type = RoleGrant, gq_grantee = grantee,
                  gq_object = None, gq_privileges = None, gq_role = Some (trim (gf_role f)),
                  gq_with_grant_option = None\<rparr>)
        else if gf_privileges f = [] \<or> trim (gf_catalog f) = [] then None
        else if needsDb (gf_objectType f) \<and> trim (gf_database f) = [] then None
        else if needsName (gf_objectType f) \<and> trim (gf_objName f) = [] then None
        else Some \<lparr>gq_action = gf_action f, gq_type = Privilege, gq_grantee = grantee,
               gq_object = Some \<lparr>go_object_type = gf_objectType f,
                 go_catalog = Some (trim (gf_catalog f)),
                 go_database = (if needsDb (gf_objectType f) then Some (trim (gf_database f)) else None),
                 go_name = (if needsName (gf_objectType f) then Some (trim (gf_objName f)) else None)\<rparr>,
               gq_privileges = Some (gf_privileges f), gq_role = None,
               gq_with_grant_option = Some (if gf_action f = Grant then gf_withGrantOption f else False)\<rparr>)"

definition selfRevoke :: "string \<Rightarrow> grant_form \<Rightarrow> bool" where
  "selfRevoke currentUser f \<longleftrightarrow> gf_action f = Revoke \<and> gf_granteeType f = GUser
     \<and> bareUser (gf_granteeName f) = currentUser"

definition dangerous :: "grant_form \<Rightarrow> bool" where
  "dangerous f \<longleftrightarrow> gf_withGrantOption f \<or> ''ALL'' \<in> set (gf_privileges f)"

text \<open>The form's events, with the modal's own handlers (ManagePrivilegesModal.tsx).\<close>

datatype form_event =
    SetAction grant_action
  | SetGrantType grant_kind
  | SetGranteeName string
  | PickGrantee string string
  | SetGranteeType grantee_kind
  | ChangeObjectType string
  | SetCatalog string
  | SetDatabase string
  | SetObjName string
  | TogglePriv string
  | SetPrivileges "string list"
  | SetWithGrantOption bool
  | SetRole string
  | SetKeepOpen bool
  | LoadGrant privilege_grant
  | JumpToSource string
  | KeepOpenReset

definition loadGrantIntoForm :: "privilege_grant \<Rightarrow> grant_form \<Rightarrow> grant_form" where
  "loadGrantIntoForm g f = f\<lparr>
     gf_objectType := pg_object_type g,
     gf_catalog := nullish (pg_object_catalog g) ''default_catalog'',
     gf_database := nullish (pg_object_database g) [],
     gf_objName := nullish (pg_object_name g) [],
     gf_privileges := [pg_privilege_type g]\<rparr>"

definition jumpToSourceRole :: "string \<Rightarrow> grant_form \<Rightarrow> grant_form" where
  "jumpToSourceRole sourceRole f = f\<lparr>gf_granteeType := GRole, gf_granteeName := sourceRole\<rparr>"

definition onChangeObjectType :: "string \<Rightarrow> grant_form \<Rightarrow> grant_form" where
  "onChangeObjectType v f = f\<lparr>gf_objectType := v, gf_privileges := []\<rparr>"

definition keepOpenReset :: "grant_form \<Rightarrow> grant_form" where
  "keepOpenReset f = f\<lparr>gf_privileges := [], gf_withGrantOption := False\<rparr>"

fun form_step :: "grant_form \<Rightarrow> form_event \<Rightarrow> grant_form" where
  "form_step f (SetAction a) = f\<lparr>gf_action := a\<rparr>"
| "form_step f (SetGrantType t) = f\<lparr>gf_grantType := t\<rparr>"
| "form_step f (SetGranteeName n) = f\<lparr>gf_granteeName := n\<rparr>"
| "form_step f (PickGrantee n meta) =
     f\<lparr>gf_granteeName := n, gf_granteeType := (if meta = ''role'' then GRole else GUser)\<rparr>"
| "form_step f (SetGranteeType t) = f\<lparr>gf_granteeType := t\<rparr>"
| "form_step f (ChangeObjectType v) = onChangeObjectType v f"
| "form_step f (SetCatalog c) = f\<lparr>gf_catalog := c\<rparr>"
| "form_step f (SetDatabase d) = f\<lparr>gf_database := d\<rparr>"
| "form_step f (SetObjName n) = f\<lparr>gf_objName := n\<rparr>"
| "form_step f (TogglePriv p) = f\<lparr>gf_privileges := set_toggle p (gf_privileges f)\<rparr>"
| "form_step f (SetPrivileges ps) = f\<lparr>gf_privileges := dedup ps\<rparr>"
| "form_step f (SetWithGrantOption b) = f\<lparr>gf_withGrantOption := b\<rparr>"
| "form_step f (SetRole r) = f\<lparr>gf_role := r\<rparr>"
| "form_step f (SetKeepOpen b) = f\<lparr>gf_keepOpen := b\<rparr>"
| "form_step f (LoadGrant g) = loadGrantIntoForm g f"
| "form_step f (JumpToSource r) = jumpToSourceRole r f"
| "form_step f KeepOpenReset = keepOpenReset f"

subsection \<open>What a request looks like\<close>

definition clean :: "string \<Rightarrow> bool" where
  "clean s \<longleftrightarrow> s \<noteq> [] \<and> trim s = s"

definition object_ok :: "grant_object_ref \<Rightarrow> bool" where
  "object_ok b \<longleftrightarrow> pred_option clean (go_catalog b) \<and> go_catalog b \<noteq> None
     \<and> pred_option clean (go_database b) \<and> pred_option clean (go_name b)
     \<and> (go_database b = None \<longleftrightarrow> go_object_type b = ''CATALOG'')
     \<and> (go_name b = None \<longleftrightarrow> go_object_type b \<in> {''CATALOG'', ''DATABASE''})"

definition request_ok :: "grant_request \<Rightarrow> bool" where
  "request_ok r \<longleftrightarrow> clean (ge_name (gq_grantee r)) \<and>
     (case gq_type r of
        RoleGrant \<Rightarrow> pred_option clean (gq_role r) \<and> gq_role r \<noteq> None \<and> gq_object r = None
          \<and> gq_privileges r = None \<and> gq_with_grant_option r = None
      | Privilege \<Rightarrow> gq_role r = None \<and> pred_option object_ok (gq_object r) \<and> gq_object r \<noteq> None
          \<and> pred_option (\<lambda>ps. ps \<noteq> [] \<and> distinct ps) (gq_privileges r) \<and> gq_privileges r \<noteq> None
          \<and> gq_with_grant_option r \<noteq> None
          \<and> (gq_action r = Grant \<or> gq_with_grant_option r = Some False))"

definition form_complete :: "grant_form \<Rightarrow> bool" where
  "form_complete f \<longleftrightarrow> trim (gf_granteeName f) \<noteq> [] \<and>
     (case gf_grantType f of
        RoleGrant \<Rightarrow> trim (gf_role f) \<noteq> []
      | Privilege \<Rightarrow> gf_privileges f \<noteq> [] \<and> trim (gf_catalog f) \<noteq> []
          \<and> (gf_objectType f = ''CATALOG'' \<or> trim (gf_database f) \<noteq> [])
          \<and> (gf_objectType f = ''CATALOG'' \<or> gf_objectType f = ''DATABASE'' \<or> trim (gf_objName f) \<noteq> []))"

lemma buildRequest_complete: "buildRequest f \<noteq> None \<longleftrightarrow> form_complete f"
  by (cases "gf_grantType f")
    (auto simp: buildRequest_def form_complete_def needsDb_def needsName_def Let_def)

definition form_ok :: "grant_form \<Rightarrow> bool" where
  "form_ok f \<longleftrightarrow> distinct (gf_privileges f)"

lemma buildRequest_ok:
  assumes "form_ok f"
  shows "pred_option request_ok (buildRequest f)"
  using assms
  by (cases "gf_grantType f")
    (auto simp: buildRequest_def form_ok_def request_ok_def object_ok_def clean_def needsDb_def
      needsName_def Let_def)

lemma form_ok_step: "form_ok f \<Longrightarrow> form_ok (form_step f e)"
  by (cases e) (simp_all add: form_ok_def loadGrantIntoForm_def jumpToSourceRole_def
      onChangeObjectType_def keepOpenReset_def)

interpretation form: machine "initial_form p" form_step form_ok for p
  by unfold_locales (simp_all add: form_ok_step, simp add: form_ok_def initial_form_def)

section \<open>The grants of the grantee (useGranteeGrants.ts)\<close>

definition directGrants :: "privilege_grant list option \<Rightarrow> privilege_grant list" where
  "directGrants gs = filter (\<lambda>g. pg_source g = ''direct'' \<and> isRevocableRow g) (nullish gs [])"

definition scopeGrants :: "privilege_grant list option \<Rightarrow> privilege_grant list" where
  "scopeGrants gs = filter (\<lambda>g. pg_source g = ''direct'' \<and> pg_object_type g \<in> set OBJECT_TYPE_ORDER
     \<and> \<not> isRevocableRow g) (nullish gs [])"

definition inheritedGrants :: "privilege_grant list option \<Rightarrow> privilege_grant list" where
  "inheritedGrants gs = filter (\<lambda>g. pg_source g \<noteq> ''direct'' \<and> pg_object_type g \<in> set OBJECT_TYPE_ORDER)
     (nullish gs [])"

definition already_step ::
  "string \<Rightarrow> string \<Rightarrow> string \<Rightarrow> string \<Rightarrow> string list \<Rightarrow> privilege_grant \<Rightarrow> string list" where
  "already_step ot cat db nm acc g =
     (if grantMatchesObject g ot (trim cat) (trim db) (trim nm) then set_add (pg_privilege_type g) acc else acc)"

definition alreadyGranted ::
  "privilege_grant list option \<Rightarrow> string \<Rightarrow> string \<Rightarrow> string \<Rightarrow> string \<Rightarrow> string list" where
  "alreadyGranted gs ot cat db nm =
     (if trim cat = [] \<or> (needsDb ot \<and> trim db = []) \<or> (needsName ot \<and> trim nm = []) then []
      else foldl (already_step ot cat db nm) [] (nullish gs []))"

lemma set_already_fold:
  "set (foldl (already_step ot cat db nm) acc gs) = set acc \<union>
     pg_privilege_type ` {g \<in> set gs. grantMatchesObject g ot (trim cat) (trim db) (trim nm)}"
  by (induction gs arbitrary: acc) (auto simp: already_step_def)

text \<open>
  The fetch. A change of the grantee (or a refetch) clears the running timer and starts a new one; the
  timer's callback keeps the grantee it was created for and, for a bare user name with no grants,
  fetches a second time in the \<open>'name'@'%'\<close> form. Nothing cancels a request in flight.
\<close>

record gg_request =
  gg_name :: string
  gg_type :: grantee_kind
  gg_retry :: bool

record gg_state =
  gg_grants :: "privilege_grant list option"
  gg_timer :: "(string \<times> grantee_kind) option"
  gg_inflight :: "gg_request list"

datatype gg_event =
    GranteeChanged string grantee_kind
  | GrantsTimer
  | GrantsAnswer nat "privilege_grant list option"

definition any_host :: "string \<Rightarrow> string" where
  "any_host name = quote # name @ quote # CHR ''@'' # quote # ''%'' @ [quote]"

definition gg_fetched_name :: "gg_request \<Rightarrow> string" where
  "gg_fetched_name r = (if gg_retry r then any_host (gg_name r) else gg_name r)"

definition gg_retries :: "gg_request \<Rightarrow> privilege_grant list \<Rightarrow> bool" where
  "gg_retries r grants \<longleftrightarrow> \<not> gg_retry r \<and> grants = [] \<and> gg_type r = GUser \<and> CHR ''@'' \<notin> set (gg_name r)"

fun gg_step :: "gg_state \<Rightarrow> gg_event \<Rightarrow> gg_state" where
  "gg_step s (GranteeChanged n t) = s\<lparr>gg_timer := Some (n, t)\<rparr>"
| "gg_step s GrantsTimer =
     (case gg_timer s of
        None \<Rightarrow> s
      | Some (n, t) \<Rightarrow>
          (if n = [] then s\<lparr>gg_timer := None, gg_grants := None\<rparr>
           else s\<lparr>gg_timer := None,
                  gg_inflight := gg_inflight s @ [\<lparr>gg_name = n, gg_type = t, gg_retry = False\<rparr>]\<rparr>))"
| "gg_step s (GrantsAnswer i res) =
     (if i < length (gg_inflight s) then
        let r = gg_inflight s ! i; rest = take i (gg_inflight s) @ drop (Suc i) (gg_inflight s) in
        (case res of
           None \<Rightarrow> s\<lparr>gg_inflight := rest, gg_grants := Some []\<rparr>
         | Some grants \<Rightarrow>
             (if gg_retries r grants then s\<lparr>gg_inflight := rest @ [r\<lparr>gg_retry := True\<rparr>]\<rparr>
              else s\<lparr>gg_inflight := rest, gg_grants := Some grants\<rparr>))
      else s)"

definition gg_init :: "string \<Rightarrow> grantee_kind \<Rightarrow> gg_state" where
  "gg_init n t = \<lparr>gg_grants = None, gg_timer = Some (n, t), gg_inflight = []\<rparr>"

section \<open>Reference data (useGrantDataSources.ts)\<close>

record data_sources =
  ds_spec :: "grant_spec option"
  ds_suggestions :: "(string \<times> string) list"
  ds_catalogs :: "string list"
  ds_databases :: "string list"
  ds_objects :: "object_item list"
  ds_roles :: "string list"

definition data_sources_init :: data_sources where
  "data_sources_init = \<lparr>ds_spec = None, ds_suggestions = [], ds_catalogs = [], ds_databases = [],
     ds_objects = [], ds_roles = []\<rparr>"

text \<open>
  The answers. The databases of a catalog and the objects of a database land only if their effect was
  not cleaned up since; a failed load keeps the specification, the catalogs, the roles and the
  suggestions, and empties the databases and the objects.
\<close>

datatype ds_event =
    SpecLoaded "grant_spec option"
  | CatalogsLoaded "catalog_item list option"
  | RolesLoaded "role_item list option"
  | DatabasesLoaded bool "database_item list option"
  | ObjectsLoaded bool "object_item list option"
  | SuggestionTimer string "search_result list option"

definition suggestions_of :: "search_result list \<Rightarrow> (string \<times> string) list" where
  "suggestions_of rs = map (\<lambda>r. (sr_name r, sr_type r))
     (filter (\<lambda>r. sr_type r = ''user'' \<or> sr_type r = ''role'') rs)"

fun ds_step :: "data_sources \<Rightarrow> ds_event \<Rightarrow> data_sources" where
  "ds_step s (SpecLoaded sp) = (case sp of Some x \<Rightarrow> s\<lparr>ds_spec := Some x\<rparr> | None \<Rightarrow> s)"
| "ds_step s (CatalogsLoaded cs) = (case cs of Some x \<Rightarrow> s\<lparr>ds_catalogs := map ci_name x\<rparr> | None \<Rightarrow> s)"
| "ds_step s (RolesLoaded rs) = (case rs of Some x \<Rightarrow> s\<lparr>ds_roles := map ri_name x\<rparr> | None \<Rightarrow> s)"
| "ds_step s (DatabasesLoaded cancelled ds) =
     (if cancelled then s else s\<lparr>ds_databases := map database_item.di_name (nullish ds [])\<rparr>)"
| "ds_step s (ObjectsLoaded cancelled os) =
     (if cancelled then s else s\<lparr>ds_objects := nullish os []\<rparr>)"
| "ds_step s (SuggestionTimer granteeName rs) =
     (if length granteeName < 1 then s\<lparr>ds_suggestions := []\<rparr>
      else (case rs of Some x \<Rightarrow> s\<lparr>ds_suggestions := suggestions_of x\<rparr> | None \<Rightarrow> s))"

section \<open>The preview (useGrantPreview.ts)\<close>

record preview_state =
  pr_sql :: "string list"
  pr_warnings :: "string list"
  pr_error :: string
  pr_timer :: "grant_request option option"
  pr_inflight :: "grant_request list"

datatype preview_event =
    FormChanged "grant_request option"
  | PreviewTimer
  | PreviewAnswer nat "string + grant_preview_response"

definition show_answer :: "string + grant_preview_response \<Rightarrow> preview_state \<Rightarrow> preview_state" where
  "show_answer res s = (case res of
      Inr r \<Rightarrow> s\<lparr>pr_sql := pv_sql r, pr_warnings := dedup (pv_warnings r), pr_error := []\<rparr>
    | Inl e \<Rightarrow> s\<lparr>pr_sql := [], pr_warnings := [], pr_error := e\<rparr>)"

fun preview_step :: "preview_state \<Rightarrow> preview_event \<Rightarrow> preview_state" where
  "preview_step s (FormChanged req) = s\<lparr>pr_timer := Some req\<rparr>"
| "preview_step s PreviewTimer =
     (case pr_timer s of
        None \<Rightarrow> s
      | Some None \<Rightarrow> s\<lparr>pr_timer := None, pr_sql := [], pr_warnings := [], pr_error := []\<rparr>
      | Some (Some req) \<Rightarrow> s\<lparr>pr_timer := None, pr_inflight := pr_inflight s @ [req]\<rparr>)"
| "preview_step s (PreviewAnswer i res) =
     (if i < length (pr_inflight s)
      then show_answer res (s\<lparr>pr_inflight := take i (pr_inflight s) @ drop (Suc i) (pr_inflight s)\<rparr>)
      else s)"

definition preview_init :: "grant_request option \<Rightarrow> preview_state" where
  "preview_init req = \<lparr>pr_sql = [], pr_warnings = [], pr_error = [], pr_timer = Some req, pr_inflight = []\<rparr>"

text \<open>The text put on the clipboard, and the toast of each outcome.\<close>

datatype clipboard = NoClipboard | WriteOk | WriteFails

definition copy_text :: "string list \<Rightarrow> string" where
  "copy_text sql = join '';\<newline>'' sql @ '';''"

definition copySql :: "clipboard \<Rightarrow> preview_state \<Rightarrow> string option \<times> toast_call list" where
  "copySql cb s =
     (if pr_sql s = [] then (None, [])
      else (case cb of
          NoClipboard \<Rightarrow> (None, [toast_for ''Clipboard unavailable in this context'' TWarning 3000])
        | WriteOk \<Rightarrow> (Some (copy_text (pr_sql s)), [toast_for ''SQL copied to clipboard'' TInfo 2000])
        | WriteFails \<Rightarrow> (None, [toast_for ''Could not copy SQL'' TError 3000])))"

section \<open>Execution (useGrantExecutor.ts)\<close>

record exec_result =
  er_label :: string
  er_ok :: bool
  er_audit :: "audit_state option"
  er_error :: "string option"

fun action_str :: "grant_action \<Rightarrow> string" where
  "action_str Grant = ''GRANT''"
| "action_str Revoke = ''REVOKE''"

definition present :: "string option list \<Rightarrow> string list" where
  "present xs = map the (filter truthy xs)"

definition exec_label :: "grant_request \<Rightarrow> string" where
  "exec_label r =
     (if gq_type r = RoleGrant then
        action_str (gq_action r) @ '' role '' @ nullish (gq_role r) ''undefined'' @ '' ''
          @ (if gq_action r = Grant then ''to'' else ''from'') @ '' '' @ ge_name (gq_grantee r)
      else action_str (gq_action r) @ '' '' @ join '', '' (nullish (gq_privileges r) []) @ '' on ''
        @ join ''.'' (present [Option.bind (gq_object r) go_database, Option.bind (gq_object r) go_name]))"

text \<open>One request of the loop: its answer is an error message or the response.\<close>

definition exec_one :: "grant_request \<Rightarrow> string + grant_execute_response \<Rightarrow> exec_result" where
  "exec_one r res = (case res of
      Inr x \<Rightarrow> \<lparr>er_label = exec_label r, er_ok = True, er_audit = Some (ex_audit x), er_error = None\<rparr>
    | Inl m \<Rightarrow> \<lparr>er_label = exec_label r, er_ok = False, er_audit = None, er_error = Some m\<rparr>)"

record exec_state =
  xs_confirming :: bool
  xs_executing :: bool
  xs_results :: "exec_result list"

definition exec_init :: exec_state where
  "exec_init = \<lparr>xs_confirming = False, xs_executing = False, xs_results = []\<rparr>"

definition AUDIT_WARNING :: toast_call where
  "AUDIT_WARNING = toast_for
     ''Executed, but some audit records could not be written (check srpm_audit setup)'' TWarning 8000"

text \<open>
  The end of \<open>runRequests\<close>, with the action and the keep-open flag that the callback closed over: the
  new state, the new store, the toasts, and whether the form is reset.
\<close>

definition runRequests_done ::
  "grant_action \<Rightarrow> bool \<Rightarrow> (grant_request \<times> (string + grant_execute_response)) list
    \<Rightarrow> exec_state \<Rightarrow> grant_store \<Rightarrow> exec_state \<times> grant_store \<times> toast_call list \<times> bool" where
  "runRequests_done action keepOpen answers s store =
     (let newResults = map (\<lambda>(r, a). exec_one r a) answers;
          anyOk = list_ex er_ok newResults;
          s' = s\<lparr>xs_executing := False, xs_confirming := False, xs_results := xs_results s @ newResults\<rparr>;
          store' = (if anyOk then bumpRefresh store else store);
          warn = (if list_ex (\<lambda>r. er_audit r = Some AuditFailed) newResults then [AUDIT_WARNING] else []);
          allOk = list_all er_ok newResults
      in if allOk \<and> \<not> keepOpen
         then (s', closeWizard store',
               warn @ [toast_for (action_str action @ '' executed successfully'') TInfo 4000], False)
         else (s', store', warn, True))"

section \<open>Properties\<close>

text \<open>
  C4. The request that the wizard sends. Whatever the user does after the wizard was opened, a request is
  built exactly when the form is complete, and it is well formed: trimmed non-empty names, an object
  path of exactly the depth its type needs, a non-empty set of privileges, and never a grant option
  on a REVOKE.
\<close>

theorem buildRequest_wellformed:
  "pred_option request_ok (buildRequest (foldl form_step (initial_form p) es))
   \<and> (buildRequest (foldl form_step (initial_form p) es) \<noteq> None
        \<longleftrightarrow> form_complete (foldl form_step (initial_form p) es))"
  using form.inv_run [of p es] by (simp only: buildRequest_ok buildRequest_complete simp_thms)

definition path_clean :: "privilege_grant \<Rightarrow> bool" where
  "path_clean g \<longleftrightarrow> (\<forall>x. x \<in> {pg_object_catalog g, pg_object_database g, pg_object_name g} \<longrightarrow>
     (case x of None \<Rightarrow> True | Some s \<Rightarrow> trim s = s)) \<and> pg_object_catalog g \<noteq> Some []"

text \<open>
  C5. Revoking a listed grant: clicking a direct grant of the grantee builds the request that revokes
  exactly that privilege on exactly that object, with no grant option.
\<close>

theorem load_grant_revokes:
  assumes "g \<in> set (directGrants gs)" and "path_clean g" and "gf_action f = Revoke"
    and "gf_grantType f = Privilege" and "trim (gf_granteeName f) \<noteq> []"
  shows "buildRequest (form_step f (LoadGrant g)) = Some
    \<lparr>gq_action = Revoke, gq_type = Privilege,
     gq_grantee = \<lparr>ge_name = trim (gf_granteeName f), ge_type = gf_granteeType f\<rparr>,
     gq_object = Some \<lparr>go_object_type = pg_object_type g,
       go_catalog = Some (nullish (pg_object_catalog g) ''default_catalog''),
       go_database = (if pg_object_type g = ''CATALOG'' then None else pg_object_database g),
       go_name = (if pg_object_type g \<in> {''CATALOG'', ''DATABASE''} then None else pg_object_name g)\<rparr>,
     gq_privileges = Some [pg_privilege_type g], gq_role = None, gq_with_grant_option = Some False\<rparr>"
proof -
  have rev: "isRevocableRow g" using assms(1) by (simp add: directGrants_def)
  have dc: "trim ''default_catalog'' = ''default_catalog''" by (rule trim_no_ws) (simp add: is_ws_def)
  have cat: "trim (nullish (pg_object_catalog g) ''default_catalog'') = nullish (pg_object_catalog g) ''default_catalog''"
    "nullish (pg_object_catalog g) ''default_catalog'' \<noteq> []"
    using assms(2) dc by (cases "pg_object_catalog g"; auto simp: path_clean_def)+
  have db: "pg_object_type g \<noteq> ''CATALOG'' \<Longrightarrow> \<exists>d. pg_object_database g = Some d \<and> d \<noteq> [] \<and> trim d = d"
    using rev assms(2) by (auto simp: isRevocableRow_def path_clean_def truthy_iff split: if_splits)
  have nm: "pg_object_type g \<notin> {''CATALOG'', ''DATABASE''} \<Longrightarrow> \<exists>d. pg_object_name g = Some d \<and> d \<noteq> [] \<and> trim d = d"
    using rev assms(2) by (auto simp: isRevocableRow_def path_clean_def truthy_iff split: if_splits)
  show ?thesis
    using assms(3-5) cat db nm
    by (auto simp: buildRequest_def loadGrantIntoForm_def needsDb_def needsName_def Let_def)
qed

lemma load_grant_revokes_witness:
  "map_option gq_privileges (buildRequest (form_step
     ((initial_form None)\<lparr>gf_action := Revoke, gf_granteeName := ''bob''\<rparr>) (LoadGrant table_grant)))
   = Some (Some [''SELECT''])"
proof -
  have "table_grant \<in> set (directGrants (Some [table_grant]))" by code_simp
  moreover have "path_clean table_grant"
    by (auto simp: path_clean_def table_grant_def trim_def is_ws_def)
  moreover have "trim ''bob'' = ''bob''" by code_simp
  ultimately show ?thesis
    using load_grant_revokes [of table_grant "Some [table_grant]"
        "(initial_form None)\<lparr>gf_action := Revoke, gf_granteeName := ''bob''\<rparr>"]
    by (simp add: initial_form_def table_grant_def)
qed

definition object_complete :: "string \<Rightarrow> string \<Rightarrow> string \<Rightarrow> string \<Rightarrow> bool" where
  "object_complete ot cat db nm \<longleftrightarrow> trim cat \<noteq> [] \<and> (ot = ''CATALOG'' \<or> trim db \<noteq> [])
     \<and> (ot = ''CATALOG'' \<or> ot = ''DATABASE'' \<or> trim nm \<noteq> [])"

text \<open>
  C19. The already-granted badges: for a fully specified object of one of the wizard's types they name
  exactly the privileges of the grantee's rows on that object, all of them revocable rows; for an
  incomplete object there are none, so a wildcard row never counts.
\<close>

theorem alreadyGranted_exact:
  assumes "ot \<in> set OBJECT_TYPE_ORDER"
  shows "p \<in> set (alreadyGranted gs ot cat db nm) \<longleftrightarrow>
    object_complete ot cat db nm \<and> (\<exists>g \<in> set (nullish gs []). pg_privilege_type g = p \<and> isRevocableRow g
      \<and> grantMatchesObject g ot (trim cat) (trim db) (trim nm))"
proof -
  have "grantMatchesObject g ot (trim cat) (trim db) (trim nm) \<Longrightarrow> object_complete ot cat db nm
      \<Longrightarrow> isRevocableRow g" for g
    using assms by (intro match_revocable) (auto simp: object_complete_def)
  then show ?thesis
    by (auto simp: alreadyGranted_def object_complete_def set_already_fold needsDb_def needsName_def)
qed

lemma alreadyGranted_exact_witness:
  "''SELECT'' \<in> set (alreadyGranted (Some [table_grant]) ''TABLE'' '' hive'' ''db1'' ''t1'')"
proof -
  have "object_complete ''TABLE'' '' hive'' ''db1'' ''t1''"
    "grantMatchesObject table_grant ''TABLE'' (trim '' hive'') (trim ''db1'') (trim ''t1'')"
    "isRevocableRow table_grant" by code_simp+
  then show ?thesis
    using alreadyGranted_exact [of "''TABLE''" "''SELECT''" "Some [table_grant]" "'' hive''" "''db1''" "''t1''"]
    by (auto simp: OBJECT_TYPE_ORDER_def) (auto simp: table_grant_def)
qed

text \<open>
  C20. The end of an execution: one result per request in their order, after the earlier ones; open views
  are told to refetch exactly when some request succeeded; the wizard closes, with a success toast,
  exactly when all succeeded and keep-open was off, and is reset in every other case; a failed audit
  record is always reported.
\<close>

theorem runRequests_outcome:
  "case runRequests_done action keepOpen answers s store of (s', store', toasts, reset) \<Rightarrow>
     xs_results s' = xs_results s @ map (\<lambda>(r, a). exec_one r a) answers
     \<and> \<not> xs_executing s' \<and> \<not> xs_confirming s'
     \<and> gr_refreshTick store' = gr_refreshTick store + (if list_ex (\<lambda>(r, a). \<not> isl a) answers then 1 else 0)
     \<and> (reset \<longleftrightarrow> keepOpen \<or> list_ex (\<lambda>(r, a). isl a) answers)
     \<and> gr_wizardOpen store' = (reset \<and> gr_wizardOpen store)
     \<and> (AUDIT_WARNING \<in> set toasts \<longleftrightarrow>
          list_ex (\<lambda>(r, a). case a of Inl m \<Rightarrow> False | Inr x \<Rightarrow> ex_audit x = AuditFailed) answers)"
proof -
  have ok: "er_ok (exec_one r a) \<longleftrightarrow> \<not> isl a" for r a by (cases a) (simp_all add: exec_one_def)
  have au: "er_audit (exec_one r a) = Some AuditFailed
      \<longleftrightarrow> (case a of Inl m \<Rightarrow> False | Inr x \<Rightarrow> ex_audit x = AuditFailed)" for r a
    by (cases a) (simp_all add: exec_one_def)
  have w: "toast_for (action_str action @ '' executed successfully'') TInfo 4000 \<noteq> AUDIT_WARNING"
    by (simp add: AUDIT_WARNING_def toast_for_def)
  let ?f = "\<lambda>(r, a). exec_one r a"
  have any: "list_ex er_ok (map ?f xs) = list_ex (\<lambda>(r, a). \<not> isl a) xs" for xs
    by (induction xs) (auto simp: ok)
  have all: "list_all er_ok (map ?f xs) = (\<not> list_ex (\<lambda>(r, a). isl a) xs)" for xs
    by (induction xs) (auto simp: ok)
  have aud: "list_ex (\<lambda>r. er_audit r = Some AuditFailed) (map ?f xs)
      = list_ex (\<lambda>(r, a). case a of Inl m \<Rightarrow> False | Inr x \<Rightarrow> ex_audit x = AuditFailed) xs" for xs
    by (induction xs) (auto simp: au)
  show ?thesis
    unfolding runRequests_done_def Let_def any all aud
    using w by (simp add: bumpRefresh_def closeWizard_def)
qed

subsection \<open>Stale answers\<close>

text \<open>
  Nothing cancels or orders the requests of the two debounced fetches. An answer for the grantee
  typed first that arrives last replaces the grants of the grantee shown now.
\<close>

lemma grantee_grants_stale:
  "gg_grants (foldl gg_step (gg_init ''alice'' GUser)
     [GrantsTimer, GranteeChanged ''bob'' GUser, GrantsTimer,
      GrantsAnswer 1 (Some []), GrantsAnswer 1 (Some []), GrantsAnswer 0 (Some [sample])])
   = Some [sample]"
  by (simp add: gg_init_def gg_retries_def)

end
