(* ===== verification/Wizard_View.thy ===== *)
theory Wizard_View
  imports Grant_Wizard
begin

text \<open>
  The wizard as the user meets it: the components of \<open>components/grants\<close> as views over the state
  of the hooks, and the modal as a machine whose user events are those its view offers
  (\<open>ManagePrivilegesModal\<close>, \<open>ObjectSelector\<close>, \<open>PrivilegeGrid\<close>, \<open>CurrentGrantsList\<close>,
  \<open>SqlPreviewRail\<close>, \<open>ModalFooter\<close>, \<open>primitives\<close>).
\<close>

section \<open>Events\<close>

datatype wizard_event =
    Form form_event
  | SetConfirming bool
  | HandleExecute
  | CloseWizard
  | CopySql
  | ExecAnswer "string + grant_execute_response"
  | GrantsEvent gg_event
  | PreviewEvent preview_event
  | SourcesEvent ds_event

record wizard =
  wz_form :: grant_form
  wz_grants :: gg_state
  wz_sources :: data_sources
  wz_preview :: preview_state
  wz_exec :: exec_state
  wz_pending :: "(grant_action \<times> bool \<times> grant_request) list"
  wz_toasts :: "toast_call list"

section \<open>Atoms (primitives.tsx)\<close>

definition Seg :: "string \<Rightarrow> string \<Rightarrow> bool \<Rightarrow> wizard_event \<Rightarrow> wizard_event node" where
  "Seg testId label active onSelect = El ''label'' []  []
     [El ''input'' ([(''type'', ''radio''), (''data-testid'', testId)] @ show_if active [(''checked'', ''true'')])
        [onSelect] [], Txt label]"

definition SegGroup :: "wizard_event node list \<Rightarrow> wizard_event node" where
  "SegGroup ns = box ns"

definition SectionH :: "string \<Rightarrow> wizard_event node list \<Rightarrow> wizard_event node" where
  "SectionH title extra = box (Txt title # extra)"

definition WarnLine :: "string \<Rightarrow> wizard_event node" where
  "WarnLine t = box [Txt t]"

definition checkbox :: "string \<Rightarrow> bool \<Rightarrow> bool \<Rightarrow> wizard_event \<Rightarrow> wizard_event node" where
  "checkbox testId checked dis e = El ''input'' ([(''type'', ''checkbox''), (''data-testid'', testId)]
     @ disabled_if dis @ show_if checked [(''checked'', ''true'')]) [e] []"

section \<open>The object picker (ObjectSelector.tsx)\<close>

definition OBJ_ICON :: "string jsobj" where
  "OBJ_ICON = map (\<lambda>t. (t, the (obj_get SCOPE_ICONS t))) OBJECT_TYPE_ORDER"

definition type_options :: "grant_spec option \<Rightarrow> string list" where
  "type_options spec = filter (\<lambda>t. case spec of None \<Rightarrow> True
     | Some sp \<Rightarrow> obj_get (gs_object_types sp) t \<noteq> None) OBJECT_TYPE_ORDER"

definition name_options :: "string \<Rightarrow> object_item list \<Rightarrow> string list" where
  "name_options objectType objects = map oi_name (filter (\<lambda>b. objectType = ''FUNCTION''
     \<or> str_includes (if objectType = ''TABLE'' then ''TABLE'' else objectType) (to_upper (oi_object_type b))) objects)"

definition ObjectSelector :: "grant_form \<Rightarrow> data_sources \<Rightarrow> wizard_event node" where
  "ObjectSelector f ds = box (
     [SectionH ''Target object'' [Txt (nullish (obj_get OBJ_ICON (gf_objectType f)) ''table'')],
      Field ''mp-object-type'' (gf_objectType f) True (\<lambda>v. Form (ChangeObjectType v))
        (map (\<lambda>t. (t, Form (ChangeObjectType t))) (type_options (ds_spec ds))),
      Field ''mp-catalog'' (gf_catalog f) False (\<lambda>v. Form (SetCatalog v))
        (map (\<lambda>c. (c, Form (SetCatalog c))) (ds_catalogs ds))]
     @ show_if (needsDb (gf_objectType f))
        [Field ''mp-database'' (gf_database f) False (\<lambda>v. Form (SetDatabase v))
          (map (\<lambda>d. (d, Form (SetDatabase d))) (ds_databases ds))]
     @ show_if (needsName (gf_objectType f))
        [Txt (if gf_objectType f = ''FUNCTION'' then ''Function (signature)'' else ''Object''),
         Field ''mp-name'' (gf_objName f) False (\<lambda>v. Form (SetObjName v))
          (map (\<lambda>n. (n, Form (SetObjName n))) (name_options (gf_objectType f) (ds_objects ds)))])"

section \<open>The privilege grid (PrivilegeGrid.tsx)\<close>

definition PRESETS :: "(string \<times> string list) list" where
  "PRESETS = [(''Read-only'', [''SELECT'', ''USAGE'']),
     (''Read-write'', [''SELECT'', ''INSERT'', ''UPDATE'', ''DELETE'']), (''Full'', [''ALL''])]"

definition allowedPrivs :: "grant_spec option \<Rightarrow> string \<Rightarrow> string list" where
  "allowedPrivs spec objectType =
     nullish (Option.bind spec (\<lambda>sp. obj_get (gs_object_types sp) objectType)) []"

definition presets :: "string list \<Rightarrow> (string \<times> string list) list" where
  "presets allowed = filter (\<lambda>p. snd p \<noteq> [])
     (map (\<lambda>p. (fst p, filter (\<lambda>x. x \<in> set allowed) (snd p))) PRESETS)"

definition priv_disabled :: "grant_form \<Rightarrow> string list \<Rightarrow> string \<Rightarrow> bool" where
  "priv_disabled f already p \<longleftrightarrow>
     gf_action f = Revoke \<and> p \<notin> set already \<and> p \<notin> set (gf_privileges f)"

definition dashed :: "char \<Rightarrow> string \<Rightarrow> string" where
  "dashed d s = map (\<lambda>c. if c = CHR '' '' then d else c) s"

definition priv_box :: "grant_form \<Rightarrow> string list \<Rightarrow> string \<Rightarrow> wizard_event node" where
  "priv_box f already p = El ''label''
     (show_if (priv_disabled f already p)
        [(''title'', (if trim (gf_granteeName f) = [] then ''This grantee'' else trim (gf_granteeName f))
            @ '' does not hold '' @ p @ '' on this object'')]) []
     ([checkbox (''mp-priv-'' @ dashed (CHR ''_'') p) (p \<in> set (gf_privileges f))
        (priv_disabled f already p) (Form (TogglePriv p)), Txt p]
      @ show_if (p \<in> set already) [El ''span'' [(''data-testid'', ''mp-already-granted'')] [] [Txt ''GRANTED'']])"

definition preset_button :: "string \<times> string list \<Rightarrow> wizard_event node" where
  "preset_button p = button (''mp-preset-'' @ dashed (CHR ''-'') (fst p)) False
     (Form (SetPrivileges (snd p))) (fst p)"

definition PrivilegeGrid :: "grant_form \<Rightarrow> grant_spec option \<Rightarrow> string list \<Rightarrow> wizard_event node" where
  "PrivilegeGrid f spec already =
     (let allowed = allowedPrivs spec (gf_objectType f) in box (
        [SectionH ''Privileges'' (show_if (gf_action f = Grant \<and> presets allowed \<noteq> [])
           (map preset_button (presets allowed)))]
        @ map (priv_box f already) allowed
        @ show_if (gf_action f = Revoke \<and> already = [])
            [Txt (if trim (gf_granteeName f) \<noteq> []
               then ''This grantee holds no direct privileges on the selected object. Pick another object, or click a current grant above.''
               else ''Select a grantee to see revocable privileges.'')]
        @ show_if (gf_action f = Grant)
            [checkbox ''mp-wgo'' (gf_withGrantOption f) False
               (Form (SetWithGrantOption (\<not> gf_withGrantOption f))), Txt ''WITH GRANT OPTION'']))"

section \<open>The current grants (CurrentGrantsList.tsx)\<close>

definition grant_path :: "privilege_grant \<Rightarrow> string" where
  "grant_path g = join ''.'' (present [pg_object_catalog g, pg_object_database g, pg_object_name g])"

definition CurrentGrantsList ::
  "privilege_grant list \<Rightarrow> privilege_grant list \<Rightarrow> privilege_grant list \<Rightarrow> wizard_event node" where
  "CurrentGrantsList direct scope inherited = box
     (SectionH ''Current grants'' [Txt ''click to load''] #
      (if direct = [] \<and> inherited = [] \<and> scope = [] then [Txt ''No grants found for this grantee.'']
       else
         map (\<lambda>g. El ''div'' [(''data-testid'', ''mp-direct-grant''), (''role'', ''button'')] [Form (LoadGrant g)]
               [Txt (pg_privilege_type g), Txt (pg_object_type g), Txt (grant_path g)]) direct
         @ map (\<lambda>g. El ''div'' [(''data-testid'', ''mp-scope-grant'')] []
               [Txt (pg_privilege_type g), Txt (pg_object_type g),
                Txt ''ALL (scope grant - not revocable per-object)'']) scope
         @ map (\<lambda>g. El ''div'' [(''data-testid'', ''mp-inherited-grant'')] []
               [Txt (pg_privilege_type g), Txt (pg_object_type g), Txt (grant_path g),
                El ''button'' [] [Form (JumpToSource (pg_source g))] [Txt (''via '' @ pg_source g)]]) inherited))"

section \<open>The preview rail (SqlPreviewRail.tsx)\<close>

definition result_line :: "exec_result \<Rightarrow> wizard_event node" where
  "result_line r = El ''div'' [(''data-ok'', if er_ok r then ''true'' else ''false'')] []
     ([Txt (er_label r)] @ show_if (er_audit r = Some AuditFailed) [Txt '' (audit failed)'']
      @ show_if (truthy (er_error r)) [Txt (nullish (er_error r) [])])"

definition SqlPreviewRail :: "grant_form \<Rightarrow> preview_state \<Rightarrow> exec_result list \<Rightarrow> wizard_event node" where
  "SqlPreviewRail f p results = box (
     show_if (dangerous f \<and> gf_grantType f = Privilege \<and> gf_action f = Grant)
       [El ''span'' [(''data-testid'', ''mp-danger-badge'')] [] [Txt ''HIGH IMPACT'']]
     @ [button ''mp-copy-sql'' (pr_sql p = []) CopySql ''Copy'',
        El ''div'' [(''data-testid'', ''mp-preview-sql'')] []
          (if pr_error p \<noteq> [] then [Txt (pr_error p)]
           else if pr_sql p \<noteq> [] then map (\<lambda>l. box [Txt l, Txt '';'']) (pr_sql p)
           else [Txt ''complete the form to preview''])]
     @ map WarnLine (pr_warnings p)
     @ (if results \<noteq> [] then [El ''div'' [(''data-testid'', ''mp-results'')] [] (map result_line results)]
        else [Txt ''Executed statements will appear here.'']))"

section \<open>The footer (ModalFooter.tsx)\<close>

definition ModalFooter :: "grant_form \<Rightarrow> exec_state \<Rightarrow> bool \<Rightarrow> bool \<Rightarrow> wizard_event node" where
  "ModalFooter f x self canExecute =
     (if xs_confirming x then box (
        [Txt ''Execute the previewed SQL against the cluster? StarRocks may still deny the operation based on your actual privileges.'']
        @ show_if self [El ''div'' [(''data-testid'', ''mp-self-revoke-warning'')] []
            [WarnLine ''You are revoking from yourself. Removing your own user_admin role will lock you out of this feature.'']]
        @ [El ''button'' (disabled_if (xs_executing x)) [SetConfirming False] [Txt ''Back''],
           button ''mp-confirm'' (xs_executing x) HandleExecute
             (if xs_executing x then ''Executing...''
              else ''Confirm & '' @ (if gf_action f = Revoke then ''Revoke'' else ''Grant''))])
      else box
        [checkbox ''mp-keep-open'' (gf_keepOpen f) False (Form (SetKeepOpen (\<not> gf_keepOpen f))),
         Txt ''Keep open after execute'',
         button ''mp-cancel'' False CloseWizard ''Cancel'',
         button ''mp-execute'' (\<not> canExecute) (SetConfirming True) ''Execute''])"

section \<open>The modal (ManagePrivilegesModal.tsx)\<close>

definition builtinGrantee :: "grant_form \<Rightarrow> bool" where
  "builtinGrantee f \<longleftrightarrow> gf_granteeType f = GRole \<and> to_lower (trim (gf_granteeName f)) \<in> set BUILTIN_ROLES"

definition canExecute :: "wizard \<Rightarrow> bool" where
  "canExecute w \<longleftrightarrow> pr_sql (wz_preview w) \<noteq> []"

definition recipient_fields :: "grant_form \<Rightarrow> data_sources \<Rightarrow> wizard_event node list" where
  "recipient_fields f ds =
     [SectionH ''Recipient'' [],
      Field ''mp-grantee-name'' (gf_granteeName f) False (\<lambda>v. Form (SetGranteeName v))
        (map (\<lambda>(n, t). (n, Form (PickGrantee n t))) (ds_suggestions ds)),
      SegGroup [Seg ''mp-grantee-type-user'' ''User'' (gf_granteeType f = GUser) (Form (SetGranteeType GUser)),
                Seg ''mp-grantee-type-role'' ''Role'' (gf_granteeType f = GRole) (Form (SetGranteeType GRole))]]"

definition privilege_pane :: "wizard \<Rightarrow> wizard_event node list" where
  "privilege_pane w =
     (let f = wz_form w; gs = gg_grants (wz_grants w) in
       show_if (builtinGrantee f) [El ''div'' [(''data-testid'', ''mp-builtin-warning'')] []
         [WarnLine (trim (gf_granteeName f) @ '' is a built-in role - StarRocks rejects any grant change on it (''
            @ [CHR 0x22] @ ''role is not mutable'' @ [CHR 0x22] @ '').'')]]
       @ show_if (gf_action f = Revoke \<and> gs \<noteq> None)
           [CurrentGrantsList (directGrants gs) (scopeGrants gs) (inheritedGrants gs)]
       @ [ObjectSelector f (wz_sources w),
          PrivilegeGrid f (ds_spec (wz_sources w))
            (alreadyGranted gs (gf_objectType f) (gf_catalog f) (gf_database f) (gf_objName f))])"

definition role_pane :: "wizard \<Rightarrow> wizard_event node list" where
  "role_pane w =
     [SectionH (''Role to '' @ to_lower (action_str (gf_action (wz_form w)))) [],
      Field ''mp-role'' (gf_role (wz_form w)) False (\<lambda>v. Form (SetRole v))
        (map (\<lambda>r. (r, Form (SetRole r))) (ds_roles (wz_sources w)))]"

definition WizardBody :: "string \<Rightarrow> wizard \<Rightarrow> wizard_event node" where
  "WizardBody currentUser w =
     (let f = wz_form w; x = wz_exec w in El ''div'' [] (show_if (\<not> xs_executing x) [CloseWizard])
       ([Txt ''Manage Privileges'']
        @ show_if (trim (gf_granteeName f) \<noteq> [])
            [Txt ((if gf_action f = Grant then ''grant to '' else ''revoke from '') @ trim (gf_granteeName f))]
        @ [button ''mp-close'' (xs_executing x) CloseWizard ''Close'',
           SegGroup [Seg ''mp-action-grant'' ''Grant'' (gf_action f = Grant) (Form (SetAction Grant)),
                     Seg ''mp-action-revoke'' ''Revoke'' (gf_action f = Revoke) (Form (SetAction Revoke))],
           SegGroup [Seg ''mp-type-privilege'' ''Privilege on object'' (gf_grantType f = Privilege)
                       (Form (SetGrantType Privilege)),
                     Seg ''mp-type-role'' ''Role assignment'' (gf_grantType f = RoleGrant)
                       (Form (SetGrantType RoleGrant))]]
        @ recipient_fields f (wz_sources w)
        @ (if gf_grantType f = RoleGrant then role_pane w else privilege_pane w)
        @ [SqlPreviewRail f (wz_preview w) (xs_results x),
           ModalFooter f x (selfRevoke currentUser f) (canExecute w)]))"

text \<open>The modal is rendered only while the wizard is open.\<close>

definition ManagePrivilegesModal :: "string \<Rightarrow> grant_store \<Rightarrow> wizard \<Rightarrow> wizard_event node option" where
  "ManagePrivilegesModal currentUser store w =
     (if gr_wizardOpen store then Some (WizardBody currentUser w) else None)"

section \<open>The machine\<close>

definition wizard_open :: "wizard_prefill option \<Rightarrow> wizard" where
  "wizard_open p = (let f = initial_form p in
     \<lparr>wz_form = f, wz_grants = gg_init (gf_granteeName f) (gf_granteeType f),
      wz_sources = data_sources_init, wz_preview = preview_init (buildRequest f),
      wz_exec = exec_init, wz_pending = [], wz_toasts = []\<rparr>)"

text \<open>
  The effects that a render after an event runs: the grants effect depends on the grantee's name and
  type, the preview effect on the fields that \<open>buildRequest\<close> depends on (the set of privileges
  by identity, so every event that makes a new set counts).
\<close>

fun new_priv_set :: "form_event \<Rightarrow> bool" where
  "new_priv_set (TogglePriv p) = True"
| "new_priv_set (SetPrivileges ps) = True"
| "new_priv_set (LoadGrant g) = True"
| "new_priv_set (ChangeObjectType t) = True"
| "new_priv_set KeepOpenReset = True"
| "new_priv_set _ = False"

definition form_effects :: "form_event \<Rightarrow> wizard \<Rightarrow> wizard" where
  "form_effects e w =
     (let f = wz_form w; f' = form_step f e;
          gg = (if gf_granteeName f' \<noteq> gf_granteeName f \<or> gf_granteeType f' \<noteq> gf_granteeType f \<or> e = KeepOpenReset
                then gg_step (wz_grants w) (GranteeChanged (gf_granteeName f') (gf_granteeType f'))
                else wz_grants w);
          pv = (if f'\<lparr>gf_keepOpen := gf_keepOpen f\<rparr> \<noteq> f \<or> new_priv_set e
                then preview_step (wz_preview w) (FormChanged (buildRequest f')) else wz_preview w)
      in w\<lparr>wz_form := f', wz_grants := gg, wz_preview := pv\<rparr>)"

definition handleExecute :: "wizard \<Rightarrow> wizard" where
  "handleExecute w =
     (case buildRequest (wz_form w) of
        None \<Rightarrow> w
      | Some req \<Rightarrow> w\<lparr>wz_exec := (wz_exec w)\<lparr>xs_executing := True\<rparr>,
          wz_pending := wz_pending w @ [(gf_action (wz_form w), gf_keepOpen (wz_form w), req)]\<rparr>)"

definition exec_answer ::
  "string + grant_execute_response \<Rightarrow> wizard \<times> grant_store \<Rightarrow> wizard \<times> grant_store" where
  "exec_answer res ws =
     (let (w, store) = ws in
      case wz_pending w of
        [] \<Rightarrow> ws
      | (action, keepOpen, req) # rest \<Rightarrow>
          (case runRequests_done action keepOpen [(req, res)] (wz_exec w) store of
             (x', store', toasts, reset) \<Rightarrow>
               (let w' = w\<lparr>wz_exec := x', wz_pending := rest, wz_toasts := wz_toasts w @ toasts\<rparr>
                in (if reset then form_effects KeepOpenReset w' else w', store'))))"

fun user_event :: "wizard_event \<Rightarrow> bool" where
  "user_event (ExecAnswer r) = False"
| "user_event (GrantsEvent e) = False"
| "user_event (PreviewEvent e) = False"
| "user_event (SourcesEvent e) = False"
| "user_event _ = True"

fun wizard_do :: "wizard \<times> grant_store \<Rightarrow> wizard_event \<Rightarrow> wizard \<times> grant_store" where
  "wizard_do (w, store) (Form e) = (form_effects e w, store)"
| "wizard_do (w, store) (SetConfirming b) = (w\<lparr>wz_exec := (wz_exec w)\<lparr>xs_confirming := b\<rparr>\<rparr>, store)"
| "wizard_do (w, store) HandleExecute = (handleExecute w, store)"
| "wizard_do (w, store) CloseWizard = (w, closeWizard store)"
| "wizard_do (w, store) CopySql = (w, store)"
| "wizard_do (w, store) (ExecAnswer r) = exec_answer r (w, store)"
| "wizard_do (w, store) (GrantsEvent e) = (w\<lparr>wz_grants := gg_step (wz_grants w) e\<rparr>, store)"
| "wizard_do (w, store) (PreviewEvent e) = (w\<lparr>wz_preview := preview_step (wz_preview w) e\<rparr>, store)"
| "wizard_do (w, store) (SourcesEvent e) = (w\<lparr>wz_sources := ds_step (wz_sources w) e\<rparr>, store)"

text \<open>
  A user event happens only if the rendered modal offers it; the escape key and a press on the backdrop
  are the event of the outermost element. Timers and answers happen at any time.
\<close>

definition wizard_step :: "string \<Rightarrow> wizard \<times> grant_store \<Rightarrow> wizard_event \<Rightarrow> wizard \<times> grant_store" where
  "wizard_step currentUser ws e =
     (if user_event e \<and> \<not> (case ManagePrivilegesModal currentUser (snd ws) (fst ws) of
            None \<Rightarrow> False | Some n \<Rightarrow> can_send n e)
      then ws else wizard_do ws e)"

section \<open>Lemmas\<close>

text \<open>What each part of the view can send.\<close>

lemma can_send_checkbox [simp]: "can_send (checkbox tid chk dis e') e \<longleftrightarrow> \<not> dis \<and> e = e'"
  by (auto simp: checkbox_def disabled_if_def show_if_def obj_get_Cons)

lemma can_send_Seg [simp]: "can_send (Seg tid l act e') e \<longleftrightarrow> e = e'"
  by (auto simp: Seg_def show_if_def obj_get_Cons)

lemma can_send_SegGroup [simp]: "can_send (SegGroup ns) e \<longleftrightarrow> (\<exists>n \<in> set ns. can_send n e)"
  by (simp add: SegGroup_def)

lemma can_send_SectionH [simp]: "can_send (SectionH t ns) e \<longleftrightarrow> (\<exists>n \<in> set ns. can_send n e)"
  by (simp add: SectionH_def)

lemma can_send_WarnLine [simp]: "\<not> can_send (WarnLine t) e"
  by (simp add: WarnLine_def)

text \<open>The parts above the rail only change the form.\<close>

lemma ObjectSelector_form: "can_send (ObjectSelector f ds) e \<Longrightarrow> \<exists>x. e = Form x"
  by (auto simp: ObjectSelector_def split: if_splits)

lemma PrivilegeGrid_form: "can_send (PrivilegeGrid f spec already) e \<Longrightarrow> \<exists>x. e = Form x"
  by (auto simp: PrivilegeGrid_def Let_def priv_box_def preset_button_def)

lemma CurrentGrants_form: "can_send (CurrentGrantsList d s i) e \<Longrightarrow> \<exists>x. e = Form x"
  by (auto simp: CurrentGrantsList_def split: if_splits)

lemma recipient_form: "n \<in> set (recipient_fields f ds) \<Longrightarrow> can_send n e \<Longrightarrow> \<exists>x. e = Form x"
  by (auto simp: recipient_fields_def)

lemma role_pane_form: "n \<in> set (role_pane w) \<Longrightarrow> can_send n e \<Longrightarrow> \<exists>x. e = Form x"
  by (auto simp: role_pane_def)

lemma privilege_pane_form: "n \<in> set (privilege_pane w) \<Longrightarrow> can_send n e \<Longrightarrow> \<exists>x. e = Form x"
  by (auto simp: privilege_pane_def Let_def dest: ObjectSelector_form PrivilegeGrid_form CurrentGrants_form)

lemma rail_sends: "can_send (SqlPreviewRail f p rs) e \<Longrightarrow> e = CopySql"
  by (auto simp: SqlPreviewRail_def result_line_def split: if_splits)

lemma footer_sends:
  "can_send (ModalFooter f x self can) e \<longleftrightarrow>
     (if xs_confirming x then \<not> xs_executing x \<and> (e = SetConfirming False \<or> e = HandleExecute)
      else e = Form (SetKeepOpen (\<not> gf_keepOpen f)) \<or> e = CloseWizard \<or> can \<and> e = SetConfirming True)"
  by (auto simp: ModalFooter_def disabled_if_def show_if_def obj_get_Cons)

text \<open>The events of the modal that are not changes of the form.\<close>

lemma body_sends:
  assumes "can_send (WizardBody user w) e" and "\<forall>x. e \<noteq> Form x" and "e \<noteq> CopySql"
  shows "(e = CloseWizard \<and> (\<not> xs_executing (wz_exec w) \<or> \<not> xs_confirming (wz_exec w)))
    \<or> (xs_confirming (wz_exec w) \<and> \<not> xs_executing (wz_exec w) \<and> (e = SetConfirming False \<or> e = HandleExecute))
    \<or> (\<not> xs_confirming (wz_exec w) \<and> canExecute w \<and> e = SetConfirming True)"
  using assms
  by (auto simp: WizardBody_def Let_def footer_sends split: if_splits
      dest: rail_sends recipient_form role_pane_form privilege_pane_form)

subsection \<open>The invariant of the machine\<close>

text \<open>
  At most one request is executing; while it is, the confirmation step is shown and the wizard stays
  open; a pending request is well formed.
\<close>

definition wizard_ok :: "wizard \<times> grant_store \<Rightarrow> bool" where
  "wizard_ok ws \<longleftrightarrow> (let (w, store) = ws in
     form_ok (wz_form w) \<and> length (wz_pending w) \<le> 1
     \<and> xs_executing (wz_exec w) = (wz_pending w \<noteq> [])
     \<and> (wz_pending w \<noteq> [] \<longrightarrow> xs_confirming (wz_exec w) \<and> gr_wizardOpen store)
     \<and> list_all (\<lambda>(a, k, r). request_ok r \<and> gq_action r = a) (wz_pending w))"

lemma form_effects_simps [simp]:
  "wz_form (form_effects e w) = form_step (wz_form w) e"
  "wz_exec (form_effects e w) = wz_exec w"
  "wz_pending (form_effects e w) = wz_pending w"
  by (simp_all add: form_effects_def Let_def)

lemma buildRequest_action: "buildRequest f = Some r \<Longrightarrow> gq_action r = gf_action f"
  by (auto simp: buildRequest_def Let_def split: if_splits)

lemma wizard_ok_execute:
  assumes "wizard_ok (w, store)" and "xs_confirming (wz_exec w)" and "\<not> xs_executing (wz_exec w)"
    and "gr_wizardOpen store"
  shows "wizard_ok (handleExecute w, store)"
  using assms buildRequest_ok [of "wz_form w"] buildRequest_action [of "wz_form w"]
  by (auto simp: wizard_ok_def handleExecute_def split: option.split)

lemma form_ok_reset: "form_ok (keepOpenReset f)"
  by (simp add: form_ok_def keepOpenReset_def)

lemma wizard_ok_answer:
  assumes "wizard_ok (w, store)"
  shows "wizard_ok (exec_answer res (w, store))"
proof (cases "wz_pending w")
  case Nil
  with assms show ?thesis by (simp add: exec_answer_def)
next
  case (Cons p rest)
  obtain a k r where p: "p = (a, k, r)" by (cases p)
  obtain x' store' toasts reset where
    run: "runRequests_done a k [(r, res)] (wz_exec w) store = (x', store', toasts, reset)"
    by (metis prod_cases4)
  have "\<not> xs_executing x'" using run by (auto simp: runRequests_done_def Let_def split: if_splits)
  moreover have "rest = []" using assms Cons by (auto simp: wizard_ok_def)
  ultimately show ?thesis
    using assms Cons p run by (auto simp: exec_answer_def wizard_ok_def Let_def form_ok_reset)
qed

lemma wizard_ok_step: "wizard_ok ws \<Longrightarrow> wizard_ok (wizard_step user ws e)"
proof -
  assume ok: "wizard_ok ws"
  obtain w store where ws: "ws = (w, store)" by (cases ws)
  show ?thesis
  proof (cases "user_event e")
    case False
    with ok ws show ?thesis
      by (cases e) (auto simp: wizard_step_def wizard_ok_answer, auto simp: wizard_ok_def)
  next
    case True
    show ?thesis
    proof (cases "gr_wizardOpen store \<and> can_send (WizardBody user w) e")
      case False
      with ok True ws show ?thesis by (simp add: wizard_step_def ManagePrivilegesModal_def)
    next
      case sent: True
      then have step: "wizard_step user ws e = wizard_do (w, store) e"
        using ws by (simp add: wizard_step_def ManagePrivilegesModal_def)
      show ?thesis
      proof (cases "(\<exists>x. e = Form x) \<or> e = CopySql")
        case True
        with ok ws step show ?thesis by (auto simp: wizard_ok_def form_ok_step)
      next
        case False
        with sent body_sends [of user w e] ok ws step show ?thesis
          by (auto simp: wizard_ok_execute) (auto simp: wizard_ok_def closeWizard_def)
      qed
    qed
  qed
qed

lemma wizard_ok_open: "wizard_ok (wizard_open p, store)"
  by (simp add: wizard_ok_def wizard_open_def Let_def exec_init_def form.inv_init)

interpretation wizard: machine "(wizard_open p, openWizard p store)" "wizard_step user" wizard_ok
  for p store user
  by unfold_locales (simp_all add: wizard_ok_open wizard_ok_step)

section \<open>Properties\<close>

text \<open>
  C1. In every run of the wizard at most one request is executing, and it is well formed; while it is,
  the modal is open at its confirmation step and offers neither to close it, nor to leave the step,
  nor to execute again.
\<close>

theorem execution_exclusive:
  "case foldl (wizard_step user) (wizard_open p, openWizard p store0) es of (w, store) \<Rightarrow>
     length (wz_pending w) \<le> 1 \<and> list_all (\<lambda>(a, k, r). request_ok r) (wz_pending w)
     \<and> (xs_executing (wz_exec w) \<longleftrightarrow> wz_pending w \<noteq> [])
     \<and> (if xs_executing (wz_exec w)
        then ManagePrivilegesModal user store w \<noteq> None
          \<and> list_all (\<lambda>e. \<not> can_send (WizardBody user w) e)
              [CloseWizard, SetConfirming False, SetConfirming True, HandleExecute]
        else True)"
proof -
  obtain w store where
    ws: "foldl (wizard_step user) (wizard_open p, openWizard p store0) es = (w, store)" by fastforce
  have ok: "wizard_ok (w, store)"
    using wizard.inv_run [of user p store0 es] ws by simp
  then have "xs_executing (wz_exec w) \<Longrightarrow> xs_confirming (wz_exec w) \<and> gr_wizardOpen store"
    by (auto simp: wizard_ok_def)
  with ok ws show ?thesis
    using body_sends [of user w CloseWizard] body_sends [of user w "SetConfirming False"]
      body_sends [of user w "SetConfirming True"] body_sends [of user w HandleExecute]
    by (auto simp: wizard_ok_def ManagePrivilegesModal_def list_all_iff)
qed

text \<open>
  C21. The privilege grid: the box of a privilege can be toggled exactly when the specification allows the
  privilege for the object type and, when revoking, the grantee holds it or it is already checked;
  presets only contain allowed privileges, are offered only when granting, and the grant option can
  only be set when granting.
\<close>

theorem privilege_grid_offers:
  "can_send (PrivilegeGrid f spec already) e \<longleftrightarrow>
     (\<exists>p \<in> set (allowedPrivs spec (gf_objectType f)). e = Form (TogglePriv p)
        \<and> (gf_action f = Grant \<or> p \<in> set already \<or> p \<in> set (gf_privileges f)))
     \<or> gf_action f = Grant \<and> (\<exists>q \<in> set PRESETS.
          filter (\<lambda>x. x \<in> set (allowedPrivs spec (gf_objectType f))) (snd q) \<noteq> []
          \<and> e = Form (SetPrivileges (filter (\<lambda>x. x \<in> set (allowedPrivs spec (gf_objectType f))) (snd q))))
     \<or> gf_action f = Grant \<and> e = Form (SetWithGrantOption (\<not> gf_withGrantOption f))"
proof -
  have head: "can_send (SectionH t (show_if (c \<and> presets allowed \<noteq> []) (map preset_button (presets allowed)))) e \<longleftrightarrow>
      c \<and> (\<exists>q \<in> set PRESETS. filter (\<lambda>x. x \<in> set allowed) (snd q) \<noteq> []
         \<and> e = Form (SetPrivileges (filter (\<lambda>x. x \<in> set allowed) (snd q))))" for allowed c t
    by (auto simp: presets_def preset_button_def show_if_def filter_empty_conv)
  have grid: "(\<exists>n \<in> set (map (priv_box f already) allowed). can_send n e) \<longleftrightarrow>
      (\<exists>p \<in> set allowed. e = Form (TogglePriv p)
         \<and> (gf_action f = Grant \<or> p \<in> set already \<or> p \<in> set (gf_privileges f)))" for allowed
    by (cases "gf_action f") (auto simp: priv_box_def priv_disabled_def)
  show ?thesis
    by (simp only: PrivilegeGrid_def Let_def can_send_box set_append bex_Un grid list.set bex_simps head)
      (cases "gf_action f"; auto)
qed

subsection \<open>A stale preview\<close>

text \<open>
  The preview lags behind the form, and execution rebuilds the request from the form: a change of the
  grantee right before the confirmation executes a request that is not the one previewed.
\<close>

definition stale_run :: "wizard \<times> grant_store" where
  "stale_run = foldl wizard_do
     (wizard_open (Some \<lparr>wp_action = None, wp_grantee = Some \<lparr>ge_name = ''alice'', ge_type = GUser\<rparr>,
        wp_object = Some \<lparr>go_object_type = ''DATABASE'', go_catalog = None, go_database = Some ''d'', go_name = None\<rparr>,
        wp_privileges = Some [''DROP'']\<rparr>), grant_store_init)
     [PreviewEvent PreviewTimer,
      PreviewEvent (PreviewAnswer 0 (Inr \<lparr>pv_sql = [''GRANT DROP TO alice''], pv_warnings = []\<rparr>)),
      Form (SetGranteeName ''bob''), SetConfirming True, HandleExecute]"

lemma executes_what_was_not_previewed:
  "pr_sql (wz_preview (fst stale_run)) = [''GRANT DROP TO alice'']
   \<and> map (\<lambda>(a, k, r). ge_name (gq_grantee r)) (wz_pending (fst stale_run)) = [''bob'']"
  by code_simp

end
