(* ===== verification/Dag_Store.thy ===== *)
theory Dag_Store
  imports Types
begin

text \<open>
  \<open>stores/dagStore.ts\<close>: the state of the graph views. \<open>loadDag\<close> is split at its await: the
  part before it either publishes a cached graph or starts a fetch, the part after it runs when that
  fetch settles. The fetches in flight are kept beside the store, by the key they were started for.
\<close>

section \<open>The store\<close>

datatype panel_mode = PanelObject | PanelUser | PanelGroup

record dag_state =
  da_activeTab :: string
  da_activeCatalog :: string
  da_dagData :: "dag_graph option"
  da_dagCache :: "dag_graph jsobj"
  da_dagLoading :: bool
  da_currentKey :: "string option"
  da_selectedNode :: "dag_node option"
  da_panelMode :: "panel_mode option"
  da_groupChildren :: "dag_node list"
  da_searchQuery :: string
  da_visibleTypes :: "bool jsobj"
  da_groupsOnly :: bool
  da_hiddenNodes :: "string list"

definition defaultTypes :: "bool jsobj" where
  "defaultTypes = [(''system'', True), (''catalog'', True), (''database'', True), (''table'', True),
     (''view'', True), (''mv'', True), (''function'', True), (''user'', True), (''role'', True)]"

definition tab_of_hash :: "string \<Rightarrow> string" where
  "tab_of_hash hash = or_else (Some (hd (split_on CHR ''/'' (replace_first ''#'' [] hash)))) ''obj''"

definition dag_init :: "string \<Rightarrow> dag_state" where
  "dag_init hash = \<lparr>da_activeTab = tab_of_hash hash, da_activeCatalog = ''default_catalog'',
     da_dagData = None, da_dagCache = [], da_dagLoading = False, da_currentKey = None,
     da_selectedNode = None, da_panelMode = None, da_groupChildren = [], da_searchQuery = [],
     da_visibleTypes = defaultTypes, da_groupsOnly = False, da_hiddenNodes = []\<rparr>"

text \<open>\<open>setActiveTab\<close> also sets the location hash, to which the browser adds the number sign.\<close>

definition setActiveTab :: "string \<Rightarrow> dag_state \<Rightarrow> dag_state \<times> string" where
  "setActiveTab tab s = (s\<lparr>da_activeTab := tab\<rparr>, CHR ''#'' # tab)"

definition setActiveCatalog :: "string \<Rightarrow> dag_state \<Rightarrow> dag_state" where
  "setActiveCatalog c s = s\<lparr>da_activeCatalog := c\<rparr>"

definition setDagData :: "dag_graph option \<Rightarrow> dag_state \<Rightarrow> dag_state" where
  "setDagData d s = s\<lparr>da_dagData := d\<rparr>"

definition clearDagCache :: "dag_state \<Rightarrow> dag_state" where
  "clearDagCache s = s\<lparr>da_dagCache := [], da_dagData := None, da_dagLoading := False, da_currentKey := None\<rparr>"

definition setSelectedNode :: "dag_node option \<Rightarrow> dag_state \<Rightarrow> dag_state" where
  "setSelectedNode n s = s\<lparr>da_selectedNode := n\<rparr>"

definition setPanelMode :: "panel_mode option \<Rightarrow> dag_state \<Rightarrow> dag_state" where
  "setPanelMode m s = s\<lparr>da_panelMode := m\<rparr>"

definition setGroupChildren :: "dag_node list \<Rightarrow> dag_state \<Rightarrow> dag_state" where
  "setGroupChildren ns s = s\<lparr>da_groupChildren := ns\<rparr>"

definition setSearchQuery :: "string \<Rightarrow> dag_state \<Rightarrow> dag_state" where
  "setSearchQuery q s = s\<lparr>da_searchQuery := q\<rparr>"

definition type_visible :: "bool jsobj \<Rightarrow> string \<Rightarrow> bool" where
  "type_visible m t = nullish (obj_get m t) False"

definition toggleType :: "string \<Rightarrow> dag_state \<Rightarrow> dag_state" where
  "toggleType t s = s\<lparr>da_visibleTypes := obj_set t (\<not> type_visible (da_visibleTypes s) t) (da_visibleTypes s)\<rparr>"

definition setGroupsOnly :: "bool \<Rightarrow> dag_state \<Rightarrow> dag_state" where
  "setGroupsOnly v s = s\<lparr>da_groupsOnly := v\<rparr>"

definition toggleNodeVisibility :: "string \<Rightarrow> dag_state \<Rightarrow> dag_state" where
  "toggleNodeVisibility l s = s\<lparr>da_hiddenNodes := set_toggle l (da_hiddenNodes s)\<rparr>"

definition clearHiddenNodes :: "dag_state \<Rightarrow> dag_state" where
  "clearHiddenNodes s = s\<lparr>da_hiddenNodes := []\<rparr>"

text \<open>The part of \<open>loadDag\<close> before its await: the new state, and whether a fetch is started.\<close>

definition loadDag_start :: "string \<Rightarrow> dag_state \<Rightarrow> dag_state \<times> bool" where
  "loadDag_start key s = (case obj_get (da_dagCache s) key of
      Some cached \<Rightarrow> (s\<lparr>da_currentKey := Some key, da_dagData := Some cached, da_dagLoading := False\<rparr>, False)
    | None \<Rightarrow> (s\<lparr>da_currentKey := Some key, da_dagData := None, da_dagLoading := True\<rparr>, True))"

text \<open>The part after it: the graph, or nothing when the fetch failed or was aborted.\<close>

definition loadDag_settle :: "string \<Rightarrow> dag_graph option \<Rightarrow> dag_state \<Rightarrow> dag_state" where
  "loadDag_settle key res s =
     (if da_currentKey s \<noteq> Some key then s
      else (case res of
          Some data \<Rightarrow> s\<lparr>da_dagCache := obj_set key data (da_dagCache s), da_dagData := Some data,
                         da_dagLoading := False\<rparr>
        | None \<Rightarrow> s\<lparr>da_dagLoading := False\<rparr>))"

section \<open>The store with its fetches\<close>

record dag_run =
  dr_store :: dag_state
  dr_inflight :: "string list"

datatype dag_event =
    LoadDag string
  | Settle nat "dag_graph option"
  | ClearDagCache
  | ToggleType string
  | ToggleNode string
  | SetCatalogEvent string

fun dag_step :: "dag_run \<Rightarrow> dag_event \<Rightarrow> dag_run" where
  "dag_step r (LoadDag key) =
     (case loadDag_start key (dr_store r) of (s', fetch) \<Rightarrow>
        r\<lparr>dr_store := s', dr_inflight := (if fetch then dr_inflight r @ [key] else dr_inflight r)\<rparr>)"
| "dag_step r (Settle i res) =
     (if i < length (dr_inflight r)
      then r\<lparr>dr_store := loadDag_settle (dr_inflight r ! i) res (dr_store r),
             dr_inflight := take i (dr_inflight r) @ drop (Suc i) (dr_inflight r)\<rparr>
      else r)"
| "dag_step r ClearDagCache = r\<lparr>dr_store := clearDagCache (dr_store r)\<rparr>"
| "dag_step r (ToggleType t) = r\<lparr>dr_store := toggleType t (dr_store r)\<rparr>"
| "dag_step r (ToggleNode l) = r\<lparr>dr_store := toggleNodeVisibility l (dr_store r)\<rparr>"
| "dag_step r (SetCatalogEvent c) = r\<lparr>dr_store := setActiveCatalog c (dr_store r)\<rparr>"

definition dag_run_init :: "string \<Rightarrow> dag_run" where
  "dag_run_init hash = \<lparr>dr_store = dag_init hash, dr_inflight = []\<rparr>"

section \<open>Lemmas\<close>

lemma in_remove_nth:
  "x \<in> set xs \<Longrightarrow> x \<noteq> xs ! i \<Longrightarrow> i < length xs \<Longrightarrow> x \<in> set (take i xs @ drop (Suc i) xs)"
  by (metis (no_types) Cons_nth_drop_Suc append_take_drop_id in_set_conv_decomp in_set_conv_nth set_ConsD
      Un_iff set_append)

text \<open>
  The graph shown is the cached graph of the current key, and a spinner is shown only while a fetch
  for the current key is in flight.
\<close>

definition dag_ok :: "dag_run \<Rightarrow> bool" where
  "dag_ok r \<longleftrightarrow> (let s = dr_store r in
     (\<forall>d. da_dagData s = Some d \<longrightarrow> (\<exists>k. da_currentKey s = Some k \<and> obj_get (da_dagCache s) k = Some d))
     \<and> (da_dagLoading s \<longrightarrow> (\<exists>k. da_currentKey s = Some k \<and> k \<in> set (dr_inflight r)) \<and> da_dagData s = None))"

lemma dag_ok_step: "dag_ok r \<Longrightarrow> dag_ok (dag_step r e)"
proof (cases e)
  case (LoadDag key)
  assume "dag_ok r"
  then show ?thesis
    using LoadDag by (cases "obj_get (da_dagCache (dr_store r)) key")
      (auto simp: dag_ok_def loadDag_start_def Let_def)
next
  case (Settle i res)
  assume ok: "dag_ok r"
  show ?thesis
  proof (cases "i < length (dr_inflight r) \<and> da_currentKey (dr_store r) \<noteq> Some (dr_inflight r ! i)")
    case True
    with ok Settle show ?thesis
      by (auto simp: dag_ok_def Let_def loadDag_settle_def dest: in_remove_nth [of _ "dr_inflight r" i])
  next
    case False
    with ok Settle show ?thesis
      by (cases res) (auto simp: dag_ok_def Let_def loadDag_settle_def)
  qed
qed (auto simp: dag_ok_def Let_def clearDagCache_def toggleType_def toggleNodeVisibility_def setActiveCatalog_def)

interpretation dag: machine "dag_run_init hash" dag_step dag_ok for hash
  by unfold_locales (simp add: dag_ok_def dag_run_init_def dag_init_def, rule dag_ok_step)

text \<open>Every cached graph answers a fetch for its key.\<close>

definition answers_ok :: "(string \<Rightarrow> dag_graph \<Rightarrow> bool) \<Rightarrow> dag_run \<Rightarrow> dag_event \<Rightarrow> bool" where
  "answers_ok Q r e = (case e of
      Settle i (Some d) \<Rightarrow> i < length (dr_inflight r) \<longrightarrow> Q (dr_inflight r ! i) d
    | _ \<Rightarrow> True)"

fun all_answers_ok :: "(string \<Rightarrow> dag_graph \<Rightarrow> bool) \<Rightarrow> dag_run \<Rightarrow> dag_event list \<Rightarrow> bool" where
  "all_answers_ok Q r [] = True"
| "all_answers_ok Q r (e # es) = (answers_ok Q r e \<and> all_answers_ok Q (dag_step r e) es)"

definition cache_ok :: "(string \<Rightarrow> dag_graph \<Rightarrow> bool) \<Rightarrow> dag_run \<Rightarrow> bool" where
  "cache_ok Q r \<longleftrightarrow> (\<forall>k d. obj_get (da_dagCache (dr_store r)) k = Some d \<longrightarrow> Q k d)"

lemma cache_ok_step: "cache_ok Q r \<Longrightarrow> answers_ok Q r e \<Longrightarrow> cache_ok Q (dag_step r e)"
  by (cases e) (auto simp: cache_ok_def answers_ok_def loadDag_start_def loadDag_settle_def
      clearDagCache_def toggleType_def toggleNodeVisibility_def setActiveCatalog_def split: option.splits)

lemma cache_ok_run: "cache_ok Q r \<Longrightarrow> all_answers_ok Q r es \<Longrightarrow> cache_ok Q (foldl dag_step r es)"
  by (induction es arbitrary: r) (auto simp: cache_ok_step)

text \<open>The two toggles of the store are sets of keys.\<close>

interpretation type_toggle: toggle_set toggleType "\<lambda>s t. type_visible (da_visibleTypes s) t"
  by unfold_locales (simp add: toggleType_def type_visible_def)

interpretation node_toggle: toggle_set toggleNodeVisibility "\<lambda>s l. l \<in> set (da_hiddenNodes s)"
  by unfold_locales (auto simp: toggleNodeVisibility_def js_set.mem_toggle)

section \<open>Properties\<close>

text \<open>
  C6. Stale answers never reach the graph view. In every run, if each successful fetch for a key answers
  with a graph of that key, the graph shown is a graph of the current key, whatever order the
  overlapping fetches settle in; and a spinner is shown only while a fetch for the current key is in
  flight and no graph is shown.
\<close>

theorem dag_shows_current:
  assumes "all_answers_ok Q (dag_run_init hash) es"
  shows "case foldl dag_step (dag_run_init hash) es of r \<Rightarrow>
    (case da_dagData (dr_store r) of None \<Rightarrow> True
      | Some d \<Rightarrow> (case da_currentKey (dr_store r) of None \<Rightarrow> False | Some k \<Rightarrow> Q k d))
    \<and> (if da_dagLoading (dr_store r)
       then da_dagData (dr_store r) = None \<and> (case da_currentKey (dr_store r) of None \<Rightarrow> False
         | Some k \<Rightarrow> k \<in> set (dr_inflight r)) else True)"
proof -
  let ?r = "foldl dag_step (dag_run_init hash) es"
  have "dag_ok ?r" by (rule dag.inv_run)
  moreover have "cache_ok Q ?r"
    by (rule cache_ok_run [OF _ assms]) (simp add: cache_ok_def dag_run_init_def dag_init_def)
  ultimately show ?thesis
    by (auto simp: dag_ok_def cache_ok_def Let_def split: option.splits)
qed

definition empty_graph :: dag_graph where
  "empty_graph = \<lparr>dg_nodes = [], dg_edges = []\<rparr>"

definition node_graph :: "string \<Rightarrow> dag_graph" where
  "node_graph i = \<lparr>dg_nodes = [\<lparr>dn_id = i, dn_label = i, dn_type = ''catalog'', dn_color = None,
     dn_node_role = None, dn_metadata = None\<rparr>], dg_edges = []\<rparr>"

lemma dag_shows_current_witness:
  "da_dagData (dr_store (foldl dag_step (dag_run_init [])
     [LoadDag ''a'', LoadDag ''b'', Settle 1 (Some (node_graph ''b'')), Settle 0 (Some (node_graph ''a''))]))
   = Some (node_graph ''b'')
   \<and> node_graph ''b'' \<noteq> node_graph ''a''"
proof -
  let ?es = "[LoadDag ''a'', LoadDag ''b'', Settle 1 (Some (node_graph ''b'')), Settle 0 (Some (node_graph ''a''))]"
  let ?Q = "\<lambda>k d. d = node_graph k"
  have "all_answers_ok ?Q (dag_run_init []) ?es"
    by (simp add: answers_ok_def dag_run_init_def dag_init_def loadDag_start_def loadDag_settle_def)
  from dag_shows_current [OF this]
  have "case da_dagData (dr_store (foldl dag_step (dag_run_init []) ?es)) of None \<Rightarrow> True
      | Some d \<Rightarrow> (case da_currentKey (dr_store (foldl dag_step (dag_run_init []) ?es)) of None \<Rightarrow> False
          | Some k \<Rightarrow> d = node_graph k)"
    by simp
  then show ?thesis
    by (simp add: dag_run_init_def dag_init_def loadDag_start_def loadDag_settle_def node_graph_def)
qed

text \<open>
  The key alone does not tell two fetches for the same key apart: a failure of the first one clears
  the spinner although the second is still in flight.
\<close>

lemma spinner_cleared_early:
  "(let r = foldl dag_step (dag_run_init []) [LoadDag ''a'', LoadDag ''b'', LoadDag ''a'', Settle 0 None]
    in \<not> da_dagLoading (dr_store r) \<and> da_dagData (dr_store r) = None \<and> ''a'' \<in> set (dr_inflight r))"
  by code_simp

end
