(* ===== verification/Dag_Nodes.thy ===== *)
theory Dag_Nodes
  imports Grant_Helpers Js_View
begin

text \<open>
  The nodes and edges of the graph views before the layout: \<open>components/dag/nodeIcons.ts\<close>, the
  filters and the mapping of \<open>useDagLayoutSync.ts\<close>, and the two node components. The SVG texts
  are files that the build inlines: they are the parameter \<open>svg\<close>.
\<close>

section \<open>Colours and icons (nodeIcons.ts)\<close>

definition ICON_TYPES :: "string list" where
  "ICON_TYPES = [''system'', ''catalog'', ''database'', ''table'', ''view'', ''mv'', ''function'', ''user'',
     ''role'', ''info'', ''warning'', ''refresh'', ''close'']"

definition NODE_SVG_RAW :: "(string \<Rightarrow> string) \<Rightarrow> string jsobj" where
  "NODE_SVG_RAW svg = map (\<lambda>t. (t, svg t)) ICON_TYPES"

definition NODE_COLORS :: "string jsobj" where
  "NODE_COLORS = [(''system'', ''#6b7280''), (''catalog'', ''#3b82f6''), (''database'', ''#22c55e''),
     (''table'', ''#6366f1''), (''view'', ''#a855f7''), (''mv'', ''#f59e0b''), (''function'', ''#14b8a6''),
     (''user'', ''#0ea5e9''), (''role'', ''#f97316''), (''info'', ''#3b82f6''), (''warning'', ''#f59e0b''),
     (''refresh'', ''#94a3b8''), (''close'', ''#94a3b8'')]"

definition ROLE_CATEGORY_COLORS :: "string jsobj" where
  "ROLE_CATEGORY_COLORS = [(''root'', ''#ef4444''), (''builtin'', ''#6366f1''), (''custom'', ''#f97316'')]"

definition EDGE_COLORS :: "string jsobj" where
  "EDGE_COLORS = [(''hierarchy'', ''#475569''), (''assignment'', ''#0ea5e9''), (''inheritance'', ''#f97316''),
     (''select'', ''#22c55e''), (''insert'', ''#3b82f6''), (''delete'', ''#ef4444''), (''alter'', ''#a855f7''),
     (''drop'', ''#dc2626''), (''usage'', ''#64748b''), (''update'', ''#f59e0b'')]"

definition dquote :: char where
  "dquote = CHR 0x22"

text \<open>\<open>/stroke="[^"]*"/g\<close> and \<open>/fill="(?!none)[^"]*"/g\<close>\<close>

definition STROKE_RE :: re where
  "STROKE_RE = re_seq [lits ''stroke='', lit dquote, Star (\<lambda>c. c \<noteq> dquote), lit dquote]"

definition FILL_RE :: re where
  "FILL_RE = re_seq [lits ''fill='', lit dquote, NotAhead (lits ''none''), Star (\<lambda>c. c \<noteq> dquote), lit dquote]"

definition attr_text :: "string \<Rightarrow> string \<Rightarrow> string" where
  "attr_text a v = a @ ''='' @ dquote # v @ [dquote]"

definition recolor :: "string \<Rightarrow> string \<Rightarrow> string" where
  "recolor color raw =
     re_replace_all FILL_RE (attr_text ''fill'' color) (re_replace_all STROKE_RE (attr_text ''stroke'' color) raw)"

definition svg_color :: "string \<Rightarrow> string option \<Rightarrow> string" where
  "svg_color type overrideColor = or_else overrideColor (or_else (obj_get NODE_COLORS type) ''#6b7280'')"

text \<open>The call with the module's cache: the cache after it and the result.\<close>

definition colorizedSvg ::
  "(string \<Rightarrow> string) \<Rightarrow> string jsobj \<Rightarrow> string \<Rightarrow> string option \<Rightarrow> string jsobj \<times> string" where
  "colorizedSvg svg cache type overrideColor =
     (let color = svg_color type overrideColor; cacheKey = type @ '':'' @ color in
      case obj_get cache cacheKey of
        Some r \<Rightarrow> (cache, r)
      | None \<Rightarrow>
          (case obj_get (NODE_SVG_RAW svg) type of
             Some raw \<Rightarrow> (if raw = [] then (obj_set cacheKey [] cache, [])
               else (obj_set cacheKey (recolor color raw) cache, recolor color raw))
           | None \<Rightarrow> (obj_set cacheKey [] cache, [])))"

section \<open>Nodes and edges of the renderer (useDagLayoutSync.ts)\<close>

record rf_node =
  rn_id :: string
  rn_type :: string
  rn_x :: rat
  rn_y :: rat
  rn_label :: string
  rn_nodeType :: string
  rn_nodeRole :: "string option"
  rn_color :: "string option"
  rn_container :: "(rat \<times> rat) option"
  rn_parentId :: "string option"
  rn_opacity :: "rat option"

record rf_edge =
  re_id :: string
  re_source :: string
  re_target :: string
  re_hidden :: bool
  re_stroke :: string
  re_strokeWidth :: nat
  re_dashed :: bool
  re_marker :: "string option"
  re_opacity :: "rat option"

definition meta_get :: "dag_node \<Rightarrow> string \<Rightarrow> string option" where
  "meta_get n k = Option.bind (dn_metadata n) (\<lambda>m. obj_get m k)"

definition type_shown :: "bool jsobj \<Rightarrow> string \<Rightarrow> bool" where
  "type_shown visibleTypes t = nullish (obj_get visibleTypes t) False"

definition node_visible :: "bool jsobj \<Rightarrow> bool \<Rightarrow> string list \<Rightarrow> dag_node \<Rightarrow> bool" where
  "node_visible visibleTypes groupsOnly hiddenNodes n =
     (if \<not> type_shown visibleTypes (dn_type n) then False
      else if groupsOnly \<and> dn_node_role n \<noteq> Some ''group''
        \<and> dn_type n \<notin> set [''system'', ''catalog'', ''database''] then False
      else if hiddenNodes \<noteq> [] then
        (if dn_label n \<in> set hiddenNodes then False
         else let db = meta_get n ''database''; cat = meta_get n ''catalog'' in
           if truthy db \<and> the db \<in> set hiddenNodes then False
           else if truthy cat \<and> the cat \<in> set hiddenNodes then False
           else True)
      else True)"

definition visible_nodes :: "dag_graph \<Rightarrow> bool jsobj \<Rightarrow> bool \<Rightarrow> string list \<Rightarrow> dag_node list" where
  "visible_nodes data visibleTypes groupsOnly hiddenNodes =
     filter (node_visible visibleTypes groupsOnly hiddenNodes) (dg_nodes data)"

definition visible_edges :: "dag_graph \<Rightarrow> dag_node list \<Rightarrow> dag_edge list" where
  "visible_edges data nodes =
     filter (\<lambda>e. de_source e \<in> set (map dn_id nodes) \<and> de_target e \<in> set (map dn_id nodes)) (dg_edges data)"

definition node_color :: "dag_node \<Rightarrow> string option" where
  "node_color n =
     (if truthy (dn_color n) then dn_color n
      else let c = (if dn_type n = ''role'' \<and> truthy (meta_get n ''role_category'')
                    then obj_get ROLE_CATEGORY_COLORS (the (meta_get n ''role_category'')) else None)
           in if truthy c then c else obj_get NODE_COLORS (dn_type n))"

definition rf_node_of :: "dag_node \<Rightarrow> rf_node" where
  "rf_node_of n = \<lparr>rn_id = dn_id n, rn_type = ''custom'', rn_x = 0, rn_y = 0, rn_label = dn_label n,
     rn_nodeType = dn_type n, rn_nodeRole = dn_node_role n, rn_color = node_color n,
     rn_container = None, rn_parentId = None, rn_opacity = None\<rparr>"

definition group_child_edges :: "dag_node list \<Rightarrow> dag_edge list \<Rightarrow> string list" where
  "group_child_edges nodes edges =
     (let groupNodeIds = map dn_id (filter (\<lambda>n. dn_node_role n = Some ''group'') nodes)
      in map de_id (filter (\<lambda>e. de_source e \<in> set groupNodeIds) edges))"

definition edge_color :: "dag_edge \<Rightarrow> string" where
  "edge_color e = or_else (obj_get EDGE_COLORS (de_edge_type e)) (nullish (obj_get C_palette ''borderLight'') [])"

definition rf_edge_of :: "string list \<Rightarrow> dag_edge \<Rightarrow> rf_edge" where
  "rf_edge_of groupChild e =
     (let isGroupChild = de_id e \<in> set groupChild in
      \<lparr>re_id = de_id e, re_source = de_source e, re_target = de_target e, re_hidden = isGroupChild,
       re_stroke = edge_color e, re_strokeWidth = 2,
       re_dashed = (de_edge_type e = ''hierarchy'' \<or> de_edge_type e = ''usage''),
       re_marker = (if isGroupChild then None else Some (edge_color e)), re_opacity = None\<rparr>)"

definition rf_input ::
  "dag_graph \<Rightarrow> bool jsobj \<Rightarrow> bool \<Rightarrow> string list \<Rightarrow> rf_node list \<times> rf_edge list" where
  "rf_input data visibleTypes groupsOnly hiddenNodes =
     (let ns = visible_nodes data visibleTypes groupsOnly hiddenNodes; es = visible_edges data ns
      in (map rf_node_of ns, map (rf_edge_of (group_child_edges ns es)) es))"

section \<open>The node components (CustomNode.tsx, GroupNode.tsx)\<close>

text \<open>\<open>/^'?([^'@]+)'?@/\<close>\<close>

definition NODE_LABEL_RE :: re where
  "NODE_LABEL_RE = re_seq [Bos, Opt (lit quote), Cap 1 (plus (\<lambda>c. c \<noteq> quote \<and> c \<noteq> CHR ''@'')),
     Opt (lit quote), lit CHR ''@'']"

definition formatNodeLabel :: "string \<Rightarrow> string \<Rightarrow> string" where
  "formatNodeLabel label nodeType =
     (if nodeType = ''user'' then
        (case re_search NODE_LABEL_RE label of Some (_, _, _, cs) \<Rightarrow> capture 1 cs | None \<Rightarrow> label)
      else label)"

definition WIDTH_RE :: re where
  "WIDTH_RE = re_seq [lits ''width='', lit dquote, Star (\<lambda>c. c \<noteq> dquote), lit dquote]"

definition HEIGHT_RE :: re where
  "HEIGHT_RE = re_seq [lits ''height='', lit dquote, Star (\<lambda>c. c \<noteq> dquote), lit dquote]"

definition resize_svg :: "string \<Rightarrow> string \<Rightarrow> string" where
  "resize_svg px raw = re_replace HEIGHT_RE (attr_text ''height'' px) (re_replace WIDTH_RE (attr_text ''width'' px) raw)"

definition FIXED_W :: rat where
  "FIXED_W = 168"

definition shown_color :: "rf_node \<Rightarrow> string" where
  "shown_color n = or_else (rn_color n) (or_else (obj_get NODE_COLORS (rn_nodeType n)) ''#6b7280'')"

definition CustomNode :: "(string \<Rightarrow> string) \<Rightarrow> rf_node \<Rightarrow> unit node" where
  "CustomNode svg n =
     (let svgHtml = snd (colorizedSvg svg [] (rn_nodeType n) (Some (shown_color n)))
      in box (show_if (svgHtml \<noteq> []) [El ''span'' [] [] [Txt (resize_svg ''20'' svgHtml)]]
           @ [Txt (formatNodeLabel (rn_label n) (rn_nodeType n))]))"

definition container_of :: "rf_node \<Rightarrow> rat \<times> rat" where
  "container_of n = (case rn_container n of
      None \<Rightarrow> (200, 100)
    | Some (w, h) \<Rightarrow> (if w = 0 then 200 else w, if h = 0 then 100 else h))"

definition GroupNode :: "(string \<Rightarrow> string) \<Rightarrow> rf_node \<Rightarrow> unit node" where
  "GroupNode svg n =
     (let s = snd (colorizedSvg svg [] (rn_nodeType n) (Some (shown_color n)))
      in box (show_if (s \<noteq> []) [El ''span'' [] [] [Txt (resize_svg ''16'' s)]] @ [Txt (rn_label n)]))"

section \<open>Lemmas\<close>

text \<open>The edges drawn connect nodes that are drawn.\<close>

lemma no_edge_to_hidden:
  "e \<in> set (snd (rf_input data vt go hn)) \<Longrightarrow>
     re_source e \<in> rn_id ` set (fst (rf_input data vt go hn))
     \<and> re_target e \<in> rn_id ` set (fst (rf_input data vt go hn))"
  by (auto simp: rf_input_def Let_def visible_edges_def rf_edge_of_def rf_node_of_def image_image)

text \<open>What the filters hide.\<close>

lemma node_visible_iff:
  "node_visible vt go hn n \<longleftrightarrow> type_shown vt (dn_type n)
     \<and> (go \<longrightarrow> dn_node_role n = Some ''group'' \<or> dn_type n \<in> {''system'', ''catalog'', ''database''})
     \<and> dn_label n \<notin> set hn
     \<and> (\<forall>d. d \<noteq> [] \<longrightarrow> meta_get n ''database'' = Some d \<longrightarrow> d \<notin> set hn)
     \<and> (\<forall>c. c \<noteq> [] \<longrightarrow> meta_get n ''catalog'' = Some c \<longrightarrow> c \<notin> set hn)"
  by (auto simp: node_visible_def Let_def truthy_iff)

end
