(* ===== verification/Dag_Highlight.thy ===== *)
theory Dag_Highlight
  imports Dag_Nodes
begin

text \<open>
  \<open>components/dag/useDagHighlight.ts\<close>: the nodes connected to the clicked node are found by two
  breadth-first searches over the edges, down to the descendants and up to the ancestors, which share
  one set of visited nodes; the others are dimmed.
\<close>

section \<open>Definitions\<close>

type_synonym adjacency = "string list jsobj"

definition children_map :: "dag_edge list \<Rightarrow> adjacency" where
  "children_map es = foldl (\<lambda>m e. obj_push (de_source e) (de_target e) m) [] es"

definition parents_map :: "dag_edge list \<Rightarrow> adjacency" where
  "parents_map es = foldl (\<lambda>m e. obj_push (de_target e) (de_source e) m) [] es"

text \<open>The inner loop: unseen neighbours are marked and queued.\<close>

definition visit :: "string list \<times> string list \<Rightarrow> string \<Rightarrow> string list \<times> string list" where
  "visit acc c = (let (ids, queue) = acc in if c \<in> set ids then acc else (ids @ [c], queue @ [c]))"

lemma visit_fold:
  "\<exists>new. foldl visit (ids, queue) cs = (ids @ new, queue @ new) \<and> distinct new
     \<and> set new = set cs - set ids"
proof (induction cs arbitrary: ids queue)
  case Nil
  then show ?case by simp
next
  case (Cons c cs)
  show ?case
  proof (cases "c \<in> set ids")
    case True
    then have "foldl visit (ids, queue) (c # cs) = foldl visit (ids, queue) cs"
      and "set (c # cs) - set ids = set cs - set ids" by (auto simp: visit_def)
    with Cons.IH [of ids queue] show ?thesis by simp
  next
    case False
    obtain new where
      n: "foldl visit (ids @ [c], queue @ [c]) cs = ((ids @ [c]) @ new, (queue @ [c]) @ new)"
      "distinct new" "set new = set cs - set (ids @ [c])"
      using Cons.IH [of "ids @ [c]" "queue @ [c]"] by blast
    from False n(1) have "foldl visit (ids, queue) (c # cs) = (ids @ (c # new), queue @ (c # new))"
      by (simp add: visit_def)
    moreover have "distinct (c # new)" "set (c # new) = set (c # cs) - set ids"
      using False n(2,3) by auto
    ultimately show ?thesis by blast
  qed
qed

definition values_of :: "adjacency \<Rightarrow> string set" where
  "values_of adj = (\<Union>p \<in> set adj. set (snd p))"

lemma bucket_values: "set (obj_bucket adj n) \<subseteq> values_of adj"
proof (cases "obj_get adj n")
  case (Some xs)
  then have "(n, xs) \<in> set adj" by (rule obj_get_Some_in)
  with Some show ?thesis by (force simp: obj_bucket_def values_of_def)
qed (simp add: obj_bucket_def)

lemma finite_values [simp]: "finite (values_of adj)"
  by (simp add: values_of_def)

function bfs :: "adjacency \<Rightarrow> string list \<Rightarrow> string list \<Rightarrow> string list" where
  "bfs adj [] ids = ids"
| "bfs adj (n # queue) ids =
     (case foldl visit (ids, queue) (obj_bucket adj n) of (ids', queue') \<Rightarrow> bfs adj queue' ids')"
  by pat_completeness auto
termination
proof (relation "measure (\<lambda>(adj, queue, ids). 2 * card (values_of adj - set ids) + length queue)")
  fix adj :: adjacency and n queue ids ids' queue'
  assume x: "(ids', queue') = foldl visit (ids, queue) (obj_bucket adj n)"
  obtain new where new: "foldl visit (ids, queue) (obj_bucket adj n) = (ids @ new, queue @ new)"
    "distinct new" "set new = set (obj_bucket adj n) - set ids"
    using visit_fold by blast
  with x have ids': "ids' = ids @ new" "queue' = queue @ new" by simp_all
  have sub: "set new \<subseteq> values_of adj - set ids" using new(3) bucket_values [of adj n] by blast
  have eq: "values_of adj - set ids' = (values_of adj - set ids) - set new" unfolding ids' by auto
  have "card (set new) \<le> card (values_of adj - set ids)"
    using sub by (intro card_mono) simp_all
  moreover have "card ((values_of adj - set ids) - set new) = card (values_of adj - set ids) - card (set new)"
    using sub by (intro card_Diff_subset) simp_all
  ultimately have "card (values_of adj - set ids) = card (values_of adj - set ids') + length new"
    unfolding eq distinct_card [OF new(2)] by linarith
  then have "2 * card (values_of adj - set ids') + length queue'
      < 2 * card (values_of adj - set ids) + length (n # queue)"
    unfolding ids' by simp
  then show "((adj, queue', ids'), adj, n # queue, ids)
      \<in> measure (\<lambda>(adj, queue, ids). 2 * card (values_of adj - set ids) + length queue)"
    by simp
qed simp

declare bfs.simps(2) [simp del]

definition connectedIds :: "string option \<Rightarrow> dag_graph option \<Rightarrow> string list" where
  "connectedIds clicked data = (case (clicked, data) of
      (Some c, Some d) \<Rightarrow> (if c = [] then []
        else bfs (parents_map (dg_edges d)) [c] (bfs (children_map (dg_edges d)) [c] [c]))
    | _ \<Rightarrow> [])"

text \<open>The clicked node follows the sidebar's selection.\<close>

definition sync_clicked :: "dag_node option \<Rightarrow> dag_graph option \<Rightarrow> string option \<Rightarrow> string option" where
  "sync_clicked selectedNode data clicked = (case (selectedNode, data) of
      (Some sel, Some d) \<Rightarrow>
        (case find (\<lambda>n. dn_label n = dn_label sel \<and> dn_type n = dn_type sel) (dg_nodes d) of
           Some m \<Rightarrow> Some (dn_id m) | None \<Rightarrow> clicked)
    | _ \<Rightarrow> clicked)"

definition filteredNodes :: "string option \<Rightarrow> string list \<Rightarrow> rf_node list \<Rightarrow> rf_node list" where
  "filteredNodes clicked ids nodes =
     map (\<lambda>n. n\<lparr>rn_opacity := Some (if clicked \<noteq> None \<and> rn_id n \<notin> set ids then 15 / 100 else 1)\<rparr>) nodes"

definition filteredEdges :: "string option \<Rightarrow> string list \<Rightarrow> rf_edge list \<Rightarrow> rf_edge list" where
  "filteredEdges clicked ids edges =
     map (\<lambda>e. let highlighted = re_source e \<in> set ids \<and> re_target e \<in> set ids;
                  dimmed = clicked \<noteq> None \<and> \<not> highlighted
              in e\<lparr>re_strokeWidth := (if highlighted \<and> truthy clicked then 3 else 2),
                   re_opacity := Some (if dimmed then 1 / 10 else 1)\<rparr>) edges"

section \<open>The searches\<close>

definition edge_rel :: "dag_edge list \<Rightarrow> (string \<times> string) set" where
  "edge_rel es = (\<lambda>e. (de_source e, de_target e)) ` set es"

definition adj_rel :: "adjacency \<Rightarrow> (string \<times> string) set" where
  "adj_rel adj = {(x, y). y \<in> set (obj_bucket adj x)}"

lemma adj_children: "adj_rel (children_map es) = edge_rel es"
  unfolding adj_rel_def children_map_def js_groups.bucket_fold by (auto simp: edge_rel_def)

lemma adj_parents: "adj_rel (parents_map es) = (edge_rel es)\<inverse>"
  unfolding adj_rel_def parents_map_def js_groups.bucket_fold by (force simp: edge_rel_def)

text \<open>Steps that enter unseen nodes only.\<close>

definition fresh :: "('a \<times> 'a) set \<Rightarrow> 'a set \<Rightarrow> ('a \<times> 'a) set" where
  "fresh E S = {(x, y) \<in> E. y \<notin> S}"

lemma fresh_step:
  assumes "n \<in> S" and "N = E `` {n} - S"
  shows "S \<union> (fresh E S)\<^sup>* `` insert n Q = S \<union> N \<union> (fresh E (S \<union> N))\<^sup>* `` (Q \<union> N)"
proof (intro subset_antisym subsetI)
  fix y assume "y \<in> S \<union> (fresh E S)\<^sup>* `` insert n Q"
  moreover have "(x, y) \<in> (fresh E S)\<^sup>* \<Longrightarrow> x \<in> insert n Q \<Longrightarrow>
      y \<in> {n} \<union> N \<union> (fresh E (S \<union> N))\<^sup>* `` (Q \<union> N)" for x
  proof (induction rule: rtrancl_induct)
    case base
    then show ?case by auto
  next
    case (step y z)
    then have yz: "(y, z) \<in> E" "z \<notin> S" by (auto simp: fresh_def)
    show ?case
    proof (cases "z \<in> N")
      case False
      with yz assms have "y \<noteq> n" and f: "(y, z) \<in> fresh E (S \<union> N)" by (auto simp: fresh_def)
      with step have "y \<in> N \<union> (fresh E (S \<union> N))\<^sup>* `` (Q \<union> N)" by auto
      then obtain q where "q \<in> Q \<union> N" "(q, y) \<in> (fresh E (S \<union> N))\<^sup>*" by auto
      with f show ?thesis by (auto intro: rtrancl_into_rtrancl)
    qed simp
  qed
  ultimately show "y \<in> S \<union> N \<union> (fresh E (S \<union> N))\<^sup>* `` (Q \<union> N)" using assms(1) by auto
next
  fix y assume y: "y \<in> S \<union> N \<union> (fresh E (S \<union> N))\<^sup>* `` (Q \<union> N)"
  have mono: "(fresh E (S \<union> N))\<^sup>* \<subseteq> (fresh E S)\<^sup>*"
    by (rule rtrancl_mono) (auto simp: fresh_def)
  have N: "x \<in> N \<Longrightarrow> (n, x) \<in> (fresh E S)\<^sup>*" for x
    using assms(2) by (auto simp: fresh_def)
  from y consider "y \<in> S" | "y \<in> N" | q where "q \<in> Q \<union> N" "(q, y) \<in> (fresh E (S \<union> N))\<^sup>*" by auto
  then show "y \<in> S \<union> (fresh E S)\<^sup>* `` insert n Q"
  proof cases
    case 3
    then have "(q, y) \<in> (fresh E S)\<^sup>*" using mono by auto
    with 3(1) N show ?thesis by (auto intro: rtrancl_trans)
  qed (use N in auto)
qed

lemma bfs_correct:
  "set queue \<subseteq> set ids \<Longrightarrow>
   set (bfs adj queue ids) = set ids \<union> (fresh (adj_rel adj) (set ids))\<^sup>* `` set queue"
proof (induction adj queue ids rule: bfs.induct)
  case (1 adj ids)
  then show ?case by simp
next
  case (2 adj n queue ids)
  obtain new where new: "foldl visit (ids, queue) (obj_bucket adj n) = (ids @ new, queue @ new)"
    "set new = set (obj_bucket adj n) - set ids"
    using visit_fold [of ids queue "obj_bucket adj n"] by auto
  have "set (bfs adj (queue @ new) (ids @ new))
      = set (ids @ new) \<union> (fresh (adj_rel adj) (set (ids @ new)))\<^sup>* `` set (queue @ new)"
    using 2 new(1) by auto
  moreover have "set new = adj_rel adj `` {n} - set ids" using new(2) by (auto simp: adj_rel_def)
  ultimately show ?case
    using 2 new fresh_step [of n "set ids" "set new" "adj_rel adj" "set queue"] by (simp add: bfs.simps(2))
qed

lemma distinct_bfs: "distinct ids \<Longrightarrow> distinct (bfs adj queue ids)"
proof (induction adj queue ids rule: bfs.induct)
  case (2 adj n queue ids)
  obtain new where "foldl visit (ids, queue) (obj_bucket adj n) = (ids @ new, queue @ new)"
    "distinct new" "set new = set (obj_bucket adj n) - set ids"
    using visit_fold [of ids queue "obj_bucket adj n"] by auto
  with 2 show ?case by (auto simp: bfs.simps(2))
qed simp

lemma fresh_self: "insert c ((fresh E {c})\<^sup>* `` {c}) = E\<^sup>* `` {c}"
proof -
  have "(c, y) \<in> E\<^sup>* \<Longrightarrow> (c, y) \<in> (fresh E {c})\<^sup>*" for y
  proof (induction rule: rtrancl_induct)
    case (step y z)
    then show ?case
      by (cases "z = c") (auto simp: fresh_def intro: rtrancl_into_rtrancl)
  qed simp
  moreover have "(fresh E {c})\<^sup>* \<subseteq> E\<^sup>*" by (rule rtrancl_mono) (auto simp: fresh_def)
  ultimately show ?thesis by auto
qed

lemma fresh_ancestors:
  assumes "acyclic E"
  shows "(fresh (E\<inverse>) (E\<^sup>* `` {c}))\<^sup>* `` {c} = (E\<inverse>)\<^sup>* `` {c}"
proof (intro subset_antisym subsetI)
  fix y assume "y \<in> (E\<inverse>)\<^sup>* `` {c}"
  then have "(c, y) \<in> (E\<inverse>)\<^sup>*" by simp
  then have "(c, y) \<in> (fresh (E\<inverse>) (E\<^sup>* `` {c}))\<^sup>*"
  proof (induction rule: rtrancl_induct)
    case (step y z)
    have "(y, c) \<in> E\<^sup>*" using step(1) by (simp add: rtrancl_converse)
    with step(2) have "(z, c) \<in> E\<^sup>+" by auto
    then have "(c, z) \<notin> E\<^sup>*" using assms by (meson acyclic_def rtrancl_trancl_trancl)
    with step show ?case by (auto simp: fresh_def intro: rtrancl_into_rtrancl)
  qed simp
  then show "y \<in> (fresh (E\<inverse>) (E\<^sup>* `` {c}))\<^sup>* `` {c}" by simp
next
  fix y assume "y \<in> (fresh (E\<inverse>) (E\<^sup>* `` {c}))\<^sup>* `` {c}"
  moreover have "(fresh (E\<inverse>) (E\<^sup>* `` {c}))\<^sup>* \<subseteq> (E\<inverse>)\<^sup>*" by (rule rtrancl_mono) (auto simp: fresh_def)
  ultimately show "y \<in> (E\<inverse>)\<^sup>* `` {c}" by auto
qed

lemma set_connectedIds:
  assumes "c \<noteq> []"
  shows "set (connectedIds (Some c) (Some d)) = (let E = edge_rel (dg_edges d); D = E\<^sup>* `` {c} in
    D \<union> (fresh (E\<inverse>) D)\<^sup>* `` {c})"
proof -
  have D: "set (bfs (children_map (dg_edges d)) [c] [c]) = (edge_rel (dg_edges d))\<^sup>* `` {c}"
    using bfs_correct [of "[c]" "[c]" "children_map (dg_edges d)"] fresh_self [of c "edge_rel (dg_edges d)"]
    by (simp add: adj_children)
  then have "set [c] \<subseteq> set (bfs (children_map (dg_edges d)) [c] [c])" by simp
  from bfs_correct [OF this, of "parents_map (dg_edges d)"] D assms
  show ?thesis by (simp add: connectedIds_def adj_parents Let_def)
qed

section \<open>Properties\<close>

text \<open>
  C8. On a graph without cycles the highlighted nodes are exactly the clicked node with all its
  descendants and all its ancestors, each once; both searches terminate on every graph.
\<close>

theorem highlight_is_lineage:
  assumes "acyclic (edge_rel (dg_edges d))" and "c \<noteq> []"
  shows "set (connectedIds (Some c) (Some d))
      = (edge_rel (dg_edges d))\<^sup>* `` {c} \<union> ((edge_rel (dg_edges d))\<inverse>)\<^sup>* `` {c}
    \<and> distinct (connectedIds (Some c) (Some d))"
proof
  show "set (connectedIds (Some c) (Some d))
      = (edge_rel (dg_edges d))\<^sup>* `` {c} \<union> ((edge_rel (dg_edges d))\<inverse>)\<^sup>* `` {c}"
    using set_connectedIds [OF assms(2), of d] fresh_ancestors [OF assms(1), of c] by (simp add: Let_def)
  show "distinct (connectedIds (Some c) (Some d))"
    using assms(2) by (simp add: connectedIds_def distinct_bfs)
qed

definition edge :: "string \<Rightarrow> string \<Rightarrow> dag_edge" where
  "edge a b = \<lparr>de_id = a @ ''-'' @ b, de_source = a, de_target = b, de_edge_type = ''hierarchy''\<rparr>"

lemma highlight_is_lineage_witness:
  "{''a'', ''b'', ''c''} \<subseteq> set (connectedIds (Some ''b'')
     (Some \<lparr>dg_nodes = [], dg_edges = [edge ''a'' ''b'', edge ''b'' ''c'', edge ''a'' ''d'']\<rparr>))"
proof -
  let ?d = "\<lparr>dg_nodes = [], dg_edges = [edge ''a'' ''b'', edge ''b'' ''c'', edge ''a'' ''d'']\<rparr>"
  let ?rank = "\<lambda>s :: string. if s = ''a'' then 0 else if s = ''b'' then 1 else 2 :: nat"
  have E: "edge_rel (dg_edges ?d) = {(''a'', ''b''), (''b'', ''c''), (''a'', ''d'')}"
    by (simp add: edge_rel_def edge_def)
  then have "edge_rel (dg_edges ?d) \<subseteq> measure ?rank" by simp
  then have ac: "acyclic (edge_rel (dg_edges ?d))" by (meson acyclic_subset wf_acyclic wf_measure)
  have "(''b'', ''c'') \<in> (edge_rel (dg_edges ?d))\<^sup>*" "(''b'', ''a'') \<in> ((edge_rel (dg_edges ?d))\<inverse>)\<^sup>*"
    unfolding E by (rule r_into_rtrancl, simp)+
  then show ?thesis
    unfolding highlight_is_lineage [OF ac, of "''b''", THEN conjunct1, simplified] by simp
qed

text \<open>
  The searches share one visited set, so with a cycle through the clicked node an ancestor behind a
  descendant is missed and dimmed: here \<open>e\<close> reaches \<open>c\<close> through \<open>d\<close>.
\<close>

lemma cycle_hides_ancestor:
  "connectedIds (Some ''c'') (Some \<lparr>dg_nodes = [],
     dg_edges = [edge ''c'' ''d'', edge ''d'' ''c'', edge ''e'' ''d'']\<rparr>) = [''c'', ''d'']"
  by code_simp

text \<open>
  What is dimmed: a node when something is clicked and the node is not connected to it, an edge when
  one of its ends is not; nodes and edges keep their place and identity.
\<close>

theorem dimmed_iff:
  "map rn_id (filter (\<lambda>n. rn_opacity n = Some 1) (filteredNodes clicked ids nodes))
     = map rn_id (filter (\<lambda>n. clicked = None \<or> rn_id n \<in> set ids) nodes)
   \<and> map re_id (filter (\<lambda>e. re_opacity e = Some 1) (filteredEdges clicked ids edges))
     = map re_id (filter (\<lambda>e. clicked = None \<or> (re_source e \<in> set ids \<and> re_target e \<in> set ids)) edges)
   \<and> map rn_id (filteredNodes clicked ids nodes) = map rn_id nodes
   \<and> map re_id (filteredEdges clicked ids edges) = map re_id edges"
proof (intro conjI)
  show "map rn_id (filter (\<lambda>n. rn_opacity n = Some 1) (filteredNodes clicked ids nodes))
      = map rn_id (filter (\<lambda>n. clicked = None \<or> rn_id n \<in> set ids) nodes)"
    by (induction nodes) (auto simp: filteredNodes_def)
  show "map re_id (filter (\<lambda>e. re_opacity e = Some 1) (filteredEdges clicked ids edges))
      = map re_id (filter (\<lambda>e. clicked = None \<or> (re_source e \<in> set ids \<and> re_target e \<in> set ids)) edges)"
    by (induction edges) (auto simp: filteredEdges_def Let_def)
qed (simp_all add: filteredNodes_def filteredEdges_def Let_def comp_def)

end
