(* ===== verification/Dag_Layout.thy ===== *)
theory Dag_Layout
  imports Dag_Highlight
begin

text \<open>
  \<open>components/dag/dagLayout.ts\<close> and \<open>buildDagLayout\<close> of \<open>useDagLayoutSync.ts\<close>. The layout
  engine \<open>@dagrejs/dagre\<close> is the parameter \<open>dagre\<close>: from a graph with the sizes of its nodes to
  the centre of each node. The placed nodes are mutable objects shared between the list of placed
  nodes, the rows of siblings and the clusters: here they live in one list and are referred to by
  their index. Coordinates are rationals.
\<close>

section \<open>Input of the layout engine\<close>

record dagre_edge =
  ge_source :: string
  ge_target :: string
  ge_weight :: nat
  ge_minlen :: nat

record dagre_graph =
  gi_rankdir :: string
  gi_nodesep :: nat
  gi_ranksep :: nat
  gi_edgesep :: nat
  gi_nodes :: "(string \<times> rat \<times> rat) list"
  gi_edges :: "dagre_edge list"

type_synonym layout_fn = "dagre_graph \<Rightarrow> string \<Rightarrow> rat \<times> rat"

section \<open>Groups, children and sizes\<close>

definition CHILD_W :: rat where "CHILD_W = 168"
definition CHILD_H :: rat where "CHILD_H = 34"
definition nodeW :: rat where "nodeW = 160"
definition nodeH :: rat where "nodeH = 40"
definition cellW :: rat where "cellW = CHILD_W + 16"
definition cellH :: rat where "cellH = CHILD_H + 16"
definition maxCols :: nat where "maxCols = 3"
definition headerH :: rat where "headerH = 32"
definition padX :: rat where "padX = 14"
definition padBottom :: rat where "padBottom = 20"
definition GAP :: rat where "GAP = 20"
definition componentGAP :: rat where "componentGAP = 80"

lemmas layout_consts = CHILD_W_def CHILD_H_def nodeW_def nodeH_def cellW_def cellH_def maxCols_def
  headerH_def padX_def padBottom_def GAP_def componentGAP_def

definition nodesep :: "nat \<Rightarrow> nat" where
  "nodesep cnt = (if cnt \<le> 10 then 30 else if cnt \<le> 30 then 24 else if cnt \<le> 80 then 18 else 14)"

definition ranksep :: "nat \<Rightarrow> nat" where
  "ranksep cnt = (if cnt \<le> 10 then 60 else if cnt \<le> 30 then 50 else if cnt \<le> 80 then 40 else 30)"

definition groupIds :: "rf_node list \<Rightarrow> string list" where
  "groupIds nodes = map rn_id (filter (\<lambda>n. rn_nodeRole n = Some ''group'') nodes)"

definition child_edges :: "rf_node list \<Rightarrow> rf_edge list \<Rightarrow> rf_edge list" where
  "child_edges nodes edges = filter (\<lambda>e. re_source e \<in> set (groupIds nodes)) edges"

definition childrenOf :: "rf_node list \<Rightarrow> rf_edge list \<Rightarrow> string list jsobj" where
  "childrenOf nodes edges =
     foldl (\<lambda>m e. if re_source e \<in> set (groupIds nodes) then obj_push (re_source e) (re_target e) m else m) [] edges"

definition allChildIds :: "rf_node list \<Rightarrow> rf_edge list \<Rightarrow> string list" where
  "allChildIds nodes edges = dedup (map re_target (child_edges nodes edges))"

definition cols_of :: "nat \<Rightarrow> nat" where
  "cols_of cc = min cc maxCols"

definition rows_of :: "nat \<Rightarrow> nat" where
  "rows_of cc = (cc + maxCols - 1) div maxCols"

definition group_size :: "nat \<Rightarrow> rat \<times> rat" where
  "group_size cc =
     (max nodeW (of_nat (cols_of cc) * cellW + padX * 2 + 10),
      max nodeH (headerH + of_nat (rows_of cc) * cellH + padBottom + 14))"

definition groupSizes :: "rf_node list \<Rightarrow> rf_edge list \<Rightarrow> (rat \<times> rat) jsobj" where
  "groupSizes nodes edges =
     foldl (\<lambda>m (g, cs). obj_set g (group_size (length cs)) m) [] (obj_entries (childrenOf nodes edges))"

definition size_of :: "(rat \<times> rat) jsobj \<Rightarrow> string \<Rightarrow> rat \<times> rat" where
  "size_of sizes i = nullish (obj_get sizes i) (nodeW, nodeH)"

definition isRoleMap :: "rf_node list \<Rightarrow> bool" where
  "isRoleMap nodes \<longleftrightarrow> (let ts = map rn_nodeType nodes in
     ''role'' \<in> set ts \<and> ''table'' \<notin> set ts \<and> ''database'' \<notin> set ts)"

definition layoutNodes :: "rf_node list \<Rightarrow> rf_edge list \<Rightarrow> rf_node list" where
  "layoutNodes nodes edges = filter (\<lambda>n. rn_id n \<notin> set (allChildIds nodes edges)) nodes"

definition layoutEdges :: "rf_node list \<Rightarrow> rf_edge list \<Rightarrow> rf_edge list" where
  "layoutEdges nodes edges = filter (\<lambda>e.
     if re_target e \<in> set (allChildIds nodes edges) \<and> re_source e \<in> set (groupIds nodes) then False
     else if re_source e \<in> set (allChildIds nodes edges) then False else True) edges"

definition userNodeIds :: "rf_node list \<Rightarrow> string list" where
  "userNodeIds nodes = (if isRoleMap nodes
     then map rn_id (filter (\<lambda>n. rn_nodeType n = ''user'') nodes) else [])"

section \<open>Connected components of the role map\<close>

definition adj_add :: "string \<Rightarrow> string \<Rightarrow> adjacency \<Rightarrow> adjacency" where
  "adj_add a b m = (case obj_get m a of None \<Rightarrow> m | Some s \<Rightarrow> obj_set a (set_add b s) m)"

definition undirected :: "rf_node list \<Rightarrow> rf_edge list \<Rightarrow> adjacency" where
  "undirected ns es =
     foldl (\<lambda>m e. adj_add (re_target e) (re_source e) (adj_add (re_source e) (re_target e) m))
       (foldl (\<lambda>m n. obj_set (rn_id n) [] m) [] ns) es"

text \<open>
  The search from one node; the stack's top is its last element. The result is the visited set and the
  component, both in the order of the visits.
\<close>

function comp_dfs ::
  "adjacency \<Rightarrow> string list \<Rightarrow> string list \<Rightarrow> string list \<Rightarrow> string list \<times> string list" where
  "comp_dfs adj q visited part =
     (if q = [] then (visited, part)
      else let cur = last q; q' = butlast q in
        if cur \<in> set visited then comp_dfs adj q' visited part
        else comp_dfs adj (q' @ filter (\<lambda>nb. nb \<notin> set (visited @ [cur])) (obj_bucket adj cur))
               (visited @ [cur]) (part @ [cur]))"
  by pat_completeness auto
termination
proof (relation "measures [\<lambda>(adj, q, visited, part). card ((values_of adj \<union> set q) - set visited),
    \<lambda>(adj, q, visited, part). length q]", goal_cases)
  case 1
  then show ?case by simp
next
  case (2 adj q visited part cur q')
  then have "set q' \<subseteq> set q" by (auto dest: in_set_butlastD)
  then have "card ((values_of adj \<union> set q') - set visited) \<le> card ((values_of adj \<union> set q) - set visited)"
    by (intro card_mono) auto
  with 2 show ?case by (simp add: le_less)
next
  case (3 adj q visited part cur q')
  let ?A = "(values_of adj \<union> set (q' @ filter (\<lambda>nb. nb \<notin> set (visited @ [cur])) (obj_bucket adj cur)))
    - set (visited @ [cur])"
  have "cur \<in> set q" and "set q' \<subseteq> set q" using 3 by (auto dest: in_set_butlastD)
  then have "?A \<subset> (values_of adj \<union> set q) - set visited"
    using 3 bucket_values [of adj cur] by auto
  then have "card ?A < card ((values_of adj \<union> set q) - set visited)"
    by (intro psubset_card_mono) auto
  with 3 show ?case by simp
qed

declare comp_dfs.simps [simp del]

definition component_step ::
  "adjacency \<Rightarrow> string list \<times> string list list \<Rightarrow> rf_node \<Rightarrow> string list \<times> string list list" where
  "component_step adj acc n = (let (visited, comps) = acc in
     if rn_id n \<in> set visited then acc
     else (case comp_dfs adj [rn_id n] visited [] of (visited', part) \<Rightarrow> (visited', comps @ [part])))"

definition components :: "rf_node list \<Rightarrow> rf_edge list \<Rightarrow> string list list" where
  "components ns es = snd (foldl (component_step (undirected ns es)) ([], []) ns)"

definition by_size :: "string list list \<Rightarrow> string list list" where
  "by_size cs = js_sort (\<lambda>a b. of_nat (length b) - of_nat (length a)) cs"

section \<open>Placing the nodes\<close>

record placed_node =
  pl_id :: string
  pl_x :: rat
  pl_y :: rat
  pl_w :: rat
  pl_h :: rat
  pl_isGroup :: bool

definition list_min :: "rat list \<Rightarrow> rat" where
  "list_min xs = foldl min (hd xs) (tl xs)"

definition list_max :: "rat list \<Rightarrow> rat" where
  "list_max xs = foldl max (hd xs) (tl xs)"

definition comp_graph ::
  "string \<Rightarrow> (rat \<times> rat) jsobj \<Rightarrow> string list \<Rightarrow> rf_node list \<Rightarrow> rf_edge list \<Rightarrow> string list \<Rightarrow> dagre_graph" where
  "comp_graph direction sizes users ns es part =
     \<lparr>gi_rankdir = direction, gi_nodesep = 40, gi_ranksep = 100, gi_edgesep = 20,
      gi_nodes = map (\<lambda>n. (rn_id n, size_of sizes (rn_id n))) (filter (\<lambda>n. rn_id n \<in> set part) ns),
      gi_edges = map (\<lambda>e. let toUser = re_target e \<in> set users in
          \<lparr>ge_source = re_source e, ge_target = re_target e,
           ge_weight = (if toUser then 1 else 5), ge_minlen = (if toUser then 2 else 1)\<rparr>)
        (filter (\<lambda>e. re_source e \<in> set part \<and> re_target e \<in> set part) es)\<rparr>"

text \<open>\<open>cg.node(nid)\<close>: defined for the nodes that were set.\<close>

definition node_pos :: "layout_fn \<Rightarrow> dagre_graph \<Rightarrow> string \<Rightarrow> (rat \<times> rat) option" where
  "node_pos dagre g i = (if i \<in> fst ` set (gi_nodes g) then Some (dagre g i) else None)"

definition builtinInComp :: "rf_node list \<Rightarrow> string list \<Rightarrow> string list" where
  "builtinInComp ns part = filter (\<lambda>i. case find (\<lambda>n. rn_id n = i) ns of
     None \<Rightarrow> False | Some n \<Rightarrow> rn_nodeType n = ''role'' \<and> rn_label n \<in> set BUILTIN_ROLES) part"

definition some_y :: "(string \<Rightarrow> (rat \<times> rat) option) \<Rightarrow> string list \<Rightarrow> rat list" where
  "some_y pos is = map (\<lambda>i. snd (the (pos i))) (filter (\<lambda>i. pos i \<noteq> None) is)"

definition lift_builtins ::
  "string list \<Rightarrow> string list \<Rightarrow> (string \<Rightarrow> (rat \<times> rat) option) \<Rightarrow> string \<Rightarrow> (rat \<times> rat) option" where
  "lift_builtins builtins part pos =
     (let ys = some_y pos builtins; others = some_y pos (filter (\<lambda>i. i \<notin> set builtins) part) in
      if ys = [] then pos
      else let minB = list_min ys;
               target = min minB ((if others = [] then minB else list_min others) - 100)
           in (\<lambda>i. if i \<in> set builtins then map_option (\<lambda>(x, y). (x, target)) (pos i) else pos i))"

definition place_component ::
  "layout_fn \<Rightarrow> string \<Rightarrow> (rat \<times> rat) jsobj \<Rightarrow> string list \<Rightarrow> string list \<Rightarrow> rf_node list \<Rightarrow> rf_edge list
    \<Rightarrow> placed_node list \<times> rat \<Rightarrow> string list \<Rightarrow> placed_node list \<times> rat" where
  "place_component dagre direction sizes groups users ns es acc part =
     (let (placed, offsetX) = acc;
          cg = comp_graph direction sizes users ns es part;
          pos = lift_builtins (builtinInComp ns part) part (node_pos dagre cg);
          there = filter (\<lambda>i. pos i \<noteq> None) part;
          x = (\<lambda>i. fst (the (pos i))); y = (\<lambda>i. snd (the (pos i)));
          w = (\<lambda>i. fst (size_of sizes i)); h = (\<lambda>i. snd (size_of sizes i));
          minX = list_min (map (\<lambda>i. x i - w i / 2) there);
          maxX = list_max (map (\<lambda>i. x i + w i / 2) there);
          minY = list_min (map (\<lambda>i. y i - h i / 2) there);
          shiftX = offsetX - minX; shiftY = - minY
      in (placed @ map (\<lambda>i. \<lparr>pl_id = i, pl_x = x i + shiftX - w i / 2, pl_y = y i + shiftY - h i / 2,
             pl_w = w i, pl_h = h i, pl_isGroup = (i \<in> set groups)\<rparr>) there,
          offsetX + (maxX - minX) + componentGAP))"

definition align_users :: "string list \<Rightarrow> placed_node list \<Rightarrow> placed_node list" where
  "align_users users placed =
     (let ys = map pl_y (filter (\<lambda>p. pl_id p \<in> set users) placed) in
      if ys = [] then placed
      else map (\<lambda>p. if pl_id p \<in> set users then p\<lparr>pl_y := list_max ys\<rparr> else p) placed)"

definition place_single ::
  "layout_fn \<Rightarrow> string \<Rightarrow> nat \<Rightarrow> (rat \<times> rat) jsobj \<Rightarrow> string list \<Rightarrow> rf_node list \<Rightarrow> rf_edge list \<Rightarrow> placed_node list" where
  "place_single dagre direction cnt sizes groups ns es =
     (let g = \<lparr>gi_rankdir = direction, gi_nodesep = nodesep cnt + 20, gi_ranksep = ranksep cnt,
                gi_edgesep = 10, gi_nodes = map (\<lambda>n. (rn_id n, size_of sizes (rn_id n))) ns,
                gi_edges = map (\<lambda>e. \<lparr>ge_source = re_source e, ge_target = re_target e,
                                    ge_weight = 1, ge_minlen = 1\<rparr>) es\<rparr>
      in map (\<lambda>n. let (x, y) = dagre g (rn_id n); (w, h) = size_of sizes (rn_id n) in
           \<lparr>pl_id = rn_id n, pl_x = x - w / 2, pl_y = y - h / 2, pl_w = w, pl_h = h,
            pl_isGroup = (rn_id n \<in> set groups)\<rparr>) ns)"

definition initial_placement ::
  "layout_fn \<Rightarrow> string \<Rightarrow> rf_node list \<Rightarrow> rf_edge list \<Rightarrow> placed_node list" where
  "initial_placement dagre direction nodes edges =
     (let sizes = groupSizes nodes edges; groups = groupIds nodes; users = userNodeIds nodes;
          ns = layoutNodes nodes edges; es = layoutEdges nodes edges
      in if isRoleMap nodes
         then align_users users (fst (foldl (place_component dagre direction sizes groups users ns es)
                ([], 0) (by_size (components ns es))))
         else place_single dagre direction (length nodes) sizes groups ns es)"

end
