(* ===== verification/Dag_Clusters.thy ===== *)
theory Dag_Clusters
  imports Dag_Layout
begin

text \<open>
  The second half of \<open>dagLayout.ts\<close>: rows of groups under their parent, clusters, the correction of
  overlaps, and the final nodes; then \<open>buildDagLayout\<close>.
\<close>

section \<open>Rows of siblings\<close>

definition groupParentMap :: "string list \<Rightarrow> rf_edge list \<Rightarrow> string jsobj" where
  "groupParentMap groups edges =
     foldl (\<lambda>m e. if re_target e \<in> set groups \<and> re_source e \<notin> set groups
                  then obj_set (re_target e) (re_source e) m else m) [] edges"

text \<open>The siblings of each parent, as indices into the list of placed nodes.\<close>

definition siblingsByParent :: "string jsobj \<Rightarrow> placed_node list \<Rightarrow> nat list jsobj" where
  "siblingsByParent gpm placed =
     foldl (\<lambda>m i. let p = placed ! i in
         if pl_isGroup p \<and> truthy (obj_get gpm (pl_id p))
         then obj_push (the (obj_get gpm (pl_id p))) i m else m) [] [0..<length placed]"

definition set_y :: "nat list \<Rightarrow> rat \<Rightarrow> placed_node list \<Rightarrow> placed_node list" where
  "set_y is y placed = foldl (\<lambda>ps i. ps[i := (ps ! i)\<lparr>pl_y := y\<rparr>]) placed is"

fun row_xs :: "rat \<Rightarrow> nat list \<Rightarrow> placed_node list \<Rightarrow> placed_node list" where
  "row_xs curX [] placed = placed"
| "row_xs curX (i # is) placed =
     row_xs (curX + (pl_w (placed ! i) + GAP)) is (placed[i := (placed ! i)\<lparr>pl_x := curX\<rparr>])"

definition find_index :: "('a \<Rightarrow> bool) \<Rightarrow> 'a list \<Rightarrow> nat option" where
  "find_index P xs = find (\<lambda>i. P (xs ! i)) [0..<length xs]"

definition row_width :: "nat list \<Rightarrow> placed_node list \<Rightarrow> rat" where
  "row_width is placed = sum_list (map (\<lambda>i. pl_w (placed ! i)) is) + of_nat (length is - 1) * GAP"

definition layout_row ::
  "placed_node list \<times> nat list jsobj \<Rightarrow> string \<times> nat list \<Rightarrow> placed_node list \<times> nat list jsobj" where
  "layout_row acc entry =
     (let (placed, rows) = acc; (parentId, siblings) = entry in
      case find_index (\<lambda>p. pl_id p = parentId) placed of
        None \<Rightarrow> (placed, rows @ [entry])
      | Some pidx \<Rightarrow>
          (let parent = placed ! pidx; parentCenterX = pl_x parent + CHILD_W / 2;
               groupY = pl_y parent + pl_h parent + GAP;
               placed' = set_y siblings groupY placed;
               sorted = js_sort (\<lambda>a b. pl_x (placed' ! a) - pl_x (placed' ! b)) siblings;
               curX = parentCenterX - row_width sorted placed' / 2
           in (row_xs curX sorted placed', rows @ [(parentId, sorted)])))"

section \<open>Clusters and overlaps\<close>

record cluster =
  cl_members :: "nat list"
  cl_x :: rat
  cl_y :: rat
  cl_w :: rat
  cl_h :: rat

definition make_cluster :: "placed_node list \<Rightarrow> nat list \<Rightarrow> cluster" where
  "make_cluster placed members =
     (let ps = map (\<lambda>i. placed ! i) members;
          minX = list_min (map pl_x ps); maxX = list_max (map (\<lambda>p. pl_x p + pl_w p) ps);
          minY = list_min (map pl_y ps); maxY = list_max (map (\<lambda>p. pl_y p + pl_h p) ps)
      in \<lparr>cl_members = members, cl_x = minX, cl_y = minY, cl_w = maxX - minX, cl_h = maxY - minY\<rparr>)"

definition clusters_of :: "placed_node list \<Rightarrow> nat list jsobj \<Rightarrow> cluster list" where
  "clusters_of placed rows = concat (map (\<lambda>(parentId, siblings).
     case find_index (\<lambda>p. pl_id p = parentId) placed of
       None \<Rightarrow> [] | Some pidx \<Rightarrow> [make_cluster placed (pidx # siblings)]) rows)"

definition standalone_of :: "placed_node list \<Rightarrow> cluster list \<Rightarrow> nat list" where
  "standalone_of placed clusters =
     (let inCluster = map (\<lambda>i. pl_id (placed ! i)) (concat (map cl_members clusters))
      in filter (\<lambda>i. pl_id (placed ! i) \<notin> set inCluster) [0..<length placed])"

datatype overlap_box = ClusterBox nat | NodeBox nat

type_synonym box_state = "cluster list \<times> placed_node list"

record rect =
  bx_x :: rat
  bx_y :: rat
  bx_w :: rat
  bx_h :: rat

fun box_rect :: "box_state \<Rightarrow> overlap_box \<Rightarrow> rect" where
  "box_rect (cs, ps) (ClusterBox i) =
     \<lparr>bx_x = cl_x (cs ! i), bx_y = cl_y (cs ! i), bx_w = cl_w (cs ! i), bx_h = cl_h (cs ! i)\<rparr>"
| "box_rect (cs, ps) (NodeBox i) =
     \<lparr>bx_x = pl_x (ps ! i), bx_y = pl_y (ps ! i), bx_w = pl_w (ps ! i), bx_h = pl_h (ps ! i)\<rparr>"

definition shift_nodes :: "nat list \<Rightarrow> rat \<Rightarrow> placed_node list \<Rightarrow> placed_node list" where
  "shift_nodes is dx ps = foldl (\<lambda>ps i. ps[i := (ps ! i)\<lparr>pl_x := pl_x (ps ! i) + dx\<rparr>]) ps is"

fun shift_box :: "overlap_box \<Rightarrow> rat \<Rightarrow> box_state \<Rightarrow> box_state" where
  "shift_box (ClusterBox i) dx (cs, ps) =
     (cs[i := (cs ! i)\<lparr>cl_x := cl_x (cs ! i) + dx\<rparr>], shift_nodes (cl_members (cs ! i)) dx ps)"
| "shift_box (NodeBox i) dx (cs, ps) = (cs, ps[i := (ps ! i)\<lparr>pl_x := pl_x (ps ! i) + dx\<rparr>])"

definition overlapX :: "rect \<Rightarrow> rect \<Rightarrow> rat" where
  "overlapX a b = (bx_x a + bx_w a + GAP) - bx_x b"

definition overlapY :: "rect \<Rightarrow> rect \<Rightarrow> rat" where
  "overlapY a b = min (bx_y a + bx_h a) (bx_y b + bx_h b) - max (bx_y a) (bx_y b)"

definition collide :: "rect \<Rightarrow> rect \<Rightarrow> bool" where
  "collide a b \<longleftrightarrow> overlapX a b > 0 \<and> overlapY a b > 0"

definition resolve_pair :: "overlap_box list \<Rightarrow> box_state \<times> bool \<Rightarrow> nat \<times> nat \<Rightarrow> box_state \<times> bool" where
  "resolve_pair boxes acc ij =
     (let (st, changed) = acc; (i, j) = ij; a = box_rect st (boxes ! i); b = box_rect st (boxes ! j) in
      if collide a b
      then let push = overlapX a b / 2 + GAP / 2
           in (shift_box (boxes ! j) push (shift_box (boxes ! i) (- push) st), True)
      else acc)"

definition index_pairs :: "nat \<Rightarrow> (nat \<times> nat) list" where
  "index_pairs n = concat (map (\<lambda>i. map (\<lambda>j. (i, j)) [Suc i..<n]) [0..<n])"

definition overlap_pass :: "overlap_box list \<Rightarrow> box_state \<Rightarrow> box_state \<times> bool" where
  "overlap_pass boxes st = foldl (resolve_pair boxes) (st, False) (index_pairs (length boxes))"

text \<open>The loop: at most fifty passes, and the flag of the last one.\<close>

fun overlap_loop :: "nat \<Rightarrow> overlap_box list \<Rightarrow> box_state \<Rightarrow> box_state \<times> bool" where
  "overlap_loop 0 boxes st = (st, True)"
| "overlap_loop (Suc n) boxes st =
     (case overlap_pass boxes st of (st', changed) \<Rightarrow>
        if changed then overlap_loop n boxes st' else (st', False))"

definition boxes_of :: "cluster list \<Rightarrow> nat list \<Rightarrow> overlap_box list" where
  "boxes_of clusters standalone = map ClusterBox [0..<length clusters] @ map NodeBox standalone"

definition arrange :: "string jsobj \<Rightarrow> placed_node list \<Rightarrow> placed_node list" where
  "arrange gpm placed =
     (let (placed1, rows) = foldl layout_row (placed, []) (siblingsByParent gpm placed);
          clusters = clusters_of placed1 rows;
          boxes = boxes_of clusters (standalone_of placed1 clusters)
      in snd (fst (overlap_loop 50 boxes (clusters, placed1))))"

section \<open>The result\<close>

definition nodeById :: "rf_node list \<Rightarrow> rf_node jsobj" where
  "nodeById nodes = foldl (\<lambda>m n. obj_set (rn_id n) n m) [] nodes"

definition laid_node :: "rf_node jsobj \<Rightarrow> placed_node \<Rightarrow> rf_node" where
  "laid_node byId p = (the (obj_get byId (pl_id p)))\<lparr>
     rn_type := (if pl_isGroup p then ''group'' else ''custom''), rn_x := pl_x p, rn_y := pl_y p,
     rn_container := (if pl_isGroup p then Some (pl_w p, pl_h p)
                      else rn_container (the (obj_get byId (pl_id p))))\<rparr>"

text \<open>The position of the child number \<open>i\<close> of \<open>cc\<close> inside a container of a given size.\<close>

definition child_pos :: "rat \<times> rat \<Rightarrow> nat \<Rightarrow> nat \<Rightarrow> rat \<times> rat" where
  "child_pos sz cc i =
     (let gridW = of_nat (cols_of cc) * cellW; gridH = of_nat (rows_of cc) * cellH;
          availH = snd sz - headerH;
          offsetX = (fst sz - gridW) / 2; offsetY = headerH + (availH - gridH) / 2
      in (offsetX + of_nat (i mod maxCols) * cellW + (cellW - CHILD_W) / 2,
          offsetY + of_nat (i div maxCols) * cellH + (cellH - CHILD_H) / 2))"

definition laid_child ::
  "rf_node jsobj \<Rightarrow> string \<Rightarrow> rat \<times> rat \<Rightarrow> nat \<Rightarrow> nat \<times> string \<Rightarrow> rf_node list" where
  "laid_child byId groupId sz cc ic = (case obj_get byId (snd ic) of
      None \<Rightarrow> []
    | Some orig \<Rightarrow> (case child_pos sz cc (fst ic) of (x, y) \<Rightarrow>
        [orig\<lparr>rn_type := ''custom'', rn_parentId := Some groupId, rn_x := x, rn_y := y\<rparr>]))"

definition laid_children ::
  "rf_node jsobj \<Rightarrow> (rat \<times> rat) jsobj \<Rightarrow> string list jsobj \<Rightarrow> rf_node list" where
  "laid_children byId sizes children = concat (map (\<lambda>(g, cs). case obj_get sizes g of
      None \<Rightarrow> [] | Some sz \<Rightarrow> concat (map (laid_child byId g sz (length cs)) (enumerate 0 cs)))
    (obj_entries children))"

definition applyDagreLayout ::
  "layout_fn \<Rightarrow> rf_node list \<Rightarrow> rf_edge list \<Rightarrow> string \<Rightarrow> rf_node list \<times> rf_edge list" where
  "applyDagreLayout dagre nodes edges direction =
     (let placed = arrange (groupParentMap (groupIds nodes) edges)
                     (initial_placement dagre direction nodes edges);
          byId = nodeById nodes
      in (map (laid_node byId) placed
            @ laid_children byId (groupSizes nodes edges) (childrenOf nodes edges), edges))"

definition buildDagLayout ::
  "layout_fn \<Rightarrow> dag_graph option \<Rightarrow> string \<Rightarrow> bool jsobj \<Rightarrow> bool \<Rightarrow> string list
    \<Rightarrow> (rf_node list \<times> rf_edge list) option" where
  "buildDagLayout dagre data direction visibleTypes groupsOnly hiddenNodes = (case data of
      None \<Rightarrow> None
    | Some d \<Rightarrow> (case rf_input d visibleTypes groupsOnly hiddenNodes of
        (ns, es) \<Rightarrow> Some (applyDagreLayout dagre ns es direction)))"

end
