(* ===== verification/Dag_Layout_Props.thy ===== *)
theory Dag_Layout_Props
  imports Dag_Clusters
begin

text \<open>
  What the layout guarantees whatever positions the engine returns: children fit in their container,
  rows of groups are centred under their parent without overlap, a correction loop that stops leaves
  no overlap, and every node of the input is laid out exactly once.
\<close>

section \<open>Children inside their container\<close>

lemma col_bound: "i < cc \<Longrightarrow> i mod 3 < min cc (3 :: nat)"
  by (metis min_less_iff_conj mod_less_divisor mod_less_eq_dividend order_le_less_trans zero_less_numeral)

lemma row_bound: "i < cc \<Longrightarrow> i div 3 < (cc + 2) div (3 :: nat)"
  by presburger

lemma group_size_eq:
  assumes "0 < cc"
  shows "group_size cc = (of_nat (min cc 3) * 184 + 38, of_nat ((cc + 2) div 3) * 50 + 66)"
proof -
  have "1 \<le> min cc 3" "1 \<le> (cc + 2) div 3" using assms by auto
  then have "(1 :: rat) \<le> of_nat (min cc 3)" "(1 :: rat) \<le> of_nat ((cc + 2) div 3)" using of_nat_mono by fastforce+
  then show ?thesis
    by (simp add: group_size_def layout_consts cols_of_def rows_of_def del: of_nat_min)
qed

lemma child_pos_eq:
  assumes "0 < cc"
  shows "child_pos (group_size cc) cc i = (of_nat (i mod 3) * 184 + 27, of_nat (i div 3) * 50 + 57)"
  using assms by (simp add: child_pos_def group_size_eq layout_consts cols_of_def rows_of_def Let_def
      field_simps del: of_nat_min)

definition inside :: "rat \<times> rat \<Rightarrow> rat \<times> rat \<Rightarrow> bool" where
  "inside sz p \<longleftrightarrow> 0 \<le> fst p \<and> fst p + CHILD_W \<le> fst sz \<and> headerH \<le> snd p \<and> snd p + CHILD_H \<le> snd sz"

definition apart :: "rat \<times> rat \<Rightarrow> rat \<times> rat \<Rightarrow> bool" where
  "apart p q \<longleftrightarrow> fst p + CHILD_W \<le> fst q \<or> fst q + CHILD_W \<le> fst p
     \<or> snd p + CHILD_H \<le> snd q \<or> snd q + CHILD_H \<le> snd p"

lemma child_inside:
  assumes "i < cc"
  shows "inside (group_size cc) (child_pos (group_size cc) cc i)"
proof -
  have "i mod 3 + 1 \<le> min cc 3" "i div 3 + 1 \<le> (cc + 2) div 3"
    using col_bound [OF assms] row_bound [OF assms] by simp_all
  then have "(of_nat (i mod 3 + 1) :: rat) \<le> of_nat (min cc 3)"
    "(of_nat (i div 3 + 1) :: rat) \<le> of_nat ((cc + 2) div 3)"
    by (simp_all only: of_nat_le_iff)
  moreover have "0 < cc" using assms by simp
  ultimately show ?thesis
    by (simp only: inside_def child_pos_eq) (simp add: group_size_eq layout_consts del: of_nat_min)
qed

lemma nat_apart: "(a :: nat) \<noteq> b \<Longrightarrow> of_nat a + 1 \<le> (of_nat b :: rat) \<or> of_nat b + 1 \<le> (of_nat a :: rat)"
  by (metis Suc_leI linorder_neqE_nat of_nat_Suc of_nat_le_iff add.commute)

lemma child_apart:
  assumes "i < cc" and "j < cc" and "i \<noteq> j"
  shows "apart (child_pos (group_size cc) cc i) (child_pos (group_size cc) cc j)"
proof -
  have cc: "0 < cc" using assms by simp
  have "i mod 3 \<noteq> j mod 3 \<or> i div 3 \<noteq> j div 3" using assms(3) by (metis div_mult_mod_eq)
  then show ?thesis
  proof
    assume "i mod 3 \<noteq> j mod 3"
    from nat_apart [OF this] show ?thesis by (auto simp: apart_def child_pos_eq [OF cc] layout_consts)
  next
    assume "i div 3 \<noteq> j div 3"
    from nat_apart [OF this] show ?thesis by (auto simp: apart_def child_pos_eq [OF cc] layout_consts)
  qed
qed

section \<open>Rows of groups\<close>

lemma set_y_spec:
  assumes "\<forall>i \<in> set is. i < length ps"
  shows "length (set_y is y ps) = length ps"
    and "set_y is y ps ! k = (if k \<in> set is then (ps ! k)\<lparr>pl_y := y\<rparr> else ps ! k)"
  using assms
proof (induction "is" arbitrary: ps)
  case (Cons i "is")
  { case 1 then show ?case using Cons.IH(1) [of "ps[i := (ps ! i)\<lparr>pl_y := y\<rparr>]"] by (simp add: set_y_def) }
  { case 2 then show ?case
      using Cons.IH(2) [of "ps[i := (ps ! i)\<lparr>pl_y := y\<rparr>]"] by (auto simp: set_y_def nth_list_update) }
qed (simp_all add: set_y_def)

lemma length_row_xs [simp]: "length (row_xs c is ps) = length ps"
  by (induction c "is" ps rule: row_xs.induct) simp_all

lemma row_xs_other: "k \<notin> set is \<Longrightarrow> row_xs c is ps ! k = ps ! k"
  by (induction c "is" ps rule: row_xs.induct) simp_all

text \<open>The abscissa of the k-th sibling.\<close>

fun row_x :: "rat \<Rightarrow> nat list \<Rightarrow> placed_node list \<Rightarrow> nat \<Rightarrow> rat" where
  "row_x c [] ps k = c"
| "row_x c (i # is) ps 0 = c"
| "row_x c (i # is) ps (Suc k) = row_x (c + (pl_w (ps ! i) + GAP)) is ps k"

lemma row_x_update: "i \<notin> set is \<Longrightarrow> row_x c is (ps[i := p]) k = row_x c is ps k"
  by (induction c "is" ps k rule: row_x.induct) simp_all

lemma row_xs_nth:
  assumes "distinct is" and "\<forall>i \<in> set is. i < length ps" and "k < length is"
  shows "row_xs c is ps ! (is ! k) = (ps ! (is ! k))\<lparr>pl_x := row_x c is ps k\<rparr>"
  using assms
proof (induction c "is" ps arbitrary: k rule: row_xs.induct)
  case (2 c i "is" ps)
  show ?case
  proof (cases k)
    case 0
    with 2 show ?thesis by (simp add: row_xs_other)
  next
    case (Suc m)
    with 2 have "is ! m \<noteq> i" by auto
    with 2 Suc show ?thesis by (simp add: row_x_update)
  qed
qed simp

lemma row_x_Suc: "Suc k < length is \<Longrightarrow> row_x c is ps (Suc k) = row_x c is ps k + pl_w (ps ! (is ! k)) + GAP"
proof (induction c "is" ps k rule: row_x.induct)
  case (2 c i "is" ps)
  then show ?case by (cases "is") simp_all
qed simp_all

lemma row_x_last:
  "is \<noteq> [] \<Longrightarrow> row_x c is ps (length is - 1) + pl_w (ps ! (is ! (length is - 1))) = c + row_width is ps"
proof (induction "is" arbitrary: c)
  case (Cons i "is")
  show ?case
  proof (cases "is")
    case Nil
    then show ?thesis by (simp add: row_width_def)
  next
    case (Cons j js)
    with Cons.IH [of "c + (pl_w (ps ! i) + GAP)"] show ?thesis
      by (simp add: row_width_def algebra_simps)
  qed
qed simp

section \<open>The correction of overlaps\<close>

lemma resolve_fold_False:
  assumes "foldl (resolve_pair boxes) (st, c) ps = (st', False)"
  shows "\<not> c \<and> st' = st \<and> (\<forall>(i, j) \<in> set ps. \<not> collide (box_rect st (boxes ! i)) (box_rect st (boxes ! j)))"
  using assms
proof (induction ps arbitrary: st c)
  case (Cons p ps)
  obtain i j where p: "p = (i, j)" by (cases p)
  show ?case
  proof (cases "collide (box_rect st (boxes ! i)) (box_rect st (boxes ! j))")
    case True
    then obtain st2 where "resolve_pair boxes (st, c) p = (st2, True)"
      using p by (auto simp: resolve_pair_def Let_def)
    with Cons.prems have "foldl (resolve_pair boxes) (st2, True) ps = (st', False)" by simp
    from Cons.IH [OF this] show ?thesis by simp
  next
    case False
    then have "resolve_pair boxes (st, c) p = (st, c)" using p by (simp add: resolve_pair_def Let_def)
    with Cons.prems have "foldl (resolve_pair boxes) (st, c) ps = (st', False)" by simp
    from Cons.IH [OF this] p False show ?thesis by auto
  qed
qed simp

lemma in_index_pairs: "(i, j) \<in> set (index_pairs n) \<longleftrightarrow> i < j \<and> j < n"
  by (fastforce simp: index_pairs_def)

lemma overlap_pass_False:
  assumes "overlap_pass boxes st = (st', False)" and "i < j" and "j < length boxes"
  shows "\<not> collide (box_rect st' (boxes ! i)) (box_rect st' (boxes ! j))"
  using resolve_fold_False [OF assms(1) [unfolded overlap_pass_def]] assms(2,3)
  by (auto simp: in_index_pairs)

lemma overlap_loop_False:
  "overlap_loop n boxes st = (st', False) \<Longrightarrow> i < j \<Longrightarrow> j < length boxes \<Longrightarrow>
   \<not> collide (box_rect st' (boxes ! i)) (box_rect st' (boxes ! j))"
proof (induction n arbitrary: st)
  case (Suc n)
  then show ?case
    by (auto split: prod.splits if_splits dest: overlap_pass_False)
qed simp

subsection \<open>What the correction keeps\<close>

definition same_but_x :: "placed_node list \<Rightarrow> placed_node list \<Rightarrow> bool" where
  "same_but_x ps qs \<longleftrightarrow> map pl_id ps = map pl_id qs \<and> map pl_y ps = map pl_y qs
     \<and> map pl_w ps = map pl_w qs \<and> map pl_h ps = map pl_h qs \<and> map pl_isGroup ps = map pl_isGroup qs"

lemma same_but_x_refl [simp]: "same_but_x ps ps"
  by (simp add: same_but_x_def)

lemma same_but_x_trans: "same_but_x ps qs \<Longrightarrow> same_but_x qs rs \<Longrightarrow> same_but_x ps rs"
  by (simp add: same_but_x_def)

lemma map_keep: "f v = f (xs ! i) \<Longrightarrow> map f (xs[i := v]) = map f xs"
  by (cases "i < length xs") (simp_all add: map_update list_update_same_conv list_update_beyond)

lemma same_but_x_update: "same_but_x ps (ps[i := (ps ! i)\<lparr>pl_x := v\<rparr>])"
  by (simp add: same_but_x_def map_keep)

lemma same_but_x_shift_nodes: "same_but_x ps (shift_nodes is dx ps)"
proof (induction "is" arbitrary: ps)
  case (Cons i "is")
  show ?case
    using same_but_x_trans [OF same_but_x_update Cons.IH [of "ps[i := (ps ! i)\<lparr>pl_x := pl_x (ps ! i) + dx\<rparr>]"]]
    by (simp add: shift_nodes_def)
qed (simp add: shift_nodes_def)

lemma same_but_x_shift: "same_but_x (snd st) (snd (shift_box b dx st))"
  by (cases b; cases st) (simp_all add: same_but_x_shift_nodes same_but_x_update)

lemma same_but_x_resolve: "same_but_x (snd (fst acc)) (snd (fst (resolve_pair boxes acc p)))"
  using same_but_x_trans [OF same_but_x_shift same_but_x_shift]
  by (auto simp: resolve_pair_def Let_def split: prod.splits)

lemma same_but_x_fold: "same_but_x (snd (fst acc)) (snd (fst (foldl (resolve_pair boxes) acc ps)))"
proof (induction ps arbitrary: acc)
  case (Cons p ps)
  show ?case using same_but_x_trans [OF same_but_x_resolve Cons.IH] by simp
qed simp

lemma same_but_x_loop: "same_but_x (snd st) (snd (fst (overlap_loop n boxes st)))"
proof (induction n arbitrary: st)
  case (Suc n)
  have p: "same_but_x (snd st) (snd (fst (overlap_pass boxes st)))"
    using same_but_x_fold [of "(st, False)" boxes] by (simp add: overlap_pass_def)
  show ?case
    using p same_but_x_trans [OF p Suc.IH [of "fst (overlap_pass boxes st)"]]
    by (auto split: prod.splits)
qed simp

lemma ids_set_y: "map pl_id (set_y is y ps) = map pl_id ps"
proof (induction "is" arbitrary: ps)
  case (Cons i "is")
  have "map pl_id (ps[i := (ps ! i)\<lparr>pl_y := y\<rparr>]) = map pl_id ps"
    by (simp add: map_keep)
  with Cons.IH [of "ps[i := (ps ! i)\<lparr>pl_y := y\<rparr>]"] show ?case by (simp add: set_y_def)
qed (simp add: set_y_def)

lemma ids_row_xs: "map pl_id (row_xs c is ps) = map pl_id ps"
proof (induction c "is" ps rule: row_xs.induct)
  case (2 c i "is" ps)
  have "map pl_id (ps[i := (ps ! i)\<lparr>pl_x := c\<rparr>]) = map pl_id ps"
    by (simp add: map_keep)
  with 2 show ?case by simp
qed simp

lemma ids_layout_row: "map pl_id (fst (layout_row acc e)) = map pl_id (fst acc)"
  by (auto simp: layout_row_def Let_def ids_row_xs ids_set_y split: prod.splits option.splits)

lemma ids_layout_rows: "map pl_id (fst (foldl layout_row acc es)) = map pl_id (fst acc)"
  by (induction es arbitrary: acc) (simp_all add: ids_layout_row)

lemma ids_arrange: "map pl_id (arrange gpm ps) = map pl_id ps"
proof -
  obtain ps1 rows where r: "foldl layout_row (ps, []) (siblingsByParent gpm ps) = (ps1, rows)"
    by fastforce
  then have "map pl_id ps1 = map pl_id ps"
    using ids_layout_rows [of "(ps, [])" "siblingsByParent gpm ps"] by simp
  then show ?thesis
    using same_but_x_loop [of "(clusters_of ps1 rows, ps1)"] r
    by (simp add: arrange_def Let_def same_but_x_def)
qed

section \<open>Components of the role map\<close>

text \<open>The search extends the visited nodes and the component by the same new, distinct nodes.\<close>

lemma comp_dfs_new:
  "\<exists>new. comp_dfs adj q visited c = (visited @ new, c @ new) \<and> distinct new
     \<and> set new \<inter> set visited = {} \<and> set q \<subseteq> set (visited @ new)"
proof (induction adj q visited c rule: comp_dfs.induct)
  case (1 adj q visited c)
  show ?case
  proof (cases "q = []")
    case True
    then show ?thesis by (simp add: comp_dfs.simps [of adj "[]"])
  next
    case q: False
    then have q_eq: "set q = insert (last q) (set (butlast q))"
      by (metis append_butlast_last_id list.simps(15) rotate1.simps(2) set_rotate1)
    show ?thesis
    proof (cases "last q \<in> set visited")
      case True
      with q have "comp_dfs adj q visited c = comp_dfs adj (butlast q) visited c"
        by (simp add: comp_dfs.simps [of adj q] Let_def)
      moreover obtain new where "comp_dfs adj (butlast q) visited c = (visited @ new, c @ new)"
        "distinct new" "set new \<inter> set visited = {}" "set (butlast q) \<subseteq> set (visited @ new)"
        using 1(1) [OF q refl refl True] by blast
      ultimately show ?thesis using True q_eq by (intro exI [of _ new]) auto
    next
      case False
      let ?q = "butlast q @ filter (\<lambda>nb. nb \<notin> set (visited @ [last q])) (obj_bucket adj (last q))"
      from q False have eq: "comp_dfs adj q visited c = comp_dfs adj ?q (visited @ [last q]) (c @ [last q])"
        by (simp add: comp_dfs.simps [of adj q] Let_def)
      obtain new where n: "comp_dfs adj ?q (visited @ [last q]) (c @ [last q])
          = ((visited @ [last q]) @ new, (c @ [last q]) @ new)"
        "distinct new" "set new \<inter> set (visited @ [last q]) = {}" "set ?q \<subseteq> set ((visited @ [last q]) @ new)"
        using 1(2) [OF q refl refl False] by blast
      have "comp_dfs adj q visited c = (visited @ (last q # new), c @ (last q # new))"
        using eq n(1) by simp
      moreover have "distinct (last q # new)" "set (last q # new) \<inter> set visited = {}"
        using n(2,3) False by auto
      moreover have "set q \<subseteq> set (visited @ (last q # new))" using n(4) q_eq by auto
      ultimately show ?thesis by blast
    qed
  qed
qed

definition comps_ok :: "string list \<times> string list list \<Rightarrow> bool" where
  "comps_ok acc \<longleftrightarrow> fst acc = concat (snd acc) \<and> distinct (fst acc)"

lemma component_step_ok:
  assumes "comps_ok acc"
  shows "comps_ok (component_step adj acc n) \<and> insert (rn_id n) (set (fst acc)) \<subseteq> set (fst (component_step adj acc n))"
proof -
  obtain visited cs where acc: "acc = (visited, cs)" by (cases acc)
  obtain new where "comp_dfs adj [rn_id n] visited [] = (visited @ new, new)" "distinct new"
    "set new \<inter> set visited = {}" "rn_id n \<in> set (visited @ new)"
    using comp_dfs_new [of adj "[rn_id n]" visited "[]"] by auto
  with assms acc show ?thesis
    by (auto simp: component_step_def comps_ok_def)
qed

lemma component_fold_ok:
  "comps_ok acc \<Longrightarrow> comps_ok (foldl (component_step adj) acc ns)
     \<and> rn_id ` set ns \<union> set (fst acc) \<subseteq> set (fst (foldl (component_step adj) acc ns))"
proof (induction ns arbitrary: acc)
  case (Cons n ns)
  from component_step_ok [OF Cons.prems, of adj n] Cons.IH [of "component_step adj acc n"]
  show ?case by auto
qed simp

text \<open>The components are disjoint, and every node of the layout is in one.\<close>

lemma components_partition:
  "distinct (concat (components ns es)) \<and> rn_id ` set ns \<subseteq> set (concat (components ns es))"
proof -
  let ?r = "foldl (component_step (undirected ns es)) ([], []) ns"
  have "comps_ok ?r" and "rn_id ` set ns \<subseteq> set (fst ?r)"
    using component_fold_ok [of "([], [])" "undirected ns es" ns] by (simp_all add: comps_ok_def [of "([], [])"])
  then show ?thesis by (metis comps_ok_def components_def)
qed

lemma mset_concat_by_size: "mset (concat (by_size cs)) = mset (concat cs)"
proof -
  have "mset (map mset (by_size cs)) = mset (map mset cs)" by (simp add: by_size_def)
  then show ?thesis by (metis mset_concat sum_mset_sum_list)
qed

lemma lift_builtins_dom [simp]: "lift_builtins bs part pos i = None \<longleftrightarrow> pos i = None"
  by (auto simp: lift_builtins_def Let_def)

lemma node_pos_dom:
  "node_pos dagre (comp_graph d sizes users ns es part) i = None \<longleftrightarrow> i \<notin> rn_id ` {n \<in> set ns. rn_id n \<in> set part}"
  by (auto simp: node_pos_def comp_graph_def image_image)

lemma place_component_ids:
  "map pl_id (fst (place_component dagre d sizes groups users ns es acc part))
     = map pl_id (fst acc) @ filter (\<lambda>i. i \<in> rn_id ` set ns) part"
proof -
  have "filter (\<lambda>i. lift_builtins (builtinInComp ns part) part
      (node_pos dagre (comp_graph d sizes users ns es part)) i \<noteq> None) part
    = filter (\<lambda>i. i \<in> rn_id ` set ns) part"
    by (rule filter_cong) (auto simp: node_pos_dom simp del: not_None_eq)
  then show ?thesis
    by (simp add: place_component_def Let_def comp_def split_def del: not_None_eq)
qed

lemma place_components_ids:
  "map pl_id (fst (foldl (place_component dagre d sizes groups users ns es) acc cs))
     = map pl_id (fst acc) @ filter (\<lambda>i. i \<in> rn_id ` set ns) (concat cs)"
  by (induction cs arbitrary: acc) (simp_all add: place_component_ids)

lemma align_users_ids [simp]: "map pl_id (align_users users ps) = map pl_id ps"
  by (simp add: align_users_def Let_def comp_def if_distrib cong: if_cong)

lemma place_single_ids: "map pl_id (place_single dagre d c sizes groups ns es) = map rn_id ns"
  by (simp add: place_single_def Let_def comp_def split_def)

lemma initial_placement_ids:
  assumes "distinct (map rn_id nodes)"
  shows "distinct (map pl_id (initial_placement dagre d nodes edges))
    \<and> set (map pl_id (initial_placement dagre d nodes edges)) = rn_id ` set (layoutNodes nodes edges)"
proof (cases "isRoleMap nodes")
  case True
  let ?ns = "layoutNodes nodes edges" and ?es = "layoutEdges nodes edges"
  have m: "mset (concat (by_size (components ?ns ?es))) = mset (concat (components ?ns ?es))"
    by (rule mset_concat_by_size)
  then have "distinct (concat (by_size (components ?ns ?es)))"
    and "set (concat (by_size (components ?ns ?es))) = set (concat (components ?ns ?es))"
    using components_partition [of ?ns ?es] mset_eq_imp_distinct_iff mset_eq_setD by metis+
  with True components_partition [of ?ns ?es] show ?thesis
    by (simp only: initial_placement_def Let_def if_True align_users_ids place_components_ids) auto
next
  case False
  have "distinct (map rn_id (layoutNodes nodes edges))"
    using assms unfolding layoutNodes_def by (rule distinct_map_filter)
  with False show ?thesis
    by (simp add: initial_placement_def Let_def place_single_ids)
qed

section \<open>The nodes of the result\<close>

lemma nodeById_dom:
  "obj_get (foldl (\<lambda>m n. obj_set (rn_id n) n m) m nodes) i = None
     \<longleftrightarrow> obj_get m i = None \<and> i \<notin> rn_id ` set nodes"
  by (induction nodes arbitrary: m) auto

lemma nodeById_id:
  assumes "\<forall>n. obj_get m i = Some n \<longrightarrow> rn_id n = i"
    and "obj_get (foldl (\<lambda>m n. obj_set (rn_id n) n m) m nodes) i = Some n"
  shows "rn_id n = i"
  using assms
proof (induction nodes arbitrary: m)
  case Nil
  then show ?case by simp
next
  case (Cons x nodes)
  have "\<forall>n. obj_get (obj_set (rn_id x) x m) i = Some n \<longrightarrow> rn_id n = i"
    using Cons.prems(1) by simp
  moreover have "obj_get (foldl (\<lambda>m n. obj_set (rn_id n) n m) (obj_set (rn_id x) x m) nodes) i = Some n"
    using Cons.prems(2) by simp
  ultimately show ?case by (rule Cons.IH)
qed

lemma nodeById_get:
  "obj_get (nodeById nodes) i = None \<longleftrightarrow> i \<notin> rn_id ` set nodes"
  "obj_get (nodeById nodes) i = Some n \<Longrightarrow> rn_id n = i"
  using nodeById_id [of "[]" i nodes n] by (simp_all add: nodeById_def nodeById_dom)

lemma laid_node_id: "pl_id p \<in> rn_id ` set nodes \<Longrightarrow> rn_id (laid_node (nodeById nodes) p) = pl_id p"
  using nodeById_get [of nodes "pl_id p"] by (cases "obj_get (nodeById nodes) (pl_id p)") (auto simp: laid_node_def)

lemma laid_child_ids:
  "map rn_id (laid_child (nodeById nodes) g sz cc (i, c)) = (if c \<in> rn_id ` set nodes then [c] else [])"
  using nodeById_get [of nodes c] by (cases "obj_get (nodeById nodes) c") (auto simp: laid_child_def split: prod.split)

lemma laid_group_ids:
  "map rn_id (concat (map (laid_child (nodeById nodes) g sz cc) (enumerate k cs)))
     = filter (\<lambda>c. c \<in> rn_id ` set nodes) cs"
  by (induction cs arbitrary: k) (simp_all add: laid_child_ids)

lemma bucket_childrenOf:
  "obj_bucket (childrenOf nodes edges) g
     = map re_target (filter (\<lambda>e. re_source e \<in> set (groupIds nodes) \<and> re_source e = g) edges)"
  using js_groups.bucket_fold_guarded [of "\<lambda>e. re_source e \<in> set (groupIds nodes)" re_source re_target "[]" edges g]
  by (simp add: childrenOf_def)

lemma childrenOf_distinct: "distinct (map fst (childrenOf nodes edges))"
  unfolding childrenOf_def by (rule distinct_fold_obj_push_guarded) simp

lemma groupSizes_get:
  "obj_get (foldl (\<lambda>m (g, cs). obj_set g (group_size (length cs)) m) m xs) g \<noteq> None
     \<longleftrightarrow> obj_get m g \<noteq> None \<or> g \<in> fst ` set xs"
  by (induction xs arbitrary: m) (auto split: prod.split)

lemma entry_bucket: "(g, cs) \<in> set (obj_entries m) \<Longrightarrow> cs = obj_bucket m g"
  by (simp add: in_obj_entries obj_bucket_def)

lemma laid_children_ids:
  "map rn_id (laid_children (nodeById nodes) (groupSizes nodes edges) (childrenOf nodes edges))
     = filter (\<lambda>c. c \<in> rn_id ` set nodes) (concat (map snd (obj_entries (childrenOf nodes edges))))"
proof -
  let ?m = "childrenOf nodes edges"
  have "map rn_id (concat (map (\<lambda>(g, cs). case obj_get (groupSizes nodes edges) g of
        None \<Rightarrow> [] | Some sz \<Rightarrow> concat (map (laid_child (nodeById nodes) g sz (length cs)) (enumerate 0 cs))) es))
      = filter (\<lambda>c. c \<in> rn_id ` set nodes) (concat (map snd es))"
    if "set es \<subseteq> set (obj_entries ?m)" for es
    using that
  proof (induction es)
    case (Cons e es)
    obtain g cs where e: "e = (g, cs)" by (cases e)
    have "g \<in> fst ` set (obj_entries ?m)" using Cons.prems e by force
    then obtain sz where "obj_get (groupSizes nodes edges) g = Some sz"
      using groupSizes_get [of "[]" "obj_entries ?m" g] by (auto simp: groupSizes_def)
    with Cons e show ?case by (simp add: laid_group_ids del: map_concat)
  qed simp
  from this [of "obj_entries ?m"] show ?thesis by (simp only: laid_children_def order_refl)
qed

lemma distinct_filter_concat_entries:
  assumes "distinct (map re_target (child_edges nodes edges))"
  shows "distinct (concat (map snd (obj_entries (childrenOf nodes edges))))
    \<and> set (concat (map snd (obj_entries (childrenOf nodes edges)))) = set (allChildIds nodes edges)"
proof -
  let ?m = "childrenOf nodes edges" and ?ce = "child_edges nodes edges"
  have inj: "inj_on re_target (set ?ce)" and dce: "distinct ?ce"
    using assms by (simp_all add: distinct_map)
  have bucket: "obj_bucket ?m g = map re_target (filter (\<lambda>e. re_source e = g) ?ce)" for g
    by (simp add: bucket_childrenOf child_edges_def conj_commute)
  have "map snd (obj_entries ?m) = map (obj_bucket ?m) (map fst (obj_entries ?m))"
    using entry_bucket [of _ _ ?m] by (auto simp: comp_def)
  moreover have keys: "map fst (obj_entries ?m) = obj_keys ?m"
  proof -
    have "map fst (concat (map (\<lambda>k. case obj_get ?m k of None \<Rightarrow> [] | Some v \<Rightarrow> [(k, v)]) ks)) = ks"
      if "set ks \<subseteq> fst ` set ?m" for ks
      using that
    proof (induction ks)
      case (Cons k ks)
      then obtain v where "obj_get ?m k = Some v" by (metis insert_subset list.simps(15) obj_get_eq_None option.exhaust)
      with Cons show ?case by simp
    qed simp
    then show ?thesis unfolding obj_entries_def by simp
  qed
  ultimately have eq: "concat (map snd (obj_entries ?m)) = concat (map (obj_bucket ?m) (obj_keys ?m))" by simp
  have "distinct (concat (map (obj_bucket ?m) ks))" if "distinct ks" for ks
    using that
  proof (induction ks)
    case (Cons k ks)
    have "distinct (obj_bucket ?m k)"
      unfolding bucket using dce inj by (auto simp: distinct_map inj_on_def)
    moreover have "set (obj_bucket ?m k) \<inter> set (concat (map (obj_bucket ?m) ks)) = {}"
      using Cons.prems inj by (auto simp: bucket inj_on_def)
    ultimately show ?case using Cons by simp
  qed simp
  then have "distinct (concat (map (obj_bucket ?m) (obj_keys ?m)))"
    using childrenOf_distinct [of nodes edges] by simp
  moreover have "set (concat (map (obj_bucket ?m) (obj_keys ?m))) = set (allChildIds nodes edges)"
  proof -
    have "fst ` set ?m = re_source ` set ?ce"
      unfolding childrenOf_def dom_fold_obj_push_guarded by (auto simp: child_edges_def)
    then show ?thesis by (auto simp: bucket allChildIds_def)
  qed
  ultimately show ?thesis using eq by simp
qed

section \<open>Properties\<close>

text \<open>
  C7. No node is lost or drawn twice: when the ids of the nodes are distinct and no node is a child of
  two groups, the layout returns exactly the nodes it was given, each once, whatever positions the
  engine computes, and the edges unchanged.
\<close>

theorem layout_keeps_nodes:
  assumes "distinct (map rn_id nodes)" and "distinct (map re_target (child_edges nodes edges))"
  shows "distinct (map rn_id (fst (applyDagreLayout dagre nodes edges d)))
    \<and> set (map rn_id (fst (applyDagreLayout dagre nodes edges d))) = set (map rn_id nodes)
    \<and> snd (applyDagreLayout dagre nodes edges d) = edges"
proof -
  define placed where "placed = arrange (groupParentMap (groupIds nodes) edges) (initial_placement dagre d nodes edges)"
  note ip = initial_placement_ids [OF assms(1), of dagre d edges]
  have pid: "map pl_id placed = map pl_id (initial_placement dagre d nodes edges)"
    by (simp add: placed_def ids_arrange)
  have sub: "pl_id p \<in> rn_id ` set nodes" if "p \<in> set placed" for p
  proof -
    have "pl_id p \<in> set (map pl_id placed)" using that by simp
    then show ?thesis unfolding pid using ip by (auto simp: layoutNodes_def)
  qed
  then have laid: "map rn_id (map (laid_node (nodeById nodes)) placed) = map pl_id placed"
    by (simp add: laid_node_id)
  have ids: "map rn_id (fst (applyDagreLayout dagre nodes edges d)) = map pl_id placed
      @ filter (\<lambda>c. c \<in> rn_id ` set nodes) (concat (map snd (obj_entries (childrenOf nodes edges))))"
    unfolding applyDagreLayout_def Let_def placed_def [symmetric] fst_conv map_append laid laid_children_ids ..
  note ch = distinct_filter_concat_entries [OF assms(2)]
  have set_placed: "set (map pl_id placed) = rn_id ` set nodes - set (allChildIds nodes edges)"
    unfolding pid using ip by (auto simp: layoutNodes_def)
  have "distinct (map pl_id placed)" unfolding pid using ip by simp
  with ch set_placed have "distinct (map rn_id (fst (applyDagreLayout dagre nodes edges d)))"
    unfolding ids distinct_append by auto
  moreover have "set (map rn_id (fst (applyDagreLayout dagre nodes edges d))) = set (map rn_id nodes)"
    unfolding ids set_append set_placed using ch by auto
  ultimately show ?thesis by (simp add: applyDagreLayout_def Let_def)
qed

definition rf_sample :: "string \<Rightarrow> string \<Rightarrow> string option \<Rightarrow> rf_node" where
  "rf_sample i t r = \<lparr>rn_id = i, rn_type = ''custom'', rn_x = 0, rn_y = 0, rn_label = i, rn_nodeType = t,
     rn_nodeRole = r, rn_color = None, rn_container = None, rn_parentId = None, rn_opacity = None\<rparr>"

definition rf_sample_edge :: "string \<Rightarrow> string \<Rightarrow> rf_edge" where
  "rf_sample_edge a b = \<lparr>re_id = a @ b, re_source = a, re_target = b, re_hidden = False, re_stroke = [],
     re_strokeWidth = 2, re_dashed = False, re_marker = None, re_opacity = None\<rparr>"

lemma layout_keeps_nodes_witness:
  "set (map rn_id (fst (applyDagreLayout (\<lambda>g i. (0, 0))
     [rf_sample ''db'' ''database'' None, rf_sample ''g'' ''table'' (Some ''group''), rf_sample ''t'' ''table'' None]
     [rf_sample_edge ''db'' ''g'', rf_sample_edge ''g'' ''t''] ''TB''))) = {''db'', ''g'', ''t''}"
  using layout_keeps_nodes [of "[rf_sample ''db'' ''database'' None, rf_sample ''g'' ''table'' (Some ''group''),
      rf_sample ''t'' ''table'' None]" "[rf_sample_edge ''db'' ''g'', rf_sample_edge ''g'' ''t'']"
      "\<lambda>g i. (0, 0)" "''TB''"]
  by (simp add: rf_sample_def rf_sample_edge_def child_edges_def groupIds_def)

text \<open>
  C10. Children of a group fit: for a group of any number of children, the child drawn at a position of
  the grid lies inside the container computed for the group, below its header, and two children never
  overlap.
\<close>

theorem child_grid_fits:
  assumes "i < cc" and "j < cc" and "i \<noteq> j"
  shows "inside (group_size cc) (child_pos (group_size cc) cc i)
    \<and> apart (child_pos (group_size cc) cc i) (child_pos (group_size cc) cc j)"
  using child_inside [OF assms(1)] child_apart [OF assms] by blast

lemma child_grid_fits_witness:
  "apart (child_pos (group_size 7) 7 2) (child_pos (group_size 7) 7 6)"
  using child_grid_fits [of 2 7 6] by simp

text \<open>
  C11. The correction loop: when it stops before its fiftieth pass, no two boxes (clusters or standalone
  nodes) that overlap vertically come closer than the gap, the one with the smaller index standing to
  the left; and whatever it does, it only moves nodes horizontally.
\<close>

theorem overlap_loop_separates:
  assumes "overlap_loop n boxes st = (st', False)" and "i < j" and "j < length boxes"
  shows "(overlapY (box_rect st' (boxes ! i)) (box_rect st' (boxes ! j)) \<le> 0
      \<or> bx_x (box_rect st' (boxes ! i)) + bx_w (box_rect st' (boxes ! i)) + GAP \<le> bx_x (box_rect st' (boxes ! j)))
    \<and> same_but_x (snd st) (snd st')"
  using overlap_loop_False [OF assms] same_but_x_loop [of st n boxes] assms(1)
  by (auto simp: collide_def overlapX_def)

definition sample_placed :: "rat \<Rightarrow> placed_node" where
  "sample_placed x = \<lparr>pl_id = ''n'', pl_x = x, pl_y = 0, pl_w = 160, pl_h = 40, pl_isGroup = False\<rparr>"

lemma overlap_loop_separates_witness:
  "overlap_loop 50 [NodeBox 0, NodeBox 1] ([], [sample_placed 0, sample_placed 100])
     = (([], [sample_placed (- 50), sample_placed 150]), False)
   \<and> same_but_x [sample_placed 0, sample_placed 100] [sample_placed (- 50), sample_placed 150]"
proof -
  have run: "overlap_loop 50 [NodeBox 0, NodeBox 1] ([], [sample_placed 0, sample_placed 100])
     = (([], [sample_placed (- 50), sample_placed 150]), False)"
    by code_simp
  from overlap_loop_separates [OF run, of 0 1] run show ?thesis by simp
qed

text \<open>
  The test for a horizontal overlap only looks at the right edge of the first box: two boxes that are
  far apart, the first one on the right, are moved through each other.
\<close>

lemma separate_boxes_swapped:
  "overlap_loop 50 [NodeBox 0, NodeBox 1] ([], [sample_placed 500, sample_placed 0])
     = (([], [sample_placed 150, sample_placed 350]), False)"
  by code_simp

definition row_ok :: "placed_node list \<Rightarrow> nat \<Rightarrow> nat list \<Rightarrow> bool" where
  "row_ok ps p row \<longleftrightarrow>
     list_all (\<lambda>i. pl_y (ps ! i) = pl_y (ps ! p) + pl_h (ps ! p) + GAP) row
     \<and> list_all (\<lambda>k. pl_x (ps ! (row ! Suc k)) = pl_x (ps ! (row ! k)) + pl_w (ps ! (row ! k)) + GAP)
         [0..<length row - 1]
     \<and> (pl_x (ps ! hd row) + pl_x (ps ! last row) + pl_w (ps ! last row)) / 2 = pl_x (ps ! p) + CHILD_W / 2"

text \<open>
  C9. The groups of one parent: they are placed in one row under the parent, in the order of the
  engine's abscissas, each starting one gap after the previous one ends, and the row is centred under
  the parent as it is rendered; the parent does not move.
\<close>

theorem group_row_centred:
  assumes "distinct siblings" and "siblings \<noteq> []" and "\<forall>i \<in> set siblings. i < length placed"
    and "find_index (\<lambda>q. pl_id q = parentId) placed = Some p" and "p \<notin> set siblings"
  shows "\<exists>placed' row. layout_row (placed, rows) (parentId, siblings) = (placed', rows @ [(parentId, row)])
    \<and> mset row = mset siblings \<and> row_ok placed' p row \<and> placed' ! p = placed ! p"
proof -
  define ps where "ps = set_y siblings (pl_y (placed ! p) + pl_h (placed ! p) + GAP) placed"
  define row where "row = js_sort (\<lambda>a b. pl_x (ps ! a) - pl_x (ps ! b)) siblings"
  define c where "c = pl_x (placed ! p) + CHILD_W / 2 - row_width row ps / 2"
  have run: "layout_row (placed, rows) (parentId, siblings) = (row_xs c row ps, rows @ [(parentId, row)])"
    using assms(4) by (simp add: layout_row_def Let_def ps_def row_def c_def)
  have row: "distinct row" "set row = set siblings" "row \<noteq> []"
    using assms(1,2) mset_eq_imp_distinct_iff [of row siblings] mset_eq_setD [of row siblings]
    by (simp_all add: row_def) (metis mset_js_sort mset_zero_iff_right)
  have len: "\<forall>i \<in> set row. i < length ps"
    using assms(3) row(2) by (simp add: ps_def set_y_spec(1))
  have nth: "row_xs c row ps ! (row ! k) = (ps ! (row ! k))\<lparr>pl_x := row_x c row ps k\<rparr>" if "k < length row" for k
    by (rule row_xs_nth [OF row(1) len that])
  have parent: "row_xs c row ps ! p = placed ! p"
    using assms(5) row(2) set_y_spec(2) [OF assms(3)] by (simp add: row_xs_other ps_def)
  have y: "pl_y (row_xs c row ps ! i) = pl_y (placed ! p) + pl_h (placed ! p) + GAP" if i: "i \<in> set row" for i
  proof -
    obtain k where k: "k < length row" "row ! k = i" using i by (metis in_set_conv_nth)
    then show ?thesis
      using nth [OF k(1)] i row(2) set_y_spec(2) [OF assms(3)] by (simp add: ps_def)
  qed
  have step: "pl_x (row_xs c row ps ! (row ! Suc k))
      = pl_x (row_xs c row ps ! (row ! k)) + pl_w (row_xs c row ps ! (row ! k)) + GAP"
    if "k < length row - 1" for k
    using that by (simp add: nth row_x_Suc)
  have "hd row = row ! 0" "last row = row ! (length row - 1)"
    using row(3) by (simp_all add: hd_conv_nth last_conv_nth)
  moreover have "row_x c row ps 0 = c" using row(3) by (cases row) simp_all
  ultimately have "pl_x (row_xs c row ps ! hd row) + pl_x (row_xs c row ps ! last row)
      + pl_w (row_xs c row ps ! last row) = c + (c + row_width row ps)"
    using row(3) row_x_last [OF row(3), of c ps] by (simp add: nth)
  also have "\<dots> = 2 * (pl_x (placed ! p) + CHILD_W / 2)" by (simp add: c_def)
  finally have centre: "(pl_x (row_xs c row ps ! hd row) + pl_x (row_xs c row ps ! last row)
      + pl_w (row_xs c row ps ! last row)) / 2 = pl_x (placed ! p) + CHILD_W / 2" by simp
  have "row_ok (row_xs c row ps) p row"
    unfolding row_ok_def parent using y step centre by (simp add: list_all_iff)
  moreover have "mset row = mset siblings" by (simp add: row_def)
  ultimately show ?thesis using run parent by blast
qed

definition sample_row :: "placed_node list" where
  "sample_row = [(sample_placed 10)\<lparr>pl_id := ''db''\<rparr>, sample_placed 90, sample_placed 20]"

lemma group_row_centred_witness:
  "\<exists>placed' row. layout_row (sample_row, []) (''db'', [1, 2]) = (placed', [(''db'', row)])
     \<and> mset row = {#1, 2#} \<and> row_ok placed' 0 row"
proof -
  have "find_index (\<lambda>q. pl_id q = ''db'') sample_row = Some 0" by code_simp
  from group_row_centred [OF _ _ _ this, of "[1, 2]" "[]"] show ?thesis
    by (force simp: sample_row_def)
qed

end
