(* ===== verification/Overlap_Termination.thy ===== *)
theory Overlap_Termination
  imports Dag_Layout_Props
begin

text \<open>
  The correction of overlaps ends: the loop of \<open>dagLayout.ts\<close> would stop without its limit of fifty passes.
  In coordinates relative to the place that a box has when all boxes stand in a row, two boxes that collide move
  towards each other and do not pass, so the coordinates stay bounded; and each push adds at least half a gap to
  the sum of the abscissas weighted with their position in the list.
\<close>

section \<open>A push moves two boxes and nothing else\<close>

definition box_x :: "overlap_box list \<Rightarrow> box_state \<Rightarrow> nat \<Rightarrow> rat" where
  "box_x boxes st k = bx_x (box_rect st (boxes ! k))"

text \<open>The boxes are different, in range, and no box is a member of another.\<close>

definition boxes_ok :: "overlap_box list \<Rightarrow> box_state \<Rightarrow> bool" where
  "boxes_ok boxes st \<longleftrightarrow> distinct boxes
     \<and> (\<forall>i. ClusterBox i \<in> set boxes \<longrightarrow> i < length (fst st))
     \<and> (\<forall>i. NodeBox i \<in> set boxes \<longrightarrow> i < length (snd st) \<and> i \<notin> set (concat (map cl_members (fst st))))"

text \<open>What a shift leaves of the other boxes, and of its own.\<close>

definition same_frame :: "box_state \<Rightarrow> box_state \<Rightarrow> overlap_box \<Rightarrow> bool" where
  "same_frame st st' b \<longleftrightarrow> bx_y (box_rect st' b) = bx_y (box_rect st b) \<and> bx_w (box_rect st' b) = bx_w (box_rect st b)
     \<and> bx_h (box_rect st' b) = bx_h (box_rect st b)"

lemma shift_nodes_other: "i \<notin> set js \<Longrightarrow> shift_nodes js dx ps ! i = ps ! i"
  by (induction js arbitrary: ps) (simp_all add: shift_nodes_def)

lemma length_shift_nodes [simp]: "length (shift_nodes js dx ps) = length ps"
  by (induction js arbitrary: ps) (simp_all add: shift_nodes_def)

lemma shift_box_ok:
  assumes "boxes_ok boxes st" and "b \<in> set boxes"
  shows "boxes_ok boxes (shift_box b dx st)"
proof (cases b)
  case (ClusterBox i)
  obtain cs ps where st: "st = (cs, ps)" by (cases st)
  have i: "i < length cs" using assms ClusterBox st by (simp add: boxes_ok_def)
  have "map cl_members (cs[i := (cs ! i)\<lparr>cl_x := cl_x (cs ! i) + dx\<rparr>]) = map cl_members cs" by (rule map_keep) simp
  then show ?thesis using assms(1) ClusterBox st by (simp add: boxes_ok_def)
next
  case (NodeBox i)
  then show ?thesis using assms(1) by (cases st) (auto simp: boxes_ok_def)
qed

lemma shift_box_rect:
  assumes "boxes_ok boxes st" and "b \<in> set boxes" and "c \<in> set boxes"
  shows "bx_x (box_rect (shift_box b dx st) c) = (if c = b then bx_x (box_rect st b) + dx else bx_x (box_rect st c))
    \<and> same_frame st (shift_box b dx st) c"
proof -
  obtain cs ps where st: "st = (cs, ps)" by (cases st)
  show ?thesis
  proof (cases b)
    case (ClusterBox i)
    have i: "i < length cs" using assms ClusterBox st by (simp add: boxes_ok_def)
    show ?thesis
    proof (cases c)
      case (NodeBox j)
      have "j \<notin> set (cl_members (cs ! i))" using assms(1,3) NodeBox st i by (simp add: boxes_ok_def)
      then show ?thesis using ClusterBox NodeBox st by (simp add: same_frame_def shift_nodes_other)
    qed (use ClusterBox st i in \<open>simp add: same_frame_def nth_list_update\<close>)
  next
    case (NodeBox i)
    have i: "i < length ps" using assms NodeBox st by (simp add: boxes_ok_def)
    then show ?thesis using NodeBox st by (cases c) (simp_all add: same_frame_def nth_list_update)
  qed
qed

lemma same_frame_trans: "same_frame a b x \<Longrightarrow> same_frame b c x \<Longrightarrow> same_frame a c x"
  by (simp add: same_frame_def)

definition push :: "overlap_box list \<Rightarrow> nat \<Rightarrow> nat \<Rightarrow> rat \<Rightarrow> box_state \<Rightarrow> box_state" where
  "push boxes i j p st = shift_box (boxes ! j) p (shift_box (boxes ! i) (- p) st)"

lemma push_ok:
  assumes ok: "boxes_ok boxes st" and ij: "i < j" "j < length boxes"
  shows "boxes_ok boxes (push boxes i j p st)"
    and "k < length boxes \<Longrightarrow> box_x boxes (push boxes i j p st) k =
      (if k = i then box_x boxes st i - p else if k = j then box_x boxes st j + p else box_x boxes st k)"
    and "k < length boxes \<Longrightarrow> same_frame st (push boxes i j p st) (boxes ! k)"
proof -
  have b: "boxes ! i \<in> set boxes" "boxes ! j \<in> set boxes" using ij by simp_all
  note ok1 = shift_box_ok [OF ok b(1), of "- p"]
  show "boxes_ok boxes (push boxes i j p st)" unfolding push_def by (rule shift_box_ok [OF ok1 b(2)])
  assume k: "k < length boxes"
  have ne: "boxes ! k = boxes ! l \<longleftrightarrow> k = l" if "l < length boxes" for l
    using ok k that by (simp add: boxes_ok_def nth_eq_iff_index_eq)
  note r1 = shift_box_rect [OF ok b(1) nth_mem [OF k], of "- p"] and r2 = shift_box_rect [OF ok1 b(2) nth_mem [OF k], of p]
  show "box_x boxes (push boxes i j p st) k =
      (if k = i then box_x boxes st i - p else if k = j then box_x boxes st j + p else box_x boxes st k)"
    using r1 r2 ne ij by (auto simp: box_x_def push_def)
  show "same_frame st (push boxes i j p st) (boxes ! k)"
    unfolding push_def using r1 r2 same_frame_trans by blast
qed

section \<open>A potential\<close>

text \<open>The place of a box when all stand in a row, and its abscissa relative to it.\<close>

definition place :: "overlap_box list \<Rightarrow> box_state \<Rightarrow> nat \<Rightarrow> rat" where
  "place boxes st k = (\<Sum>l<k. \<bar>bx_w (box_rect st (boxes ! l))\<bar> + 2 * GAP)"

definition rel :: "overlap_box list \<Rightarrow> box_state \<Rightarrow> nat \<Rightarrow> rat" where
  "rel boxes st k = box_x boxes st k - place boxes st k"

definition weight :: "overlap_box list \<Rightarrow> box_state \<Rightarrow> rat" where
  "weight boxes st = (\<Sum>k<length boxes. of_nat k * box_x boxes st k)"

definition ceiling_of :: "overlap_box list \<Rightarrow> box_state \<Rightarrow> rat" where
  "ceiling_of boxes st = (\<Sum>k<length boxes. of_nat k *
     (place boxes st k + Max (insert 0 (rel boxes st ` {..<length boxes}))))"

text \<open>What holds while the passes run from \<open>st\<close>: sizes are kept and relative abscissas bounded.\<close>

definition moved :: "overlap_box list \<Rightarrow> box_state \<Rightarrow> rat \<Rightarrow> box_state \<Rightarrow> bool" where
  "moved boxes st M st' \<longleftrightarrow> boxes_ok boxes st' \<and> (\<forall>k < length boxes. same_frame st st' (boxes ! k))
     \<and> (\<forall>k < length boxes. rel boxes st' k \<le> M)"

lemma place_same: "\<forall>k < length boxes. same_frame st st' (boxes ! k) \<Longrightarrow> k \<le> length boxes \<Longrightarrow> place boxes st' k = place boxes st k"
  by (auto simp: place_def same_frame_def intro: sum.cong)

lemma place_gap:
  assumes "i < j"
  shows "place boxes st i + \<bar>bx_w (box_rect st (boxes ! i))\<bar> + 2 * GAP \<le> place boxes st j"
proof -
  have "(\<Sum>l<Suc i. \<bar>bx_w (box_rect st (boxes ! l))\<bar> + 2 * GAP) \<le> (\<Sum>l<j. \<bar>bx_w (box_rect st (boxes ! l))\<bar> + 2 * GAP)"
    using assms by (intro sum_mono2) (auto simp: GAP_def)
  then show ?thesis by (simp add: place_def)
qed

lemma weight_push:
  assumes "boxes_ok boxes st" and "i < j" and "j < length boxes"
  shows "weight boxes (push boxes i j p st) = weight boxes st + of_nat (j - i) * p"
proof -
  let ?n = "length boxes"
  have "weight boxes (push boxes i j p st) = (\<Sum>k<?n. of_nat k * box_x boxes st k
      + ((if k = j then of_nat j * p else 0) - (if k = i then of_nat i * p else 0)))"
    unfolding weight_def using push_ok(2) [OF assms] assms(2) by (intro sum.cong) (auto simp: algebra_simps)
  also have "\<dots> = weight boxes st + (of_nat j * p - of_nat i * p)"
    using assms(2,3) by (simp add: sum.distrib sum_subtractf weight_def)
  finally show ?thesis using assms(2) by (simp add: of_nat_diff algebra_simps)
qed

text \<open>One collision.\<close>

lemma push_moved:
  assumes m: "moved boxes st M a" and ij: "i < j" "j < length boxes"
    and c: "collide (box_rect a (boxes ! i)) (box_rect a (boxes ! j))"
  defines "p \<equiv> overlapX (box_rect a (boxes ! i)) (box_rect a (boxes ! j)) / 2 + GAP / 2"
  shows "moved boxes st M (push boxes i j p a) \<and> weight boxes a + GAP / 2 < weight boxes (push boxes i j p a)"
proof -
  let ?b = "push boxes i j p a"
  have ok: "boxes_ok boxes a" and fr: "\<forall>k < length boxes. same_frame st a (boxes ! k)"
    and rel: "\<forall>k < length boxes. rel boxes a k \<le> M" using m by (simp_all add: moved_def)
  note P1 = push_ok(1) [OF ok ij, where p = p] and P2 = push_ok(2) [OF ok ij, where p = p]
    and P3 = push_ok(3) [OF ok ij, where p = p]
  have p: "p > GAP / 2" using c by (simp add: p_def collide_def)
  have fr': "\<forall>k < length boxes. same_frame a ?b (boxes ! k)" using P3 by blast
  have pl: "k \<le> length boxes \<Longrightarrow> place boxes ?b k = place boxes a k" for k by (rule place_same [OF fr'])
  have two: "2 * p = box_x boxes a i + bx_w (box_rect a (boxes ! i)) + 2 * GAP - box_x boxes a j"
    by (simp add: p_def overlapX_def box_x_def field_simps)
  have w: "bx_w (box_rect a (boxes ! i)) \<le> \<bar>bx_w (box_rect a (boxes ! i))\<bar>" by simp
  have ri: "rel boxes ?b i = rel boxes a i - p" and rj: "rel boxes ?b j = rel boxes a j + p"
    using P2 [of i] P2 [of j] pl [of i] pl [of j] ij by (simp_all add: rel_def)
  have "rel boxes ?b j \<le> rel boxes ?b i"
    using two place_gap [OF ij(1), of boxes a] w unfolding ri rj unfolding rel_def by linarith
  moreover have "rel boxes a i \<le> M" "p > 0" using rel ij p by (simp_all add: GAP_def)
  ultimately have hi: "rel boxes ?b i \<le> M" "rel boxes ?b j \<le> M" unfolding ri by linarith+
  have "rel boxes ?b k \<le> M" if "k < length boxes" for k
    using hi P2 [OF that] rel pl [of k] that by (cases "k = i \<or> k = j") (auto simp: rel_def)
  moreover have "\<forall>k < length boxes. same_frame st ?b (boxes ! k)" using fr fr' same_frame_trans by blast
  moreover have "weight boxes a + GAP / 2 < weight boxes ?b"
  proof -
    have "1 \<le> (of_nat (j - i) :: rat)" using ij(1) by simp
    then have "p \<le> of_nat (j - i) * p" using \<open>p > 0\<close> mult_right_mono [of 1 "of_nat (j - i)" p] by simp
    then show ?thesis using weight_push [OF ok ij, of p] p by linarith
  qed
  ultimately show ?thesis using P1 by (simp add: moved_def)
qed

section \<open>A pass\<close>

lemma resolve_moved:
  assumes "moved boxes st M a" and "i < j" and "j < length boxes" and "resolve_pair boxes (a, c) (i, j) = (b, d)"
  shows "moved boxes st M b \<and> weight boxes a \<le> weight boxes b \<and> (d \<longrightarrow> c \<or> weight boxes a + GAP / 2 < weight boxes b)"
proof (cases "collide (box_rect a (boxes ! i)) (box_rect a (boxes ! j))")
  case True
  then have "b = push boxes i j (overlapX (box_rect a (boxes ! i)) (box_rect a (boxes ! j)) / 2 + GAP / 2) a"
    using assms(4) by (simp add: resolve_pair_def push_def Let_def)
  moreover note push_moved [OF assms(1-3) True]
  moreover have "(0 :: rat) < GAP" by (simp add: GAP_def)
  ultimately show ?thesis by auto
next
  case False
  then show ?thesis using assms by (simp add: resolve_pair_def Let_def)
qed

lemma fold_moved:
  assumes "moved boxes st M a" and "set ps \<subseteq> {(i, j). i < j \<and> j < length boxes}"
    and "foldl (resolve_pair boxes) (a, c) ps = (b, d)"
  shows "moved boxes st M b \<and> weight boxes a \<le> weight boxes b \<and> (d \<longrightarrow> c \<or> weight boxes a + GAP / 2 < weight boxes b)"
  using assms
proof (induction ps arbitrary: a c)
  case (Cons x ps)
  obtain i j where x: "x = (i, j)" "i < j" "j < length boxes" using Cons.prems(2) by auto
  obtain a1 c1 where r: "resolve_pair boxes (a, c) (i, j) = (a1, c1)" by fastforce
  note one = resolve_moved [OF Cons.prems(1) x(2,3) r]
  have "foldl (resolve_pair boxes) (a1, c1) ps = (b, d)" using Cons.prems(3) x(1) r by simp
  with Cons.IH [of a1 c1] one Cons.prems(2) have
    "moved boxes st M b \<and> weight boxes a1 \<le> weight boxes b \<and> (d \<longrightarrow> c1 \<or> weight boxes a1 + GAP / 2 < weight boxes b)" by simp
  then show ?case using one by linarith
qed simp

lemma pass_moved:
  assumes "moved boxes st M a" and "overlap_pass boxes a = (b, d)"
  shows "moved boxes st M b \<and> (d \<longrightarrow> weight boxes a + GAP / 2 < weight boxes b)"
proof -
  have "set (index_pairs (length boxes)) \<subseteq> {(i, j). i < j \<and> j < length boxes}" by (auto simp: in_index_pairs)
  from fold_moved [OF assms(1) this assms(2) [unfolded overlap_pass_def]] show ?thesis by simp
qed

lemma moved_bound:
  assumes "moved boxes st M a"
  shows "weight boxes a \<le> (\<Sum>k<length boxes. of_nat k * (place boxes st k + M))"
proof -
  have "box_x boxes a k \<le> place boxes st k + M" if "k < length boxes" for k
    using assms that place_same [of boxes st a k] by (auto simp: moved_def rel_def algebra_simps)
  then show ?thesis unfolding weight_def by (intro sum_mono mult_left_mono) auto
qed

text \<open>As many passes as half gaps fit below the bound, and one more, are enough.\<close>

lemma loop_stops:
  assumes "moved boxes st M a" and "(\<Sum>k<length boxes. of_nat k * (place boxes st k + M)) - weight boxes a < of_nat m * (GAP / 2)"
  shows "\<exists>b. overlap_loop m boxes a = (b, False)"
  using assms
proof (induction m arbitrary: a)
  case 0
  then show ?case using moved_bound [OF 0(1)] by simp
next
  case (Suc m)
  obtain b d where b: "overlap_pass boxes a = (b, d)" by fastforce
  note p = pass_moved [OF Suc.prems(1) b]
  show ?case
  proof (cases d)
    case True
    then have "(\<Sum>k<length boxes. of_nat k * (place boxes st k + M)) - weight boxes b < of_nat m * (GAP / 2)"
      using p Suc.prems(2) by (simp add: distrib_right)
    then show ?thesis using Suc.IH [of b] p b True by simp
  qed (use b in simp)
qed

section \<open>The loop of the layout\<close>

text \<open>A number of passes that is enough, computed from the start.\<close>

definition pass_bound :: "overlap_box list \<Rightarrow> box_state \<Rightarrow> nat" where
  "pass_bound boxes st = Suc (nat \<lfloor>(ceiling_of boxes st - weight boxes st) / (GAP / 2)\<rfloor>)"

lemma bound_enough: "ceiling_of boxes st - weight boxes st < of_nat (pass_bound boxes st) * (GAP / 2)"
proof -
  let ?q = "(ceiling_of boxes st - weight boxes st) / (GAP / 2)"
  have "?q < of_int (\<lfloor>?q\<rfloor> + 1)" by linarith
  also have "\<dots> \<le> of_nat (pass_bound boxes st)" unfolding pass_bound_def by linarith
  finally have "?q < of_nat (pass_bound boxes st)" .
  then show ?thesis by (simp add: pos_divide_less_eq GAP_def)
qed

lemma boxes_of_ok: "boxes_ok (boxes_of cs (standalone_of ps cs)) (cs, ps)"
  by (auto simp: boxes_ok_def boxes_of_def standalone_of_def distinct_map inj_on_def Let_def)

lemma loop_more:
  assumes "overlap_loop n boxes st = (st', False)" and "n \<le> m"
  shows "overlap_loop m boxes st = (st', False)"
  using assms
proof (induction n arbitrary: m st)
  case (Suc n)
  then obtain k where "m = Suc k" "n \<le> k" by (cases m) auto
  then show ?case using Suc by (auto split: prod.splits if_splits)
qed simp

lemma loop_fixed: "overlap_loop n boxes st = (st', False) \<Longrightarrow> overlap_pass boxes st' = (st', False)"
proof (induction n arbitrary: st)
  case (Suc n)
  obtain b d where b: "overlap_pass boxes st = (b, d)" by fastforce
  show ?case
  proof (cases d)
    case False
    then have "b = st" using b resolve_fold_False [of boxes st False] by (fastforce simp: overlap_pass_def)
    then show ?thesis using Suc.prems b False by simp
  qed (use Suc b in simp)
qed simp

lemma moved_start:
  assumes "boxes_ok boxes st"
  shows "moved boxes st (Max (insert 0 (rel boxes st ` {..<length boxes}))) st"
  using assms by (auto simp: moved_def same_frame_def intro: Max_ge)

text \<open>
  C12. The loop that corrects overlaps ends by itself. For the boxes of any placement, a number of passes that is
  computed from their positions and widths is enough: the loop stops with a pass that changes nothing, any larger
  limit gives the same result, and one more pass would leave it as it is. So the limit of fifty passes in the code
  only cuts a correction short, it never keeps one from running forever.
\<close>

theorem overlap_loop_terminates:
  "case boxes_of clusters (standalone_of placed clusters) of boxes \<Rightarrow>
     \<exists>st'. overlap_loop (pass_bound boxes (clusters, placed)) boxes (clusters, placed) = (st', False)
       \<and> overlap_loop (pass_bound boxes (clusters, placed) + m) boxes (clusters, placed) = (st', False)
       \<and> overlap_pass boxes st' = (st', False)"
proof -
  define boxes where "boxes = boxes_of clusters (standalone_of placed clusters)"
  let ?st = "(clusters, placed)"
  have "\<exists>st'. overlap_loop (pass_bound boxes ?st) boxes ?st = (st', False)"
    by (rule loop_stops [OF moved_start [OF boxes_of_ok [of clusters placed, folded boxes_def]]])
      (rule bound_enough [unfolded ceiling_of_def])
  then obtain st' where "overlap_loop (pass_bound boxes ?st) boxes ?st = (st', False)" ..
  with loop_more [OF this, of "pass_bound boxes ?st + m"] loop_fixed [OF this] show ?thesis
    unfolding boxes_def [symmetric] by auto
qed

end
