(* ===== verification/Async_Hooks.thy ===== *)
theory Async_Hooks
  imports Types
begin

text \<open>
  The data hooks shared by the panels: \<open>hooks/useAsyncData.ts\<close>, \<open>hooks/useServerSearch.ts\<close>,
  \<open>hooks/usePolling.ts\<close> and \<open>components/layout/useTreeExpansion.ts\<close>. A hook is a state with the
  requests that its effects have in flight; a render with new properties runs the cleanup of the old
  effect and the new effect. What the server answers is a parameter: the answer may differ each time,
  so it takes a version besides the request.
\<close>

section \<open>useAsyncData\<close>

record ('k, 'd) cell =
  ce_key :: "'k option"
  ce_data :: "'d option"
  ce_error :: "string option"

record 'k async_request =
  ar_deps :: 'k
  ar_alive :: bool

record ('k, 'd) async_state =
  as_cell :: "('k, 'd) cell"
  as_enabled :: bool
  as_deps :: 'k
  as_requests :: "'k async_request list"

record 'd async_data =
  ar_data :: "'d option"
  ar_loading :: bool
  ar_error :: "string option"

definition kill_requests :: "'k async_request list \<Rightarrow> 'k async_request list" where
  "kill_requests rs = map (\<lambda>r. r\<lparr>ar_alive := False\<rparr>) rs"

definition start_request :: "bool \<Rightarrow> 'k \<Rightarrow> 'k async_request list \<Rightarrow> 'k async_request list" where
  "start_request enabled deps rs = (if enabled then rs @ [\<lparr>ar_deps = deps, ar_alive = True\<rparr>] else rs)"

definition async_mount :: "bool \<Rightarrow> 'k \<Rightarrow> ('k, 'd) async_state" where
  "async_mount enabled deps = \<lparr>as_cell = \<lparr>ce_key = None, ce_data = None, ce_error = None\<rparr>,
     as_enabled = enabled, as_deps = deps, as_requests = start_request enabled deps []\<rparr>"

text \<open>The invalidation during render: the result of other dependencies loses its key.\<close>

definition invalidate :: "'k \<Rightarrow> ('k, 'd) cell \<Rightarrow> ('k, 'd) cell" where
  "invalidate deps c = (if ce_key c \<noteq> None \<and> ce_key c \<noteq> Some deps
     then \<lparr>ce_key = None, ce_data = ce_data c, ce_error = None\<rparr> else c)"

definition async_render :: "bool \<Rightarrow> 'k \<Rightarrow> ('k, 'd) async_state \<Rightarrow> ('k, 'd) async_state" where
  "async_render enabled deps s =
     (let c = invalidate deps (as_cell s) in
      if enabled = as_enabled s \<and> deps = as_deps s then s\<lparr>as_cell := c\<rparr>
      else \<lparr>as_cell = c, as_enabled = enabled, as_deps = deps,
            as_requests = start_request enabled deps (kill_requests (as_requests s))\<rparr>)"

definition async_settle :: "nat \<Rightarrow> string + 'd \<Rightarrow> ('k, 'd) async_state \<Rightarrow> ('k, 'd) async_state" where
  "async_settle i res s =
     (if i < length (as_requests s) then
        let r = as_requests s ! i; s' = s\<lparr>as_requests := take i (as_requests s) @ drop (Suc i) (as_requests s)\<rparr> in
        (if ar_alive r then s'\<lparr>as_cell := (case res of
             Inr d \<Rightarrow> \<lparr>ce_key = Some (ar_deps r), ce_data = Some d, ce_error = None\<rparr>
           | Inl e \<Rightarrow> \<lparr>ce_key = Some (ar_deps r), ce_data = None, ce_error = Some e\<rparr>)\<rparr>
         else s')
      else s)"

definition current :: "('k, 'd) async_state \<Rightarrow> bool" where
  "current s \<longleftrightarrow> ce_key (as_cell s) = Some (as_deps s)"

definition async_result :: "bool \<Rightarrow> ('k, 'd) async_state \<Rightarrow> 'd async_data" where
  "async_result keepPreviousData s =
     \<lparr>ar_data = (if current s \<or> keepPreviousData then ce_data (as_cell s) else None),
      ar_loading = (as_enabled s \<and> \<not> current s),
      ar_error = (if current s then ce_error (as_cell s) else None)\<rparr>"

datatype ('k, 'v) async_event = Render bool 'k | Settled nat 'v

fun async_step ::
  "('v \<Rightarrow> 'k \<Rightarrow> string + 'd) \<Rightarrow> ('k, 'd) async_state \<Rightarrow> ('k, 'v) async_event \<Rightarrow> ('k, 'd) async_state" where
  "async_step server s (Render enabled deps) = async_render enabled deps s"
| "async_step server s (Settled i v) =
     (if i < length (as_requests s) then async_settle i (server v (ar_deps (as_requests s ! i))) s else s)"

text \<open>
  The requests that are alive are for the current dependencies of an enabled hook, an enabled hook
  without a current result has one, and a keyed result is an answer for its key.
\<close>

definition cell_ok :: "('v \<Rightarrow> 'k \<Rightarrow> string + 'd) \<Rightarrow> ('k, 'd) cell \<Rightarrow> bool" where
  "cell_ok server c \<longleftrightarrow> (case ce_key c of
      None \<Rightarrow> True
    | Some k \<Rightarrow> (\<exists>v. case server v k of
          Inr d \<Rightarrow> ce_data c = Some d \<and> ce_error c = None
        | Inl e \<Rightarrow> ce_data c = None \<and> ce_error c = Some e))"

definition async_ok :: "('v \<Rightarrow> 'k \<Rightarrow> string + 'd) \<Rightarrow> ('k, 'd) async_state \<Rightarrow> bool" where
  "async_ok server s \<longleftrightarrow>
     (\<forall>r \<in> set (as_requests s). ar_alive r \<longrightarrow> as_enabled s \<and> ar_deps r = as_deps s)
     \<and> length (filter ar_alive (as_requests s)) \<le> 1
     \<and> (as_enabled s \<longrightarrow> current s \<or> (\<exists>r \<in> set (as_requests s). ar_alive r))
     \<and> cell_ok server (as_cell s)"

lemma cell_ok_None [simp]: "ce_key c = None \<Longrightarrow> cell_ok server c"
  by (simp add: cell_ok_def)

lemma cell_ok_invalidate: "cell_ok server c \<Longrightarrow> cell_ok server (invalidate deps c)"
  by (simp add: invalidate_def)

lemma cell_ok_answer:
  "cell_ok server (case server v k of
       Inr d \<Rightarrow> \<lparr>ce_key = Some k, ce_data = Some d, ce_error = None\<rparr>
     | Inl e \<Rightarrow> \<lparr>ce_key = Some k, ce_data = None, ce_error = Some e\<rparr>)"
  by (auto simp: cell_ok_def intro!: exI [of _ v] split: sum.splits)

lemma cell_ok_data:
  assumes "cell_ok server c" and "ce_key c = Some k" and "ce_data c = Some d"
  shows "(\<exists>v. server v k = Inr d) \<and> ce_error c = None"
proof -
  from assms obtain v where "case server v k of Inr d \<Rightarrow> ce_data c = Some d \<and> ce_error c = None
      | Inl e \<Rightarrow> ce_data c = None \<and> ce_error c = Some e" by (auto simp: cell_ok_def)
  with assms(3) have "server v k = Inr d \<and> ce_error c = None" by (cases "server v k") simp_all
  then show ?thesis by blast
qed

lemma cell_ok_error:
  assumes "cell_ok server c" and "ce_key c = Some k" and "ce_error c = Some e"
  shows "\<exists>v. server v k = Inl e"
proof -
  from assms obtain v where "case server v k of Inr d \<Rightarrow> ce_data c = Some d \<and> ce_error c = None
      | Inl e \<Rightarrow> ce_data c = None \<and> ce_error c = Some e" by (auto simp: cell_ok_def)
  with assms(3) have "server v k = Inl e" by (cases "server v k") simp_all
  then show ?thesis by blast
qed

lemma in_kill: "r \<in> set (kill_requests rs) \<Longrightarrow> \<not> ar_alive r"
  by (auto simp: kill_requests_def)

lemma filter_kill [simp]: "filter ar_alive (kill_requests rs) = []"
  by (simp add: kill_requests_def filter_map comp_def)

lemma async_ok_mount: "async_ok server (async_mount enabled deps)"
  by (simp add: async_ok_def async_mount_def start_request_def)

lemma async_ok_render: "async_ok server s \<Longrightarrow> async_ok server (async_render enabled deps s)"
  using cell_ok_invalidate [of server "as_cell s" deps]
  by (auto simp: async_ok_def async_render_def Let_def start_request_def current_def dest: in_kill)
    (auto simp: invalidate_def)

lemma split_at_nth:
  assumes "i < length rs"
  obtains a b where "rs = a @ rs ! i # b" and "take i rs @ drop (Suc i) rs = a @ b"
  by (rule that [OF id_take_nth_drop [OF assms] refl])

lemma async_ok_settle:
  fixes server :: "'v \<Rightarrow> 'k \<Rightarrow> string + 'd" and v :: 'v and s :: "('k, 'd) async_state"
  assumes ok: "async_ok server s" and i: "i < length (as_requests s)"
  shows "async_ok server (async_settle i (server v (ar_deps (as_requests s ! i))) s)"
proof -
  define r where "r = as_requests s ! i"
  obtain a b where rs: "as_requests s = a @ r # b"
    and rest: "take i (as_requests s) @ drop (Suc i) (as_requests s) = a @ b"
    using split_at_nth [OF i] unfolding r_def by blast
  have set: "async_settle i (server v (ar_deps (as_requests s ! i))) s =
      (if ar_alive r
       then s\<lparr>as_requests := a @ b, as_cell := (case server v (ar_deps r) of
             Inr d \<Rightarrow> \<lparr>ce_key = Some (ar_deps r), ce_data = Some d, ce_error = None\<rparr>
           | Inl e \<Rightarrow> \<lparr>ce_key = Some (ar_deps r), ce_data = None, ce_error = Some e\<rparr>)\<rparr>
       else s\<lparr>as_requests := a @ b\<rparr>)"
    using i rest unfolding r_def by (simp add: async_settle_def Let_def)
  show ?thesis
  proof (cases "ar_alive r")
    case True
    have "length (filter ar_alive a) + length (filter ar_alive b) = 0"
      using ok True by (simp add: async_ok_def rs)
    then have dead: "\<forall>x \<in> set (a @ b). \<not> ar_alive x" by (auto simp: filter_empty_conv)
    then have "filter ar_alive (a @ b) = []" by (simp only: filter_empty_conv)
    moreover have "ar_deps r = as_deps s" using ok True by (simp add: async_ok_def rs)
    moreover have "ce_key (case server v (ar_deps r) of
             Inr d \<Rightarrow> \<lparr>ce_key = Some (ar_deps r), ce_data = Some d, ce_error = None\<rparr>
           | Inl e \<Rightarrow> \<lparr>ce_key = Some (ar_deps r), ce_data = None, ce_error = Some e\<rparr>) = Some (ar_deps r)"
      by (cases "server v (ar_deps r)") simp_all
    moreover note set [unfolded if_P [OF True]]
    ultimately show ?thesis
      using dead cell_ok_answer [where server = server and v = v and k = "ar_deps r"]
      by (simp add: async_ok_def current_def del: filter_append set_append)
  next
    case False
    have "set (a @ b) \<subseteq> set (as_requests s)" by (auto simp: rs)
    moreover have "filter ar_alive (a @ b) = filter ar_alive (as_requests s)" using False by (simp add: rs)
    moreover have "(\<exists>x \<in> set (a @ b). ar_alive x) \<longleftrightarrow> (\<exists>x \<in> set (as_requests s). ar_alive x)"
      using False by (auto simp: rs)
    moreover have eq: "async_settle i (server v (ar_deps (as_requests s ! i))) s = s\<lparr>as_requests := a @ b\<rparr>"
      using False by (simp add: set)
    moreover define t where "t = s\<lparr>as_requests := a @ b\<rparr>"
    moreover have "as_requests t = a @ b" "as_enabled t = as_enabled s" "as_deps t = as_deps s" "as_cell t = as_cell s"
      by (simp_all add: t_def)
    ultimately have "async_ok server t"
      using ok unfolding async_ok_def current_def by auto
    then show ?thesis unfolding eq t_def .
  qed
qed

lemma async_ok_step: "async_ok server s \<Longrightarrow> async_ok server (async_step server s e)"
  by (cases e) (auto simp: async_ok_render async_ok_settle)

interpretation async: machine "async_mount enabled deps" "async_step server" "async_ok server"
  for enabled deps server
  by unfold_locales (simp_all add: async_ok_mount async_ok_step)

text \<open>
  The answers that a run of the hook accepts, each with its dependencies, as a history of the events alone.
  The requests are numbered: a render that changes the options or the dependencies takes the next number, for a
  request if the hook is enabled, and an answer is accepted when no later number was taken.
\<close>

fun async_accepted ::
  "bool \<Rightarrow> 'k \<Rightarrow> (nat \<times> 'k) list \<Rightarrow> nat \<Rightarrow> ('k, 'v) async_event list \<Rightarrow> ('k \<times> 'v) list" where
  "async_accepted en k out n [] = []"
| "async_accepted en k out n (Render en' k' # es) =
     (if en' = en \<and> k' = k then async_accepted en k out n es
      else async_accepted en' k' (if en' then out @ [(n, k')] else out) (Suc n) es)"
| "async_accepted en k out n (Settled i v # es) =
     (if i < length out
      then (if Suc (fst (out ! i)) = n then [(snd (out ! i), v)] else [])
        @ async_accepted en k (take i out @ drop (Suc i) out) n es
      else async_accepted en k out n es)"

definition mount_accepted :: "bool \<Rightarrow> 'k \<Rightarrow> ('k, 'v) async_event list \<Rightarrow> ('k \<times> 'v) list" where
  "mount_accepted enabled deps = async_accepted enabled deps (if enabled then [(0, deps)] else []) 1"

text \<open>The cell holds what the last accepted answer brought, and its key that answer's dependencies or none.\<close>

definition last_answer :: "('v \<Rightarrow> 'k \<Rightarrow> string + 'd) \<Rightarrow> ('k \<times> 'v) list \<Rightarrow> (string + 'd) option" where
  "last_answer server h = (if h = [] then None else Some (server (snd (last h)) (fst (last h))))"

definition kept :: "(string + 'd) option \<Rightarrow> 'd option" where
  "kept a = (case a of Some (Inr d) \<Rightarrow> Some d | _ \<Rightarrow> None)"

definition cell_last :: "('v \<Rightarrow> 'k \<Rightarrow> string + 'd) \<Rightarrow> ('k \<times> 'v) list \<Rightarrow> ('k, 'd) cell \<Rightarrow> bool" where
  "cell_last server h c \<longleftrightarrow> ce_data c = kept (last_answer server h)
     \<and> (case ce_key c of None \<Rightarrow> True | Some k \<Rightarrow> h \<noteq> [] \<and> fst (last h) = k
          \<and> ce_error c = (case server (snd (last h)) k of Inl e \<Rightarrow> Some e | Inr d \<Rightarrow> None))"

definition requests_ok :: "('k, 'd) async_state \<Rightarrow> (nat \<times> 'k) list \<Rightarrow> nat \<Rightarrow> bool" where
  "requests_ok s out n \<longleftrightarrow>
     as_requests s = map (\<lambda>(j, k). \<lparr>ar_deps = k, ar_alive = (Suc j = n)\<rparr>) out \<and> (\<forall>j \<in> fst ` set out. j < n)"

lemma cell_last_invalidate: "cell_last server h c \<Longrightarrow> cell_last server h (invalidate deps c)"
  by (simp add: cell_last_def invalidate_def)

lemma cell_last_answer:
  "cell_last server (h @ [(k, v)]) (case server v k of
       Inr d \<Rightarrow> \<lparr>ce_key = Some k, ce_data = Some d, ce_error = None\<rparr>
     | Inl e \<Rightarrow> \<lparr>ce_key = Some k, ce_data = None, ce_error = Some e\<rparr>)"
  by (simp add: cell_last_def last_answer_def kept_def split: sum.split)

lemma requests_ok_kill:
  assumes "requests_ok s out n"
  shows "kill_requests (as_requests s) = map (\<lambda>(j, k). \<lparr>ar_deps = k, ar_alive = (Suc j = Suc n)\<rparr>) out"
  using assms by (auto simp: requests_ok_def kill_requests_def)

lemma render_run:
  assumes "cell_last server h (as_cell s)" and "requests_ok s out n" and "\<not> (en = as_enabled s \<and> k = as_deps s)"
  shows "cell_last server h (as_cell (async_render en k s))"
    and "requests_ok (async_render en k s) (if en then out @ [(n, k)] else out) (Suc n)"
    and "as_enabled (async_render en k s) = en" and "as_deps (async_render en k s) = k"
proof -
  have eq: "async_render en k s = \<lparr>as_cell = invalidate k (as_cell s), as_enabled = en, as_deps = k,
      as_requests = start_request en k (kill_requests (as_requests s))\<rparr>"
    unfolding async_render_def Let_def using assms(3) by (rule if_not_P)
  show "cell_last server h (as_cell (async_render en k s))"
    using cell_last_invalidate [OF assms(1)] by (simp add: eq)
  show "requests_ok (async_render en k s) (if en then out @ [(n, k)] else out) (Suc n)"
    using assms(2) requests_ok_kill [OF assms(2)] by (auto simp: eq requests_ok_def start_request_def)
qed (use assms(3) in \<open>auto simp: async_render_def Let_def\<close>)

lemma render_same:
  assumes "cell_last server h (as_cell s)" and "requests_ok s out n"
  shows "cell_last server h (as_cell (async_render (as_enabled s) (as_deps s) s))"
    and "requests_ok (async_render (as_enabled s) (as_deps s) s) out n"
  using assms cell_last_invalidate by (simp_all add: async_render_def Let_def requests_ok_def)

lemma settle_run:
  assumes "cell_last server h (as_cell s)" and ok: "requests_ok s out n" and i: "i < length out"
  shows "cell_last server (h @ (if Suc (fst (out ! i)) = n then [(snd (out ! i), v)] else []))
      (as_cell (async_step server s (Settled i v)))"
    and "requests_ok (async_step server s (Settled i v)) (take i out @ drop (Suc i) out) n"
proof -
  have r: "as_requests s ! i = \<lparr>ar_deps = snd (out ! i), ar_alive = (Suc (fst (out ! i)) = n)\<rparr>"
    and len: "i < length (as_requests s)"
    using ok i by (simp_all add: requests_ok_def split_beta)
  show "cell_last server (h @ (if Suc (fst (out ! i)) = n then [(snd (out ! i), v)] else []))
      (as_cell (async_step server s (Settled i v)))"
    using assms(1) cell_last_answer [of server h "snd (out ! i)" v] len r
    by (cases "server v (snd (out ! i))") (simp_all add: async_settle_def Let_def)
  have "as_requests (async_step server s (Settled i v)) = take i (as_requests s) @ drop (Suc i) (as_requests s)"
    using len by (simp add: async_settle_def Let_def)
  then show "requests_ok (async_step server s (Settled i v)) (take i out @ drop (Suc i) out) n"
    using ok by (auto simp: requests_ok_def take_map [symmetric] drop_map [symmetric] dest: in_set_takeD in_set_dropD)
qed

lemma settle_kept: "as_enabled (async_step server s (Settled i v)) = as_enabled s"
    "as_deps (async_step server s (Settled i v)) = as_deps s"
  by (simp_all add: async_settle_def Let_def)

lemma cell_last_run:
  "cell_last server h (as_cell s) \<Longrightarrow> requests_ok s out n \<Longrightarrow>
    cell_last server (h @ async_accepted (as_enabled s) (as_deps s) out n es) (as_cell (foldl (async_step server) s es))"
proof (induction es arbitrary: h s out n)
  case (Cons e es)
  show ?case
  proof (cases e)
    case (Render en k)
    show ?thesis
    proof (cases "en = as_enabled s \<and> k = as_deps s")
      case True
      then show ?thesis using Cons.IH [OF render_same [OF Cons.prems]] by (simp add: Render async_render_def Let_def)
    next
      case False
      then show ?thesis using Cons.IH [OF render_run(1,2) [OF Cons.prems False]] render_run(3,4) [OF Cons.prems False]
        by (simp add: Render del: de_Morgan_conj)
    qed
  next
    case (Settled i v)
    show ?thesis
    proof (cases "i < length out")
      case True
      from Cons.IH [OF settle_run [OF Cons.prems True]] True show ?thesis
        by (simp add: Settled settle_kept del: async_step.simps)
    next
      case False
      then have "async_step server s e = s" using Cons.prems(2) by (simp add: Settled requests_ok_def)
      then show ?thesis using Cons.IH [OF Cons.prems] False by (simp add: Settled)
    qed
  qed
qed simp

lemma cell_last_mount:
  fixes server :: "'v \<Rightarrow> 'k \<Rightarrow> string + 'd"
  shows "cell_last server (mount_accepted enabled deps es) (as_cell (foldl (async_step server) (async_mount enabled deps) es))"
proof -
  have cell: "cell_last server [] (as_cell (async_mount enabled deps))"
    by (simp add: cell_last_def async_mount_def last_answer_def kept_def)
  have reqs: "requests_ok (async_mount enabled deps) (if enabled then [(0, deps)] else []) 1"
    by (simp add: requests_ok_def async_mount_def start_request_def)
  have "as_enabled (async_mount enabled deps :: ('k, 'd) async_state) = enabled"
      "as_deps (async_mount enabled deps :: ('k, 'd) async_state) = deps"
    by (simp_all add: async_mount_def)
  with cell_last_run [OF cell reqs, of es] show ?thesis unfolding mount_accepted_def by (simp only: append_Nil)
qed

section \<open>useServerSearch\<close>

record 'r search_state =
  se_query :: string
  se_results :: "'r list option"
  se_searching :: bool
  se_timer :: "string option"
  se_inflight :: "string list"

datatype 'r search_event =
    QueryChanged string
  | SearchTimer
  | SearchAnswer nat "'r list option"
  | ResetSearch

text \<open>The effect of a query: idle below the minimal length, otherwise a timer for the trimmed query.\<close>

definition search_effect :: "nat \<Rightarrow> string \<Rightarrow> 'r search_state \<Rightarrow> 'r search_state" where
  "search_effect minLength query s =
     (let trimmed = trim query in
      if length trimmed < minLength
      then s\<lparr>se_query := query, se_results := None, se_searching := False, se_timer := None\<rparr>
      else s\<lparr>se_query := query, se_searching := True, se_timer := Some trimmed\<rparr>)"

fun search_step :: "nat \<Rightarrow> 'r search_state \<Rightarrow> 'r search_event \<Rightarrow> 'r search_state" where
  "search_step minLength s (QueryChanged q) = (if q = se_query s then s else search_effect minLength q s)"
| "search_step minLength s SearchTimer =
     (case se_timer s of
        None \<Rightarrow> s
      | Some t \<Rightarrow> s\<lparr>se_timer := None, se_inflight := se_inflight s @ [t]\<rparr>)"
| "search_step minLength s (SearchAnswer i res) =
     (if i < length (se_inflight s)
      then s\<lparr>se_inflight := take i (se_inflight s) @ drop (Suc i) (se_inflight s),
             se_results := Some (nullish res []), se_searching := False\<rparr>
      else s)"
| "search_step minLength s ResetSearch = s\<lparr>se_results := None, se_searching := False\<rparr>"

definition search_mount :: "nat \<Rightarrow> string \<Rightarrow> 'r search_state" where
  "search_mount minLength q = search_effect minLength q
     \<lparr>se_query = q, se_results = None, se_searching = False, se_timer = None, se_inflight = []\<rparr>"

text \<open>
  A timer runs only for the current query, which is long enough; no request is sent for a query that
  is too short.
\<close>

definition search_ok :: "nat \<Rightarrow> 'r search_state \<Rightarrow> bool" where
  "search_ok minLength s \<longleftrightarrow>
     (\<forall>t. se_timer s = Some t \<longrightarrow> t = trim (se_query s) \<and> minLength \<le> length t)
     \<and> (\<forall>t \<in> set (se_inflight s). minLength \<le> length t \<and> trim t = t)"

lemma search_ok_step: "search_ok minLength s \<Longrightarrow> search_ok minLength (search_step minLength s e)"
  by (cases e) (auto simp: search_ok_def search_effect_def Let_def dest: in_set_takeD in_set_dropD
      split: option.splits)

lemma search_ok_mount: "search_ok minLength (search_mount minLength q)"
  by (auto simp: search_ok_def search_mount_def search_effect_def Let_def)

interpretation server_search: machine "search_mount minLength q" "search_step minLength" "search_ok minLength"
  for minLength q
  by unfold_locales (simp_all add: search_ok_mount search_ok_step)

section \<open>usePolling\<close>

record polling =
  po_enabled :: bool
  po_immediate :: bool
  po_interval :: int
  po_timer :: bool

text \<open>The effect of a change of the options: the new state and the number of immediate calls.\<close>

definition polling_effect :: "bool \<Rightarrow> bool \<Rightarrow> int \<Rightarrow> polling \<times> nat" where
  "polling_effect enabled immediate interval =
     (\<lparr>po_enabled = enabled, po_immediate = immediate, po_interval = interval,
       po_timer = (enabled \<and> interval > 0)\<rparr>,
      if enabled \<and> immediate then 1 else 0)"

definition polling_render :: "bool \<Rightarrow> bool \<Rightarrow> int \<Rightarrow> polling \<Rightarrow> polling \<times> nat" where
  "polling_render enabled immediate interval p =
     (if enabled = po_enabled p \<and> immediate = po_immediate p \<and> interval = po_interval p then (p, 0)
      else polling_effect enabled immediate interval)"

text \<open>Whether a tick of the interval calls the function.\<close>

definition polling_tick :: "bool \<Rightarrow> polling \<Rightarrow> bool" where
  "polling_tick hidden p \<longleftrightarrow> po_timer p \<and> \<not> hidden"

section \<open>useTreeExpansion\<close>

datatype tree_request = CatRequest string | DbRequest string string

record tree_state =
  tr_expandedCats :: "string list"
  tr_expandedDbs :: "string list"
  tr_dbMap :: "database_item list jsobj"
  tr_objMap :: "object_item list jsobj"
  tr_pending :: "tree_request list"

definition tree_init :: tree_state where
  "tree_init = \<lparr>tr_expandedCats = [], tr_expandedDbs = [], tr_dbMap = [], tr_objMap = [], tr_pending = []\<rparr>"

definition db_key :: "string \<Rightarrow> string \<Rightarrow> string" where
  "db_key cat db = cat @ ''.'' @ db"

datatype tree_event =
    ToggleCat string
  | ToggleDb string string
  | DbsAnswer nat "database_item list option"
  | ObjsAnswer nat "object_item list option"

definition drop_pending :: "nat \<Rightarrow> tree_state \<Rightarrow> tree_state" where
  "drop_pending i s = s\<lparr>tr_pending := take i (tr_pending s) @ drop (Suc i) (tr_pending s)\<rparr>"

definition flip_cat :: "string \<Rightarrow> tree_state \<Rightarrow> tree_state" where
  "flip_cat cat s = s\<lparr>tr_expandedCats := set_toggle cat (tr_expandedCats s)\<rparr>"

definition flip_db :: "string \<Rightarrow> tree_state \<Rightarrow> tree_state" where
  "flip_db key s = s\<lparr>tr_expandedDbs := set_toggle key (tr_expandedDbs s)\<rparr>"

text \<open>A failed load counts as an empty list.\<close>

fun tree_step :: "tree_state \<Rightarrow> tree_event \<Rightarrow> tree_state" where
  "tree_step s (ToggleCat cat) =
     (if cat \<notin> set (tr_expandedCats s) \<and> \<not> obj_has (tr_dbMap s) cat
      then s\<lparr>tr_pending := tr_pending s @ [CatRequest cat]\<rparr>
      else flip_cat cat s)"
| "tree_step s (ToggleDb cat db) =
     (if db_key cat db \<notin> set (tr_expandedDbs s) \<and> \<not> obj_has (tr_objMap s) (db_key cat db)
      then s\<lparr>tr_pending := tr_pending s @ [DbRequest cat db]\<rparr>
      else flip_db (db_key cat db) s)"
| "tree_step s (DbsAnswer i res) =
     (if i < length (tr_pending s) then
        (case tr_pending s ! i of
           CatRequest cat \<Rightarrow>
             flip_cat cat ((drop_pending i s)\<lparr>tr_dbMap := obj_set cat (nullish res []) (tr_dbMap s)\<rparr>)
         | DbRequest c d \<Rightarrow> s)
      else s)"
| "tree_step s (ObjsAnswer i res) =
     (if i < length (tr_pending s) then
        (case tr_pending s ! i of
           DbRequest c d \<Rightarrow> flip_db (db_key c d)
             ((drop_pending i s)\<lparr>tr_objMap := obj_set (db_key c d) (nullish res []) (tr_objMap s)\<rparr>)
         | CatRequest cat \<Rightarrow> s)
      else s)"

text \<open>
  An expanded key has its children loaded, except for a catalog named like an inherited member, which
  counts as loaded from the start. A key with a dot is none of these.
\<close>

lemma db_key_not_proto: "db_key cat db \<notin> set PROTO_MEMBERS"
proof
  assume "db_key cat db \<in> set PROTO_MEMBERS"
  moreover have "CHR ''.'' \<in> set (db_key cat db)" by (simp add: db_key_def)
  moreover have "\<forall>k \<in> set PROTO_MEMBERS. CHR ''.'' \<notin> set k" by (simp add: PROTO_MEMBERS_def)
  ultimately show False by blast
qed

definition tree_ok :: "tree_state \<Rightarrow> bool" where
  "tree_ok s \<longleftrightarrow> (\<forall>c \<in> set (tr_expandedCats s). obj_has (tr_dbMap s) c)
     \<and> (\<forall>k \<in> set (tr_expandedDbs s). obj_get (tr_objMap s) k \<noteq> None)
     \<and> distinct (tr_expandedCats s) \<and> distinct (tr_expandedDbs s)"

lemma tree_ok_step: "tree_ok s \<Longrightarrow> tree_ok (tree_step s e)"
  using db_key_not_proto
  by (cases e) (auto simp: tree_ok_def flip_cat_def flip_db_def drop_pending_def set_set_toggle obj_has_def
      split: tree_request.split if_splits)

interpretation tree: machine tree_init tree_step tree_ok
  by unfold_locales (simp add: tree_ok_def tree_init_def, rule tree_ok_step)

interpretation cat_toggle: toggle_set flip_cat "\<lambda>s c. c \<in> set (tr_expandedCats s)"
  by unfold_locales (auto simp: flip_cat_def js_set.mem_toggle)

section \<open>Properties\<close>

text \<open>
  C29. The data hook returns what it promises, with and without \<open>keepPreviousData\<close>. After any sequence of
  renders and answers, whatever the server answers each time: at most one request is alive; while the hook is
  loading, the request for the current dependencies is, there is no error, and the data are those of the
  previous answer if they are to be kept, and none otherwise; an enabled hook that is not loading returns
  exactly the last answer that was accepted, which is an answer for the current dependencies, as its data or
  as its error; a disabled one returns that or, without an answer for them, what it would while loading. The
  answers accepted are those that no render with other dependencies or options has overtaken.
\<close>

theorem async_data_current:
  "case foldl (async_step server) (async_mount enabled deps) es of s \<Rightarrow>
     (case mount_accepted enabled deps es of h \<Rightarrow>
     (case async_result keepPreviousData s of r \<Rightarrow>
     (case (ar_error r = None \<and> ar_data r = (if keepPreviousData then kept (last_answer server h) else None)) of waiting \<Rightarrow>
     (case (h \<noteq> [] \<and> fst (last h) = as_deps s
            \<and> (case server (snd (last h)) (as_deps s) of
                 Inr d \<Rightarrow> ar_data r = Some d \<and> ar_error r = None
               | Inl e \<Rightarrow> ar_data r = None \<and> ar_error r = Some e)) of answered \<Rightarrow>
       (if ar_loading r then waiting \<and> as_enabled s
            \<and> (\<exists>q \<in> set (as_requests s). ar_alive q \<and> ar_deps q = as_deps s)
        else if as_enabled s then answered else answered \<or> waiting)
       \<and> length (filter ar_alive (as_requests s)) \<le> 1))))"
proof -
  let ?s = "foldl (async_step server) (async_mount enabled deps) es" and ?h = "mount_accepted enabled deps es"
  have ok: "async_ok server ?s" by (rule async.inv_run)
  then have live: "as_enabled ?s \<Longrightarrow> \<not> current ?s \<Longrightarrow>
      \<exists>q \<in> set (as_requests ?s). ar_alive q \<and> ar_deps q = as_deps ?s"
    by (auto simp: async_ok_def)
  have cell: "cell_last server ?h (as_cell ?s)" by (rule cell_last_mount)
  show ?thesis
  proof (cases "current ?s")
    case True
    with cell have "?h \<noteq> [] \<and> fst (last ?h) = as_deps ?s
        \<and> ce_error (as_cell ?s) = (case server (snd (last ?h)) (as_deps ?s) of Inl e \<Rightarrow> Some e | Inr d \<Rightarrow> None)
        \<and> ce_data (as_cell ?s) = kept (last_answer server ?h)"
      by (simp add: cell_last_def current_def)
    then show ?thesis using ok True
      by (auto simp: async_ok_def async_result_def last_answer_def kept_def split: sum.split)
  next
    case False
    then show ?thesis using ok live cell by (auto simp: async_ok_def async_result_def cell_last_def)
  qed
qed

text \<open>
  The object tree: after any interleaving of clicks and answers, every expanded database has its
  objects loaded and every expanded catalog its databases, unless it is named like a member that plain
  objects inherit; a failed load leaves an empty list rather than an endless spinner.
\<close>

theorem expanded_is_loaded:
  "case foldl tree_step tree_init es of s \<Rightarrow>
     list_all (\<lambda>c. if c \<in> set PROTO_MEMBERS then True else obj_get (tr_dbMap s) c \<noteq> None) (tr_expandedCats s)
     \<and> list_all (\<lambda>k. obj_get (tr_objMap s) k \<noteq> None) (tr_expandedDbs s)
     \<and> distinct (tr_expandedCats s) \<and> distinct (tr_expandedDbs s)"
  using tree.inv_run [of es] by (auto simp: tree_ok_def list_all_iff obj_has_def)

text \<open>Such a catalog is expanded without ever being loaded.\<close>

lemma inherited_catalog_unloaded:
  "(let s = tree_step tree_init (ToggleCat ''constructor'')
    in tr_expandedCats s = [''constructor''] \<and> tr_dbMap s = [] \<and> tr_pending s = [])"
  by code_simp

text \<open>
  The debounced search never sends a request for a query below the minimal length, sends trimmed
  queries only, and what its timer will send is the query typed last.
\<close>

theorem search_sends_current:
  "case foldl (search_step minLength) (search_mount minLength q) es of s \<Rightarrow>
     list_all (\<lambda>t. minLength \<le> length t \<and> trim t = t) (se_inflight s)
     \<and> (case se_timer s of None \<Rightarrow> True | Some t \<Rightarrow> t = trim (se_query s) \<and> minLength \<le> length t)"
  using server_search.inv_run [of minLength q es]
  by (auto simp: search_ok_def list_all_iff split: option.splits)

text \<open>
  A request in flight is not cancelled when its query is superseded or cleared: its answer becomes the
  result of a query it does not answer, even of the idle state, which should have none.
\<close>

lemma stale_search_results:
  "(let s = foldl (search_step 2) (search_mount 2 []) [QueryChanged ''ab'', SearchTimer, QueryChanged [],
       SearchAnswer 0 (Some [True])]
    in se_query s = [] \<and> se_results s = Some [True])"
  by code_simp

end
