(* ===== verification/Js_Json.thy ===== *)
theory Js_Json
  imports Js_Collections
begin

text \<open>
  \<open>JSON.parse\<close> and \<open>JSON.stringify\<close> on the values that the frontend stores and sends. Numbers
  are exact rationals. The parser is a recursive descent with fuel: each call of a value or of a tail
  of a list takes one unit, so twice the length of the text and two are enough
  (\<open>parse_fuel\<close>). A text that is not JSON gives no value, where the code has an exception.
\<close>

datatype json =
    JNull
  | JBool bool
  | JNum rat
  | JStr string
  | JArr "json list"
  | JObj "(string \<times> json) list"

text \<open>\<open>!!v\<close> and \<open>String(v)\<close>.\<close>

fun js_truthy :: "json \<Rightarrow> bool" where
  "js_truthy JNull = False"
| "js_truthy (JBool b) = b"
| "js_truthy (JNum x) = (x \<noteq> 0)"
| "js_truthy (JStr s) = (s \<noteq> [])"
| "js_truthy (JArr vs) = True"
| "js_truthy (JObj m) = True"

fun js_string :: "json \<Rightarrow> string" where
  "js_string JNull = ''null''"
| "js_string (JBool b) = (if b then ''true'' else ''false'')"
| "js_string (JNum x) = num_str x"
| "js_string (JStr s) = s"
| "js_string (JArr vs) = join '','' (map (\<lambda>v. if v = JNull then [] else js_string v) vs)"
| "js_string (JObj m) = ''[object Object]''"

section \<open>Strings\<close>

definition hex_digit :: "nat \<Rightarrow> char" where
  "hex_digit d = (if d < 10 then char_of (48 + d) else char_of (87 + d))"

definition hex_value :: "char \<Rightarrow> nat option" where
  "hex_value c = (let n = of_char c in
     if 48 \<le> n \<and> n \<le> 57 then Some (n - 48)
     else if 97 \<le> n \<and> n \<le> 102 then Some (n - 87)
     else if 65 \<le> n \<and> n \<le> 70 then Some (n - 55)
     else None)"

definition backslash :: char where "backslash = char_of (92 :: nat)"
definition dquot :: char where "dquot = char_of (34 :: nat)"

definition esc_char :: "char \<Rightarrow> string" where
  "esc_char c = (let n = of_char c :: nat in
     if n = 34 \<or> n = 92 then [backslash, c]
     else if n = 8 then [backslash, CHR ''b'']
     else if n = 9 then [backslash, CHR ''t'']
     else if n = 10 then [backslash, CHR ''n'']
     else if n = 12 then [backslash, CHR ''f'']
     else if n = 13 then [backslash, CHR ''r'']
     else if n < 32 then [backslash, CHR ''u'', CHR ''0'', CHR ''0'', hex_digit (n div 16), hex_digit (n mod 16)]
     else [c])"

definition json_quote :: "string \<Rightarrow> string" where
  "json_quote s = dquot # concat (map esc_char s) @ [dquot]"

text \<open>The UTF-8 bytes of a code point.\<close>

definition utf8 :: "nat \<Rightarrow> string" where
  "utf8 n = (if n < 128 then [char_of n]
     else if n < 2048 then [char_of (192 + n div 64), char_of (128 + n mod 64)]
     else if n < 65536 then [char_of (224 + n div 4096), char_of (128 + n div 64 mod 64), char_of (128 + n mod 64)]
     else [char_of (240 + n div 262144), char_of (128 + n div 4096 mod 64),
           char_of (128 + n div 64 mod 64), char_of (128 + n mod 64)])"

definition hex4 :: "string \<Rightarrow> nat option" where
  "hex4 s = (case map hex_value (take 4 s) of
      [Some a, Some b, Some c, Some d] \<Rightarrow> Some (4096 * a + 256 * b + 16 * c + d)
    | _ \<Rightarrow> None)"

definition simple_escape :: "char \<Rightarrow> char option" where
  "simple_escape c = (let n = of_char c :: nat in
     if n = 34 \<or> n = 92 \<or> n = 47 then Some c
     else if c = CHR ''b'' then Some (char_of (8 :: nat))
     else if c = CHR ''t'' then Some (char_of (9 :: nat))
     else if c = CHR ''n'' then Some (char_of (10 :: nat))
     else if c = CHR ''f'' then Some (char_of (12 :: nat))
     else if c = CHR ''r'' then Some (char_of (13 :: nat))
     else None)"

definition prepend :: "string \<Rightarrow> (string \<times> 'r) option \<Rightarrow> (string \<times> 'r) option" where
  "prepend p r = map_option (\<lambda>(t, rest). (p @ t, rest)) r"

text \<open>
  The part of a string after its opening quote: the content and the rest. A pair of escaped
  surrogates is one code point.
\<close>

fun str_body :: "string \<Rightarrow> (string \<times> string) option" where
  "str_body [] = None"
| "str_body (c # cs) =
     (if c = dquot then Some ([], cs)
      else if c = backslash then
        (if cs = [] then None
         else if hd cs = CHR ''u'' then
           (case hex4 (drop 1 cs) of
              None \<Rightarrow> None
            | Some n \<Rightarrow>
                (case hex4 (drop 7 cs) of
                   Some m \<Rightarrow>
                     if 55296 \<le> n \<and> n < 56320 \<and> take 2 (drop 5 cs) = [backslash, CHR ''u''] \<and> 56320 \<le> m \<and> m < 57344
                     then prepend (utf8 (65536 + (n - 55296) * 1024 + (m - 56320))) (str_body (drop 11 cs))
                     else prepend (utf8 n) (str_body (drop 5 cs))
                 | None \<Rightarrow> prepend (utf8 n) (str_body (drop 5 cs))))
         else (case simple_escape (hd cs) of
              None \<Rightarrow> None
            | Some d \<Rightarrow> prepend [d] (str_body (drop 1 cs))))
      else if of_char c < (32 :: nat) then None
      else prepend [c] (str_body cs))"

declare str_body.simps [simp del]

section \<open>Numbers\<close>

definition digits_of :: "string \<Rightarrow> string \<times> string" where
  "digits_of s = (takeWhile is_digit s, dropWhile is_digit s)"

text \<open>The fraction after the integer part, and the exponent after the fraction.\<close>

definition parse_frac :: "string \<Rightarrow> (rat \<times> string) option" where
  "parse_frac s = (case s of
      c # r \<Rightarrow> if c = CHR ''.'' then (case digits_of r of (ds, r') \<Rightarrow>
                 if ds = [] then None else Some (of_nat (str_nat ds 0) / 10 ^ length ds, r'))
               else Some (0, s)
    | [] \<Rightarrow> Some (0, s))"

definition parse_exp :: "string \<Rightarrow> (rat \<times> string) option" where
  "parse_exp s = (case s of
      c # r \<Rightarrow> if c = CHR ''e'' \<or> c = CHR ''E'' then
          (let (neg, r1) = (case r of d # r' \<Rightarrow> if d = CHR ''-'' then (True, r')
                              else if d = CHR ''+'' then (False, r') else (False, r) | [] \<Rightarrow> (False, r));
               (ds, r2) = digits_of r1
           in if ds = [] then None
              else Some (if neg then 1 / 10 ^ str_nat ds 0 else 10 ^ str_nat ds 0, r2))
        else Some (1, s)
    | [] \<Rightarrow> Some (1, s))"

definition parse_mag :: "string \<Rightarrow> (rat \<times> string) option" where
  "parse_mag s = (case digits_of s of (ds, r) \<Rightarrow>
     if ds = [] \<or> (hd ds = CHR ''0'' \<and> length ds > 1) then None
     else (case parse_frac r of
        None \<Rightarrow> None
      | Some (f, r1) \<Rightarrow> (case parse_exp r1 of
          None \<Rightarrow> None
        | Some (e, r2) \<Rightarrow> Some ((of_nat (str_nat ds 0) + f) * e, r2))))"

definition parse_num :: "string \<Rightarrow> (rat \<times> string) option" where
  "parse_num s = (case s of
      c # r \<Rightarrow> if c = CHR ''-'' then map_option (\<lambda>(x, r'). (- x, r')) (parse_mag r) else parse_mag s
    | [] \<Rightarrow> None)"

section \<open>Values\<close>

definition json_ws :: "char \<Rightarrow> bool" where
  "json_ws c \<longleftrightarrow> of_char c \<in> {9, 10, 13, 32 :: nat}"

definition skip_ws :: "string \<Rightarrow> string" where
  "skip_ws s = dropWhile json_ws s"

fun parse_value :: "nat \<Rightarrow> string \<Rightarrow> (json \<times> string) option"
  and parse_elems :: "nat \<Rightarrow> string \<Rightarrow> (json list \<times> string) option"
  and parse_members :: "nat \<Rightarrow> string \<Rightarrow> ((string \<times> json) list \<times> string) option" where
  "parse_value 0 s = None"
| "parse_value (Suc n) s = (case skip_ws s of
      [] \<Rightarrow> None
    | c # r \<Rightarrow>
        if c = dquot then map_option (\<lambda>(t, r'). (JStr t, r')) (str_body r)
        else if c = CHR ''['' then
          (if starts_with '']'' (skip_ws r) then Some (JArr [], tl (skip_ws r))
           else map_option (\<lambda>(vs, r'). (JArr vs, r')) (parse_elems n r))
        else if c = CHR ''{'' then
          (if starts_with ''}'' (skip_ws r) then Some (JObj [], tl (skip_ws r))
           else map_option (\<lambda>(ms, r'). (JObj (foldl (\<lambda>m (k, v). obj_set k v m) [] ms), r')) (parse_members n r))
        else if starts_with ''true'' (c # r) then Some (JBool True, drop 4 (c # r))
        else if starts_with ''false'' (c # r) then Some (JBool False, drop 5 (c # r))
        else if starts_with ''null'' (c # r) then Some (JNull, drop 4 (c # r))
        else map_option (\<lambda>(x, r'). (JNum x, r')) (parse_num (c # r)))"
| "parse_elems 0 s = None"
| "parse_elems (Suc n) s = (case parse_value n s of
      None \<Rightarrow> None
    | Some (v, r) \<Rightarrow> (case skip_ws r of
        c # r' \<Rightarrow> if c = CHR '','' then map_option (\<lambda>(vs, t). (v # vs, t)) (parse_elems n r')
                 else if c = CHR '']'' then Some ([v], r') else None
      | [] \<Rightarrow> None))"
| "parse_members 0 s = None"
| "parse_members (Suc n) s = (case skip_ws s of
      [] \<Rightarrow> None
    | q # r0 \<Rightarrow> if q \<noteq> dquot then None
      else (case str_body r0 of
          None \<Rightarrow> None
        | Some (k, r1) \<Rightarrow> (case skip_ws r1 of
            [] \<Rightarrow> None
          | d # r2 \<Rightarrow> if d \<noteq> CHR '':'' then None
            else (case parse_value n r2 of
                None \<Rightarrow> None
              | Some (v, r) \<Rightarrow> (case skip_ws r of
                  c # r' \<Rightarrow> if c = CHR '','' then map_option (\<lambda>(ms, t). ((k, v) # ms, t)) (parse_members n r')
                           else if c = CHR ''}'' then Some ([(k, v)], r') else None
                | [] \<Rightarrow> None)))))"

definition json_parse :: "string \<Rightarrow> json option" where
  "json_parse s = (case parse_value (2 * length s + 2) s of
      Some (v, r) \<Rightarrow> if skip_ws r = [] then Some v else None
    | None \<Rightarrow> None)"

text \<open>\<open>JSON.stringify(v)\<close>; the members of an object in the order of \<open>Object.keys\<close>.\<close>

fun json_str :: "json \<Rightarrow> string" where
  "json_str JNull = ''null''"
| "json_str (JBool b) = (if b then ''true'' else ''false'')"
| "json_str (JNum x) = num_str x"
| "json_str (JStr s) = json_quote s"
| "json_str (JArr vs) = ''['' @ join '','' (map json_str vs) @ '']''"
| "json_str (JObj m) = ''{'' @ join '',''
     (map (\<lambda>(k, t). json_quote k @ '':'' @ t) (obj_entries (map (\<lambda>(k, v). (k, json_str v)) m))) @ ''}''"

text \<open>\<open>JSON.stringify(v, null, 2)\<close>.\<close>

definition newline :: string where "newline = [char_of (10 :: nat)]"

fun json_pretty :: "string \<Rightarrow> json \<Rightarrow> string" where
  "json_pretty ind JNull = ''null''"
| "json_pretty ind (JBool b) = (if b then ''true'' else ''false'')"
| "json_pretty ind (JNum x) = num_str x"
| "json_pretty ind (JStr s) = json_quote s"
| "json_pretty ind (JArr vs) = (if vs = [] then ''[]'' else
     ''['' @ newline @ join ('','' @ newline) (map (\<lambda>v. ind @ ''  '' @ json_pretty (ind @ ''  '') v) vs)
     @ newline @ ind @ '']'')"
| "json_pretty ind (JObj m) = (if m = [] then ''{}'' else
     ''{'' @ newline @ join ('','' @ newline)
       (map (\<lambda>(k, t). ind @ ''  '' @ json_quote k @ '': '' @ t)
         (obj_entries (map (\<lambda>(k, v). (k, json_pretty (ind @ ''  '') v)) m)))
     @ newline @ ind @ ''}'')"

definition member :: "string \<Rightarrow> json \<Rightarrow> json option" where
  "member k j = (case j of JObj m \<Rightarrow> obj_get m k | _ \<Rightarrow> None)"

section \<open>What is written can be read\<close>

lemma prepend_simps [simp]: "prepend p None = None" "prepend p (Some (t, r)) = Some (p @ t, r)"
  by (simp_all add: prepend_def)

lemma char_is: "c = char_of n \<longleftrightarrow> of_char c = n" if "n < (256 :: nat)"
  using that by (metis of_char_of char_of_char mod_less)

lemma dquot_iff: "c = dquot \<longleftrightarrow> of_char c = (34 :: nat)"
  and backslash_iff: "c = backslash \<longleftrightarrow> of_char c = (92 :: nat)"
  by (simp_all add: dquot_def backslash_def char_is)

lemma hex_value_digit: "d < 16 \<Longrightarrow> hex_value (hex_digit d) = Some d"
  by (auto simp: hex_value_def hex_digit_def Let_def)

lemma utf8_byte: "n < 128 \<Longrightarrow> utf8 n = [char_of n]"
  by (simp add: utf8_def)

lemma hex4_control:
  assumes "n < 32"
  shows "hex4 (CHR ''0'' # CHR ''0'' # hex_digit (n div 16) # hex_digit (n mod 16) # t) = Some n"
proof -
  have "hex_value (CHR ''0'') = Some 0" by (simp add: hex_value_def)
  moreover have "hex_value (hex_digit (n div 16)) = Some (n div 16)"
      "hex_value (hex_digit (n mod 16)) = Some (n mod 16)"
    using assms by (simp_all add: hex_value_digit)
  moreover have "16 * (n div 16) + n mod 16 = n" by simp
  ultimately show ?thesis by (simp add: hex4_def)
qed

lemma str_body_esc: "str_body (esc_char c @ t) = prepend [c] (str_body t)"
proof -
  define n where "n = (of_char c :: nat)"
  then have c: "c = char_of n" by simp
  have bs: "backslash \<noteq> dquot" by (simp add: backslash_def dquot_def)
  consider "n = 34 \<or> n = 92" | "n \<in> {8, 9, 10, 12, 13}" | "n < 32" "n \<notin> {8, 9, 10, 12, 13}"
    | "n \<ge> 32" "n \<noteq> 34" "n \<noteq> 92" by force
  then show ?thesis
  proof cases
    case 1
    then have "esc_char c = [backslash, c]" "simple_escape c = Some c"
      by (auto simp: esc_char_def simple_escape_def n_def [symmetric])
    moreover have "c \<noteq> CHR ''u''" using 1 by (auto simp: n_def)
    ultimately show ?thesis using bs by (simp add: str_body.simps(2) [of backslash])
  next
    case 2
    then show ?thesis
      using bs by (auto simp: esc_char_def n_def [symmetric] c str_body.simps(2) [of backslash] simple_escape_def)
  next
    case 3
    then have "esc_char c = [backslash, CHR ''u'', CHR ''0'', CHR ''0'', hex_digit (n div 16), hex_digit (n mod 16)]"
      by (simp add: esc_char_def n_def [symmetric])
    moreover have "hex4 (CHR ''0'' # CHR ''0'' # hex_digit (n div 16) # hex_digit (n mod 16) # t) = Some n"
      using 3(1) by (rule hex4_control)
    ultimately show ?thesis
      using bs 3(1) by (simp add: str_body.simps(2) [of backslash] utf8_byte c split: option.splits)
  next
    case 4
    then have "esc_char c = [c]" "c \<noteq> dquot" "c \<noteq> backslash"
      by (simp_all add: esc_char_def n_def [symmetric] dquot_iff backslash_iff)
    then show ?thesis using 4(1) by (simp add: str_body.simps(2) [of c] n_def)
  qed
qed

lemma str_body_quoted: "str_body (concat (map esc_char s) @ dquot # t) = Some (s, t)"
  by (induction s) (simp_all add: str_body_esc str_body.simps(2) [of dquot])

text \<open>Numbers: an integer is read back when no digit, fraction or exponent follows it.\<close>

definition ends_number :: "string \<Rightarrow> bool" where
  "ends_number t \<longleftrightarrow> (case t of [] \<Rightarrow> True
     | c # _ \<Rightarrow> \<not> is_digit c \<and> c \<noteq> CHR ''.'' \<and> c \<noteq> CHR ''e'' \<and> c \<noteq> CHR ''E'')"

lemma nat_str_hd: "n \<noteq> 0 \<Longrightarrow> hd (nat_str n) \<noteq> CHR ''0''"
proof (induction n rule: nat_str.induct)
  case (1 n)
  show ?case
  proof (cases "n < 10")
    case True
    have "digit_char n \<noteq> CHR ''0''"
    proof
      assume "digit_char n = CHR ''0''"
      then have "of_char (digit_char n) = (48 :: nat)" by simp
      with True 1(2) show False by (simp add: of_char_digit_char)
    qed
    with True show ?thesis by (simp add: nat_str.simps [of n])
  next
    case False
    then have "n div 10 \<noteq> 0" by auto
    with False 1(1) show ?thesis by (simp add: nat_str.simps [of n])
  qed
qed

lemma nat_str_canonical: "hd (nat_str n) = CHR ''0'' \<Longrightarrow> length (nat_str n) = 1"
  using nat_str_hd [of n] by (cases "n = 0") (simp_all add: nat_str.simps [of 0])

lemma digits_of_nat_str:
  assumes "ends_number t"
  shows "digits_of (nat_str n @ t) = (nat_str n, t)"
proof -
  have "takeWhile is_digit t = []" "dropWhile is_digit t = t"
    using assms by (cases t; simp add: ends_number_def)+
  then show ?thesis
    using nat_str_digits by (simp add: digits_of_def takeWhile_append2 dropWhile_append2)
qed

lemma parse_mag_nat: "ends_number t \<Longrightarrow> parse_mag (nat_str n @ t) = Some (of_nat n, t)"
  using nat_str_canonical [of n] digits_of_nat_str [of t n]
  by (cases t) (auto simp: parse_mag_def parse_frac_def parse_exp_def ends_number_def)

lemma num_str_int: "num_str (of_int i) = (if i < 0 then CHR ''-'' # nat_str (nat (- i)) else nat_str (nat i))"
proof (cases "i < 0")
  case True
  then have "\<lfloor>- rat_of_int i\<rfloor> = - i" by (metis floor_of_int of_int_minus)
  with True show ?thesis by (simp add: num_str_def num_str_mag_def)
next
  case False
  then show ?thesis by (simp add: num_str_def num_str_mag_def)
qed

lemma nat_str_first: obtains c r where "nat_str n = c # r" and "is_digit c"
  using nat_str_digits [of n] by (cases "nat_str n") auto

lemma parse_num_int:
  assumes "ends_number t"
  shows "parse_num (num_str (of_int i) @ t) = Some (of_int i, t)"
proof (cases "i < 0")
  case True
  then show ?thesis
    using parse_mag_nat [OF assms, of "nat (- i)"] by (simp add: parse_num_def num_str_int)
next
  case False
  obtain c r where c: "nat_str (nat i) = c # r" "is_digit c" by (rule nat_str_first)
  then have "c \<noteq> CHR ''-''" by (auto simp: is_digit_def)
  with False c show ?thesis
    using parse_mag_nat [OF assms, of "nat i"] by (simp add: parse_num_def num_str_int)
qed

text \<open>A number with at most twenty decimals, as those that the printer is made for.\<close>

definition decimal :: "rat \<Rightarrow> bool" where
  "decimal x \<longleftrightarrow> of_int \<lfloor>x * 10 ^ 20\<rfloor> = x * 10 ^ 20"

lemma decimalD: "decimal x \<Longrightarrow> x * 10 ^ 20 = of_int \<lfloor>x * 10 ^ 20\<rfloor>"
  unfolding decimal_def by (rule sym)

lemma decimal_int [simp]: "decimal (of_int i)"
proof -
  have "rat_of_int i * 10 ^ 20 = of_int (i * 10 ^ 20)" by simp
  then show ?thesis unfolding decimal_def by (metis floor_of_int)
qed

lemma decimal_uminus [simp]: "decimal (- x) \<longleftrightarrow> decimal x"
proof -
  have "decimal (- y)" if "decimal y" for y
  proof -
    have "- y * 10 ^ 20 = of_int (- \<lfloor>y * 10 ^ 20\<rfloor>)"
      unfolding of_int_minus decimalD [OF that, symmetric] by (rule mult_minus_left)
    then show ?thesis unfolding decimal_def by (metis floor_of_int)
  qed
  from this [of x] this [of "- x"] show ?thesis by auto
qed

lemma str_nat_acc: "str_nat s acc = acc * 10 ^ length s + str_nat s 0"
proof (induction s arbitrary: acc)
  case (Cons c s)
  show ?case using Cons.IH [of "acc * 10 + (of_char c - 48)"] Cons.IH [of "of_char c - 48"]
    by (simp add: algebra_simps)
qed simp

lemma frac_digits_value:
  assumes "0 \<le> r" and "r < 1" and "r * 10 ^ n = of_nat k"
  shows "(\<forall>c \<in> set (frac_digits n r). is_digit c)
    \<and> of_nat (str_nat (frac_digits n r) 0) / 10 ^ length (frac_digits n r) = r"
  using assms
proof (induction n arbitrary: r k)
  case 0
  then have "k = 0" by simp
  with 0 show ?case by simp
next
  case (Suc n)
  show ?case
  proof (cases "r = 0")
    case False
    define d where "d = nat \<lfloor>10 * r\<rfloor>"
    define q where "q = 10 * r - of_nat d"
    have floor: "of_nat d = rat_of_int \<lfloor>10 * r\<rfloor>" using Suc.prems(1) by (simp add: d_def)
    have d: "d < 10" using Suc.prems(1,2) by (simp add: d_def nat_less_iff floor_less_iff)
    have q: "0 \<le> q" "q < 1" unfolding q_def floor by linarith+
    have "q * 10 ^ n = of_nat k - of_nat (d * 10 ^ n)" using Suc.prems(3) by (simp add: q_def algebra_simps)
    moreover have "d * 10 ^ n \<le> k"
    proof -
      have "0 \<le> q * 10 ^ n" using q(1) by simp
      then show ?thesis using calculation by (simp add: of_nat_le_iff [symmetric, where 'a = rat])
    qed
    ultimately have "q * 10 ^ n = of_nat (k - d * 10 ^ n)" by (simp add: of_nat_diff)
    from Suc.IH [OF q this] have ih: "\<forall>c \<in> set (frac_digits n q). is_digit c"
      "of_nat (str_nat (frac_digits n q) 0) / 10 ^ length (frac_digits n q) = q" by blast+
    have digits: "frac_digits (Suc n) r = digit_char d # frac_digits n q"
      unfolding frac_digits.simps if_not_P [OF False] q_def floor by (simp add: d_def)
    let ?l = "length (frac_digits n q)" and ?v = "str_nat (frac_digits n q) 0"
    have "str_nat (frac_digits (Suc n) r) 0 = d * 10 ^ ?l + ?v"
      using d str_nat_acc [of "frac_digits n q" d] unfolding digits by (simp add: of_char_digit_char)
    then have "of_nat (str_nat (frac_digits (Suc n) r) 0) / 10 ^ length (frac_digits (Suc n) r)
        = (of_nat d + of_nat ?v / 10 ^ ?l) / (10 :: rat)"
      unfolding digits by (simp add: field_simps)
    also have "\<dots> = r" unfolding ih(2) by (simp add: q_def)
    finally show ?thesis using ih(1) d unfolding digits by (simp add: is_digit_digit_char)
  qed simp
qed

lemma frac_digits_Nil: "frac_digits (Suc n) r = [] \<longleftrightarrow> r = 0"
  by simp

lemma digits_of_append: "\<forall>c \<in> set ds. is_digit c \<Longrightarrow> ends_number t \<Longrightarrow> digits_of (ds @ t) = (ds, t)"
  by (cases t) (auto simp: digits_of_def takeWhile_append dropWhile_append takeWhile_eq_all_conv ends_number_def)

lemma parse_mag_decimal:
  assumes t: "ends_number t" and x: "0 \<le> x" "decimal x"
  shows "parse_mag (num_str_mag x @ t) = Some (x, t)"
proof -
  define i where "i = nat \<lfloor>x\<rfloor>"
  define f where "f = x - of_int \<lfloor>x\<rfloor>"
  have xi: "x = of_nat i + f" using x(1) by (simp add: i_def f_def)
  have f: "0 \<le> f" "f < 1" unfolding f_def by linarith+
  define k where "k = \<lfloor>x * 10 ^ 20\<rfloor> - \<lfloor>x\<rfloor> * 10 ^ 20"
  have "f * 10 ^ 20 = x * 10 ^ 20 - of_int \<lfloor>x\<rfloor> * 10 ^ 20" unfolding f_def by (rule left_diff_distrib)
  also have "x * 10 ^ 20 = of_int \<lfloor>x * 10 ^ 20\<rfloor>" by (rule decimalD [OF x(2)])
  also have "of_int \<lfloor>x * 10 ^ 20\<rfloor> - of_int \<lfloor>x\<rfloor> * 10 ^ 20 = rat_of_int k" unfolding k_def by simp
  finally have k: "f * 10 ^ 20 = of_int k" .
  have "0 \<le> f * 10 ^ 20" using f(1) by simp
  then have "0 \<le> k" unfolding k by simp
  then have "f * 10 ^ 20 = of_nat (nat k)" unfolding k by simp
  from frac_digits_value [OF f this] have ds: "\<forall>c \<in> set (frac_digits 20 f). is_digit c"
    "of_nat (str_nat (frac_digits 20 f) 0) / 10 ^ length (frac_digits 20 f) = f" by blast+
  show ?thesis
  proof (cases "f = 0")
    case True
    then have "num_str_mag x = nat_str i" by (simp add: num_str_mag_def Let_def i_def f_def)
    then show ?thesis using parse_mag_nat [OF t, of i] xi True by simp
  next
    case False
    have "(20 :: nat) = Suc 19" by simp
    with False have ne: "frac_digits 20 f \<noteq> []" by (metis frac_digits_Nil)
    have printed: "num_str_mag x @ t = nat_str i @ CHR ''.'' # frac_digits 20 f @ t"
      using False by (simp add: num_str_mag_def Let_def i_def f_def)
    have int: "digits_of (nat_str i @ CHR ''.'' # u) = (nat_str i, CHR ''.'' # u)" for u
      using nat_str_digits [of i] by (simp add: digits_of_def is_digit_def)
    have frac: "parse_frac (CHR ''.'' # frac_digits 20 f @ t) = Some (f, t)"
      using digits_of_append [OF ds(1) t] ne ds(2) by (simp add: parse_frac_def)
    have "parse_exp t = Some (1, t)" using t by (cases t) (auto simp: parse_exp_def ends_number_def)
    then show ?thesis using nat_str_canonical [of i] unfolding printed parse_mag_def int
      by (auto simp: frac xi)
  qed
qed

lemma num_str_mag_first: obtains c r where "num_str_mag x = c # r" and "is_digit c"
  by (rule nat_str_first [of "nat \<lfloor>x\<rfloor>"]) (simp add: num_str_mag_def Let_def)

lemma num_str_first: obtains c r where "num_str x = c # r" and "is_digit c \<or> c = CHR ''-''"
proof (cases "x < 0")
  case False
  then show thesis using that by (rule_tac num_str_mag_first [of x]) (simp add: num_str_def)
qed (use that in \<open>simp add: num_str_def\<close>)

lemma parse_num_decimal:
  assumes t: "ends_number t" and "decimal x"
  shows "parse_num (num_str x @ t) = Some (x, t)"
proof (cases "x < 0")
  case True
  then show ?thesis using parse_mag_decimal [OF t, of "- x"] assms(2) by (simp add: parse_num_def num_str_def)
next
  case False
  obtain c r where c: "num_str_mag x = c # r" "is_digit c" by (rule num_str_mag_first)
  then have "c \<noteq> CHR ''-''" by (auto simp: is_digit_def)
  with False c show ?thesis using parse_mag_decimal [OF t, of x] assms(2) by (simp add: parse_num_def num_str_def)
qed

section \<open>Values are read back\<close>

fun json_plain :: "json \<Rightarrow> bool" where
  "json_plain (JNum x) \<longleftrightarrow> decimal x"
| "json_plain (JArr vs) \<longleftrightarrow> list_all json_plain vs"
| "json_plain (JObj m) \<longleftrightarrow> distinct (map fst m) \<and> list_all (\<lambda>(k, v). \<not> is_index_key k \<and> json_plain v) m"
| "json_plain _ \<longleftrightarrow> True"

lemma obj_entries_plain:
  assumes "distinct (map fst m)" and "list_all (\<lambda>k. \<not> is_index_key k) (map fst m)"
  shows "obj_entries m = m"
proof -
  have "filter is_index_key (map fst m) = []" "filter (\<lambda>s. \<not> is_index_key s) (map fst m) = map fst m"
    using assms(2) by (auto simp: list_all_iff filter_empty_conv)
  then have keys: "obj_keys m = map fst m" by (simp add: obj_keys_def)
  have "concat (map (\<lambda>k. case obj_get m k of None \<Rightarrow> [] | Some v \<Rightarrow> [(k, v)]) (map fst l)) = l"
    if "set l \<subseteq> set m" for l
    using that by (induction l) (auto simp: obj_get_eq_Some [OF assms(1), THEN iffD2])
  then show ?thesis by (simp add: obj_entries_def keys)
qed

lemma obj_set_new: "k \<notin> fst ` set m \<Longrightarrow> obj_set k v m = m @ [(k, v)]"
  unfolding obj_set_def by (induction m) auto

lemma foldl_obj_set: "distinct (map fst (m @ l)) \<Longrightarrow> foldl (\<lambda>m (k, v). obj_set k v m) m l = m @ l"
proof (induction l arbitrary: m)
  case (Cons kv l)
  obtain k v where kv: "kv = (k, v)" by (cases kv)
  have "distinct (map fst ((m @ [(k, v)]) @ l))" "k \<notin> fst ` set m" using Cons.prems kv by auto
  then show ?case using Cons.IH [of "m @ [(k, v)]"] kv by (simp add: obj_set_new)
qed simp

lemma json_quote_append: "json_quote s @ t = dquot # concat (map esc_char s) @ dquot # t"
  by (simp add: json_quote_def)

text \<open>The first character of a value: no white space and no closing bracket.\<close>

definition value_start :: "char \<Rightarrow> bool" where
  "value_start c \<longleftrightarrow> \<not> json_ws c \<and> c \<noteq> CHR '']'' \<and> c \<noteq> CHR ''}''"

lemma digit_value_start: "is_digit c \<Longrightarrow> value_start c"
  by (auto simp: is_digit_def value_start_def json_ws_def)

lemma value_start_simps:
  "value_start dquot" "value_start (CHR ''['')" "value_start (CHR ''{'')" "value_start (CHR ''t'')"
  "value_start (CHR ''f'')" "value_start (CHR ''n'')" "value_start (CHR ''-'')"
  by (simp_all add: value_start_def json_ws_def dquot_def char_of_def)

lemma nat_str_start: "value_start (hd (nat_str n))"
  by (rule nat_str_first [of n]) (simp add: digit_value_start)

lemma json_str_first: "json_plain v \<Longrightarrow> json_str v \<noteq> [] \<and> value_start (hd (json_str v))"
proof (cases v)
  case (JNum x)
  obtain c r where "num_str x = c # r" "is_digit c \<or> c = CHR ''-''" by (rule num_str_first)
  then show ?thesis using JNum by (auto simp: value_start_simps digit_value_start)
qed (simp_all add: json_quote_def value_start_simps)

lemma skip_ws_value: "json_plain v \<Longrightarrow> skip_ws (json_str v @ t) = json_str v @ t"
  using json_str_first [of v] by (cases "json_str v") (auto simp: skip_ws_def value_start_def)

lemma skip_ws_char: "\<not> json_ws c \<Longrightarrow> skip_ws (c # t) = c # t"
  by (simp add: skip_ws_def)

lemma json_ws_simps [simp]:
  "\<not> json_ws dquot" "\<not> json_ws (CHR '','')" "\<not> json_ws (CHR '']'')" "\<not> json_ws (CHR ''}'')"
  "\<not> json_ws (CHR ''['')" "\<not> json_ws (CHR ''{'')" "\<not> json_ws (CHR '':'')"
  by (simp_all add: json_ws_def dquot_def)

definition reads :: "json \<Rightarrow> bool" where
  "reads v \<longleftrightarrow> (\<forall>n t. ends_number t \<longrightarrow> 2 * length (json_str v) + 1 \<le> n
     \<longrightarrow> parse_value n (json_str v @ t) = Some (v, t))"

lemma reads_D: "reads v \<Longrightarrow> ends_number t \<Longrightarrow> 2 * length (json_str v) + 1 \<le> n
    \<Longrightarrow> parse_value n (json_str v @ t) = Some (v, t)"
  by (simp add: reads_def)

lemma ends_number_simps [simp]: "ends_number (CHR '','' # t)" "ends_number (CHR '']'' # t)"
    "ends_number (CHR ''}'' # t)" "ends_number []"
  by (simp_all add: ends_number_def is_digit_def)

lemma join_Cons: "vs \<noteq> [] \<Longrightarrow> join sep (x # vs) = x @ sep @ join sep vs"
  by (cases vs) simp_all

lemma parse_elems_ok:
  assumes "vs \<noteq> []" and "\<forall>v \<in> set vs. reads v"
    and "2 * length (join '','' (map json_str vs)) + 2 \<le> n"
  shows "parse_elems n (join '','' (map json_str vs) @ CHR '']'' # t) = Some (vs, t)"
  using assms
proof (induction vs arbitrary: n)
  case (Cons v vs)
  from Cons.prems(3) obtain n' where n: "n = Suc n'" by (cases n) auto
  show ?case
  proof (cases "vs = []")
    case True
    have "parse_value n' (json_str v @ CHR '']'' # t) = Some (v, CHR '']'' # t)"
      using Cons.prems True n by (intro reads_D) auto
    then show ?thesis using True n by (simp add: skip_ws_char)
  next
    case False
    let ?rest = "join '','' (map json_str vs) @ CHR '']'' # t"
    have j: "join '','' (map json_str (v # vs)) = json_str v @ '','' @ join '','' (map json_str vs)"
      using False by (simp add: join_Cons)
    have len: "2 * length (json_str v) + 1 \<le> n'" "2 * length (join '','' (map json_str vs)) + 2 \<le> n'"
      using Cons.prems(3) n unfolding j by simp_all
    have "parse_value n' (json_str v @ CHR '','' # ?rest) = Some (v, CHR '','' # ?rest)"
      using Cons.prems len by (intro reads_D) auto
    moreover have "parse_elems n' ?rest = Some (vs, t)"
      using Cons.prems len False by (intro Cons.IH) auto
    ultimately show ?thesis unfolding j n by (simp add: skip_ws_char)
  qed
qed simp

definition entry_str :: "string \<times> json \<Rightarrow> string" where
  "entry_str kv = json_quote (fst kv) @ '':'' @ json_str (snd kv)"

lemma entry_append: "entry_str (k, v) @ t = dquot # concat (map esc_char k) @ dquot # CHR '':'' # json_str v @ t"
  by (simp add: entry_str_def json_quote_def)

lemma length_entry: "length (entry_str (k, v)) \<ge> length (json_str v) + 3"
  by (simp add: entry_str_def json_quote_def)

lemma parse_members_ok:
  assumes "m \<noteq> []" and "\<forall>kv \<in> set m. reads (snd kv)"
    and "2 * length (join '','' (map entry_str m)) + 2 \<le> n"
  shows "parse_members n (join '','' (map entry_str m) @ CHR ''}'' # t) = Some (m, t)"
  using assms
proof (induction m arbitrary: n)
  case (Cons kv m)
  obtain k v where kv: "kv = (k, v)" by (cases kv)
  from Cons.prems(3) obtain n' where n: "n = Suc n'" by (cases n) auto
  have len: "length (join '','' (map entry_str (kv # m))) \<ge> length (entry_str kv)"
    by (cases m) simp_all
  have val: "2 * length (json_str v) + 1 \<le> n'" and rd: "reads v"
    using Cons.prems n len length_entry [of v k] kv by auto
  show ?case
  proof (cases "m = []")
    case True
    have "parse_value n' (json_str v @ CHR ''}'' # t) = Some (v, CHR ''}'' # t)"
      using rd val by (intro reads_D) auto
    then show ?thesis using True n by (simp add: kv entry_append skip_ws_char str_body_quoted)
  next
    case False
    let ?rest = "join '','' (map entry_str m) @ CHR ''}'' # t"
    have j: "join '','' (map entry_str (kv # m)) = entry_str kv @ '','' @ join '','' (map entry_str m)"
      using False by (simp add: join_Cons)
    have "parse_value n' (json_str v @ CHR '','' # ?rest) = Some (v, CHR '','' # ?rest)"
      using rd val by (intro reads_D) auto
    moreover have "parse_members n' ?rest = Some (m, t)"
      using Cons.prems(2,3) n False unfolding j by (intro Cons.IH) auto
    ultimately show ?thesis unfolding j n by (simp add: kv entry_append skip_ws_char str_body_quoted)
  qed
qed simp

lemma json_str_obj:
  assumes "json_plain (JObj m)"
  shows "json_str (JObj m) = ''{'' @ join '','' (map entry_str m) @ ''}''"
proof -
  have fst: "map fst (map (\<lambda>(k, v). (k, json_str v)) m) = map fst m" by (simp add: split_def)
  have "obj_entries (map (\<lambda>(k, v). (k, json_str v)) m) = map (\<lambda>(k, v). (k, json_str v)) m"
    by (rule obj_entries_plain; unfold fst; use assms in \<open>auto simp: list_all_iff\<close>)
  moreover have "map (\<lambda>(k, t). json_quote k @ '':'' @ t) (map (\<lambda>(k, v). (k, json_str v)) m) = map entry_str m"
    by (simp add: entry_str_def split_def)
  ultimately show ?thesis by (simp only: json_str.simps)
qed

lemma join_entries_start: "m \<noteq> [] \<Longrightarrow> \<exists>r. join '','' (map entry_str m) @ t = dquot # r"
  by (cases m; cases "tl m") (auto simp: entry_str_def json_quote_def)

lemma join_values_start:
  "vs \<noteq> [] \<Longrightarrow> list_all json_plain vs \<Longrightarrow> \<exists>c r. join '','' (map json_str vs) @ t = c # r \<and> value_start c"
  using json_str_first [of "hd vs"]
  by (cases vs; cases "tl vs"; cases "json_str (hd vs)") auto

lemma reads_array:
  assumes "\<forall>v \<in> set vs. reads v" and "list_all json_plain vs"
  shows "reads (JArr vs)"
  unfolding reads_def
proof (intro allI impI)
  fix n t assume n: "2 * length (json_str (JArr vs)) + 1 \<le> n"
  then obtain n' where n': "n = Suc n'" by (cases n) auto
  let ?body = "join '','' (map json_str vs) @ CHR '']'' # t"
  show "parse_value n (json_str (JArr vs) @ t) = Some (JArr vs, t)"
  proof (cases "vs = []")
    case True
    then show ?thesis using n' by (simp add: skip_ws_char dquot_def char_of_def starts_with_def)
  next
    case False
    have "parse_elems n' ?body = Some (vs, t)"
      using n n' assms(1) False by (intro parse_elems_ok) auto
    moreover obtain c r where c: "?body = c # r" "value_start c"
      using join_values_start [OF False assms(2)] by blast
    then have "\<not> starts_with '']'' (skip_ws ?body)"
      by (simp add: skip_ws_def value_start_def starts_with_def)
    moreover have "CHR ''['' \<noteq> dquot" by (simp add: dquot_def char_of_def)
    ultimately show ?thesis using n' by (simp add: skip_ws_char)
  qed
qed

lemma reads_object:
  assumes "\<forall>kv \<in> set m. reads (snd kv)" and "json_plain (JObj m)"
  shows "reads (JObj m)"
  unfolding reads_def json_str_obj [OF assms(2)]
proof (intro allI impI)
  fix n t assume n: "2 * length (''{'' @ join '','' (map entry_str m) @ ''}'') + 1 \<le> n"
  then obtain n' where n': "n = Suc n'" by (cases n) auto
  let ?body = "join '','' (map entry_str m) @ CHR ''}'' # t"
  show "parse_value n ((''{'' @ join '','' (map entry_str m) @ ''}'') @ t) = Some (JObj m, t)"
  proof (cases "m = []")
    case True
    then show ?thesis using n' by (simp add: skip_ws_char dquot_def char_of_def starts_with_def)
  next
    case False
    have "parse_members n' ?body = Some (m, t)"
      using n n' assms(1) False by (intro parse_members_ok) auto
    moreover obtain r where c: "?body = dquot # r"
      using join_entries_start [OF False] by blast
    moreover have "dquot \<noteq> CHR ''}''" by (simp add: dquot_def char_of_def)
    then have "\<not> starts_with ''}'' (skip_ws ?body)"
      by (simp add: c skip_ws_char starts_with_def)
    moreover have "CHR ''{'' \<noteq> dquot" by (simp add: dquot_def char_of_def)
    moreover have "foldl (\<lambda>m (k, v). obj_set k v m) [] m = m"
      using foldl_obj_set [of "[]" m] assms(2) by simp
    ultimately show ?thesis using n' by (simp add: skip_ws_char)
  qed
qed

lemma reads_leaf:
  "(\<And>n t. ends_number t \<Longrightarrow> parse_value (Suc n) (json_str v @ t) = Some (v, t)) \<Longrightarrow> reads v"
  unfolding reads_def by (metis Suc_le_D add.commute plus_1_eq_Suc)

lemma reads_string: "reads (JStr s)"
  by (rule reads_leaf) (simp add: json_quote_append skip_ws_char str_body_quoted)

lemma reads_word: "reads JNull" "reads (JBool b)"
  by (rule reads_leaf; auto simp: skip_ws_char starts_with_def dquot_def char_of_def json_ws_def)+

lemma digit_other:
  "is_digit c \<or> c = CHR ''-'' \<Longrightarrow> c \<noteq> dquot \<and> c \<noteq> CHR ''['' \<and> c \<noteq> CHR ''{'' \<and> c \<noteq> CHR ''t'' \<and> c \<noteq> CHR ''f''
    \<and> c \<noteq> CHR ''n'' \<and> \<not> json_ws c"
  by (auto simp: is_digit_def dquot_iff json_ws_def)

lemma reads_number: "decimal x \<Longrightarrow> reads (JNum x)"
proof (rule reads_leaf)
  fix n t assume x: "decimal x" and t: "ends_number t"
  obtain c r where c: "num_str x = c # r" "is_digit c \<or> c = CHR ''-''" by (rule num_str_first)
  show "parse_value (Suc n) (json_str (JNum x) @ t) = Some (JNum x, t)"
    using parse_num_decimal [OF t x] digit_other [OF c(2)] c(1)
    by (simp add: skip_ws_char starts_with_def)
qed

theorem json_reads: "json_plain v \<Longrightarrow> reads v"
proof (induction v rule: json_plain.induct)
  case (1 x)
  then show ?case by (intro reads_number) simp
next
  case (2 vs)
  then show ?case by (intro reads_array) (auto simp: list_all_iff)
next
  case (3 m)
  then show ?case by (intro reads_object) (auto simp: list_all_iff)
qed (simp_all add: reads_word reads_string)

text \<open>Reading what was written gives the value back.\<close>

lemma json_roundtrip:
  assumes "json_plain v"
  shows "json_parse (json_str v) = Some v"
  using reads_D [OF json_reads [OF assms], of "[]" "2 * length (json_str v) + 2"]
  by (simp add: json_parse_def skip_ws_def)

end
