(* ===== verification/Session.thy ===== *)
theory Session
  imports Types Toast Js_Json
begin

text \<open>
  The session: \<open>stores/authStore.ts\<close>, \<open>stores/clusterStore.ts\<close> and \<open>api/client.ts\<close>. The
  state is what the browser stores, the two stores, the toasts and the requests in flight. \<open>apiFetch\<close>
  is split at its await: the part before it reads the token and starts the request, the part after it
  runs with the server's reply, whatever happened in between.
\<close>

section \<open>The cluster store\<close>

datatype focus_target = FocusSection string | FocusNode string

record cluster_focus =
  cf_target :: focus_target
  cf_nonce :: nat

record cluster_state =
  cl_isOpen :: bool
  cl_expandedNodes :: "string list"
  cl_focus :: "cluster_focus option"

definition cluster_init :: cluster_state where
  "cluster_init = \<lparr>cl_isOpen = False, cl_expandedNodes = [], cl_focus = None\<rparr>"

definition openDrawer :: "cluster_state \<Rightarrow> cluster_state" where
  "openDrawer s = s\<lparr>cl_isOpen := True\<rparr>"

definition closeDrawer :: "cluster_state \<Rightarrow> cluster_state" where
  "closeDrawer s = s\<lparr>cl_isOpen := False\<rparr>"

definition toggleDrawer :: "cluster_state \<Rightarrow> cluster_state" where
  "toggleDrawer s = s\<lparr>cl_isOpen := \<not> cl_isOpen s\<rparr>"

definition toggleNodeExpansion :: "string \<Rightarrow> cluster_state \<Rightarrow> cluster_state" where
  "toggleNodeExpansion i s = s\<lparr>cl_expandedNodes :=
     (if i \<in> set (cl_expandedNodes s) then set_delete i (cl_expandedNodes s) else set_add i (cl_expandedNodes s))\<rparr>"

definition collapseAll :: "cluster_state \<Rightarrow> cluster_state" where
  "collapseAll s = s\<lparr>cl_expandedNodes := []\<rparr>"

definition requestFocus :: "focus_target \<Rightarrow> cluster_state \<Rightarrow> cluster_state" where
  "requestFocus t s = s\<lparr>cl_focus := Some \<lparr>cf_target = t,
     cf_nonce = nullish (map_option cf_nonce (cl_focus s)) 0 + 1\<rparr>\<rparr>"

definition clearFocus :: "cluster_state \<Rightarrow> cluster_state" where
  "clearFocus s = s\<lparr>cl_focus := None\<rparr>"

definition cluster_reset :: "cluster_state \<Rightarrow> cluster_state" where
  "cluster_reset s = s\<lparr>cl_isOpen := False, cl_expandedNodes := [], cl_focus := None\<rparr>"

interpretation node_expansion: toggle_set toggleNodeExpansion "\<lambda>s i. i \<in> set (cl_expandedNodes s)"
  by unfold_locales (auto simp: toggleNodeExpansion_def)

lemma requestFocus_fires: "cl_focus (requestFocus t s) \<noteq> cl_focus s"
  by (cases "cl_focus s") (auto simp: requestFocus_def dest: arg_cong [of _ _ cf_nonce])

section \<open>The auth store\<close>

text \<open>A port is a JavaScript number, \<open>None\<close> for \<open>NaN\<close>, which JSON writes as null.\<close>

record connection_info =
  cn_host :: string
  cn_port :: "rat option"

record storage =
  st_token :: "string option"
  st_connection :: "string option"

record auth_state =
  at_token :: "string option"
  at_user :: "user_info option"
  at_isLoggedIn :: bool
  at_connectionInfo :: "connection_info option"

definition loadConnectionInfo :: "storage \<Rightarrow> connection_info option" where
  "loadConnectionInfo st = (if \<not> truthy (st_connection st) then None
     else (case json_parse (the (st_connection st)) of
         None \<Rightarrow> None
       | Some parsed \<Rightarrow> (case (member ''host'' parsed, member ''port'' parsed) of
             (Some (JStr h), Some (JNum p)) \<Rightarrow> Some \<lparr>cn_host = h, cn_port = Some p\<rparr>
           | _ \<Rightarrow> None)))"

definition auth_init :: "storage \<Rightarrow> auth_state" where
  "auth_init st = \<lparr>at_token = st_token st, at_user = None, at_isLoggedIn = truthy (st_token st),
     at_connectionInfo = loadConnectionInfo st\<rparr>"

definition connection_json :: "string \<Rightarrow> rat option \<Rightarrow> json" where
  "connection_json h p = JObj [(''host'', JStr h), (''port'', case p of Some x \<Rightarrow> JNum x | None \<Rightarrow> JNull)]"

section \<open>The client\<close>

definition BASE :: string where "BASE = ''/api''"

definition api_headers :: "string option \<Rightarrow> string jsobj \<Rightarrow> string jsobj" where
  "api_headers token extra = foldl (\<lambda>h (k, v). obj_set k v h)
     ((''Content-Type'', ''application/json'') #
      show_if (truthy token) [(''Authorization'', ''Bearer '' @ the token)]) extra"

record pending =
  pd_url :: string
  pd_path :: string
  pd_quiet :: bool
  pd_headers :: "string jsobj"

record session =
  ss_storage :: storage
  ss_auth :: auth_state
  ss_cluster :: cluster_state
  ss_toasts :: toast_state
  ss_inflight :: "pending list"

definition fetch_start :: "string \<Rightarrow> bool \<Rightarrow> session \<Rightarrow> session" where
  "fetch_start path quiet s = s\<lparr>ss_inflight := ss_inflight s @
     [\<lparr>pd_url = BASE @ path, pd_path = path, pd_quiet = quiet,
       pd_headers = api_headers (st_token (ss_storage s)) []\<rparr>]\<rparr>"

definition setAuth :: "string \<Rightarrow> user_info \<Rightarrow> session \<Rightarrow> session" where
  "setAuth token user s = s\<lparr>ss_storage := (ss_storage s)\<lparr>st_token := Some token\<rparr>,
     ss_auth := (ss_auth s)\<lparr>at_token := Some token, at_user := Some user, at_isLoggedIn := True\<rparr>\<rparr>"

text \<open>A login keeps the token before the user is known: only the browser's storage has it then.\<close>

definition storeToken :: "string \<Rightarrow> session \<Rightarrow> session" where
  "storeToken token s = s\<lparr>ss_storage := (ss_storage s)\<lparr>st_token := Some token\<rparr>\<rparr>"

text \<open>\<open>logout\<close> calls the server first, still with the token, and ignores its answer.\<close>

definition logout :: "session \<Rightarrow> session" where
  "logout s = (let s1 = fetch_start ''/auth/logout'' False s in
     s1\<lparr>ss_storage := \<lparr>st_token = None, st_connection = None\<rparr>,
        ss_auth := \<lparr>at_token = None, at_user = None, at_isLoggedIn = False, at_connectionInfo = None\<rparr>,
        ss_cluster := cluster_reset (ss_cluster s1)\<rparr>)"

definition setConnectionInfo :: "string \<Rightarrow> rat option \<Rightarrow> session \<Rightarrow> session" where
  "setConnectionInfo h p s = s\<lparr>ss_storage := (ss_storage s)\<lparr>st_connection := Some (json_str (connection_json h p))\<rparr>,
     ss_auth := (ss_auth s)\<lparr>at_connectionInfo := Some \<lparr>cn_host = h, cn_port = p\<rparr>\<rparr>\<rparr>"

text \<open>
  What becomes of a request: it is aborted, the server cannot be reached, or there is an answer with a
  status, the \<open>detail\<close> of an error answer if it is JSON and has one, and the value of a good one if it is
  valid JSON. A detail may be any JSON value (the list of a 422); the message of the error, and of a toast if
  one is shown, is its text. (An error answer whose whole body is \<open>null\<close> is not covered: reading its detail
  is an exception.)
\<close>

datatype 'a fetch_reply = Aborted | Unreachable | Answer nat "json option" "'a option"

datatype api_error = AbortError | NetworkError | ApiError string nat | InvalidJson

definition status_ok :: "nat \<Rightarrow> bool" where
  "status_ok n \<longleftrightarrow> 200 \<le> n \<and> n < 300"

definition api_message :: "nat \<Rightarrow> json option \<Rightarrow> string" where
  "api_message status detail = (case detail of
      None \<Rightarrow> ''API error '' @ nat_str status
    | Some v \<Rightarrow> if js_truthy v then js_string v else ''API error '' @ nat_str status)"

definition notify :: "string \<Rightarrow> toast_type \<Rightarrow> session \<Rightarrow> session" where
  "notify m t s = s\<lparr>ss_toasts := showToast (toast m t) (ss_toasts s)\<rparr>"

definition session_expired :: string where
  "session_expired = ''Session expired. Please log in again.''"

definition api_failure :: "string \<Rightarrow> bool \<Rightarrow> nat \<Rightarrow> string \<Rightarrow> session \<Rightarrow> session" where
  "api_failure path quiet status msg s =
     (if status = 401 then
        (if path = ''/auth/login'' then notify msg TError s
         else logout (notify session_expired TWarning s))
      else if quiet then s
      else if status \<ge> 500 then notify (''Server error: '' @ msg) TError s
      else if status \<noteq> 422 then notify msg TError s
      else s)"

definition api_settle :: "string \<Rightarrow> bool \<Rightarrow> 'a fetch_reply \<Rightarrow> session \<Rightarrow> (api_error + 'a) \<times> session" where
  "api_settle path quiet reply s = (case reply of
      Aborted \<Rightarrow> (Inl AbortError, s)
    | Unreachable \<Rightarrow> (Inl NetworkError, notify ''Network error: cannot reach server'' TError s)
    | Answer status detail val \<Rightarrow>
        if status_ok status then (case val of Some v \<Rightarrow> (Inr v, s) | None \<Rightarrow> (Inl InvalidJson, s))
        else (let msg = api_message status detail in
              (Inl (ApiError msg status), api_failure path quiet status msg s)))"

section \<open>Runs\<close>

text \<open>
  A reload starts the stores again from what is stored, with no request in flight. A login stores the token
  (\<open>LoginForm.tsx\<close>, which is shown only while the stores are signed out), asks for the user with it and then
  signs in, with any other events in between; its connection has the number that the text of the port is,
  \<open>None\<close> if it is none. The server issues no empty token.
\<close>

definition session_init :: "storage \<Rightarrow> session" where
  "session_init st = \<lparr>ss_storage = st, ss_auth = auth_init st, ss_cluster = cluster_init,
     ss_toasts = toast_init, ss_inflight = []\<rparr>"

datatype session_event =
    SendRequest string bool
  | RequestReply nat "unit fetch_reply"
  | StoreToken string
  | SignIn string user_info
  | SetConnectionInfo string "rat option"
  | SignOut
  | ReloadPage

definition take_inflight :: "nat \<Rightarrow> session \<Rightarrow> session" where
  "take_inflight i s = s\<lparr>ss_inflight := take i (ss_inflight s) @ drop (Suc i) (ss_inflight s)\<rparr>"

fun session_step :: "session \<Rightarrow> session_event \<Rightarrow> session" where
  "session_step s (SendRequest path quiet) = fetch_start path quiet s"
| "session_step s (RequestReply i reply) =
     (if i < length (ss_inflight s)
      then (let p = ss_inflight s ! i in snd (api_settle (pd_path p) (pd_quiet p) reply (take_inflight i s)))
      else s)"
| "session_step s (StoreToken token) =
     (if token = [] \<or> at_isLoggedIn (ss_auth s) then s else storeToken token s)"
| "session_step s (SignIn token user) = (if token = [] then s else setAuth token user s)"
| "session_step s (SetConnectionInfo h p) = setConnectionInfo h p s"
| "session_step s SignOut = logout s"
| "session_step s ReloadPage = session_init (ss_storage s)"

section \<open>Lemmas\<close>

lemma api_auth_header:
  "obj_get (api_headers token []) ''Authorization'' = (if truthy token then Some (''Bearer '' @ the token) else None)"
  by (simp add: api_headers_def obj_get_def)

lemma not_index_literal: "\<not> is_index_key ''host''" "\<not> is_index_key ''port''"
  by (simp_all add: is_index_key_def is_digit_def)

text \<open>
  What \<open>setConnectionInfo\<close> stores is what \<open>loadConnectionInfo\<close> finds, for a port with at most twenty decimals
  as the printer of numbers has them. A port that is not a number is written as null, and nothing is found.
\<close>

lemma connection_roundtrip:
  assumes "decimal p"
  shows "loadConnectionInfo (st\<lparr>st_connection := Some (json_str (connection_json h (Some p)))\<rparr>)
     = Some \<lparr>cn_host = h, cn_port = Some p\<rparr>"
proof -
  have "json_plain (connection_json h (Some p))"
    using assms by (simp add: connection_json_def not_index_literal)
  from json_roundtrip [OF this] json_str_first [OF this] show ?thesis
    by (simp add: loadConnectionInfo_def connection_json_def member_def obj_get_def)
qed

lemma connection_lost:
  "loadConnectionInfo (st\<lparr>st_connection := Some (json_str (connection_json h None))\<rparr>) = None"
proof -
  have "json_plain (connection_json h None)"
    by (simp add: connection_json_def not_index_literal)
  from json_roundtrip [OF this] json_str_first [OF this] show ?thesis
    by (simp add: loadConnectionInfo_def connection_json_def member_def obj_get_def)
qed

lemma load_token [simp]: "loadConnectionInfo (st\<lparr>st_token := t\<rparr>) = loadConnectionInfo st"
  by (simp add: loadConnectionInfo_def)

lemma load_empty [simp]: "loadConnectionInfo \<lparr>st_token = t, st_connection = None\<rparr> = None"
  by (simp add: loadConnectionInfo_def)

text \<open>Only the toasts, or by a logout the rest, are changed when a request settles.\<close>

lemma notify_simps [simp]:
  "ss_storage (notify m t s) = ss_storage s" "ss_auth (notify m t s) = ss_auth s"
  "ss_cluster (notify m t s) = ss_cluster s" "ss_inflight (notify m t s) = ss_inflight s"
  "ss_toasts (notify m t s) = showToast (toast m t) (ss_toasts s)"
  by (simp_all add: notify_def)

lemma logout_simps [simp]:
  "ss_storage (logout s) = \<lparr>st_token = None, st_connection = None\<rparr>"
  "ss_auth (logout s) = \<lparr>at_token = None, at_user = None, at_isLoggedIn = False, at_connectionInfo = None\<rparr>"
  "ss_cluster (logout s) = cluster_reset (ss_cluster s)"
  "ss_toasts (logout s) = ss_toasts s"
  "ss_inflight (logout s) = ss_inflight (fetch_start ''/auth/logout'' False s)"
  by (simp_all add: logout_def Let_def fetch_start_def)

lemma take_inflight_simps [simp]:
  "ss_storage (take_inflight i s) = ss_storage s" "ss_auth (take_inflight i s) = ss_auth s"
  "ss_cluster (take_inflight i s) = ss_cluster s" "ss_toasts (take_inflight i s) = ss_toasts s"
  by (simp_all add: take_inflight_def)

definition expires :: "string \<Rightarrow> 'a fetch_reply \<Rightarrow> bool" where
  "expires path reply \<longleftrightarrow> path \<noteq> ''/auth/login''
     \<and> (case reply of Answer status detail val \<Rightarrow> status = 401 | _ \<Rightarrow> False)"

lemma settle_expired:
  assumes "expires path reply"
  shows "snd (api_settle path quiet reply s) = logout (notify session_expired TWarning s)"
  using assms by (cases reply) (auto simp: expires_def api_settle_def api_failure_def status_ok_def Let_def)

lemma settle_other:
  assumes "\<not> expires path reply"
  shows "ss_storage (snd (api_settle path quiet reply s)) = ss_storage s"
    and "ss_auth (snd (api_settle path quiet reply s)) = ss_auth s"
    and "ss_cluster (snd (api_settle path quiet reply s)) = ss_cluster s"
    and "ss_inflight (snd (api_settle path quiet reply s)) = ss_inflight s"
  using assms by (cases reply; auto simp: expires_def api_settle_def api_failure_def Let_def split: option.splits)+

section \<open>The stores agree with what is stored\<close>

text \<open>The connection that a reload finds for the one in the store.\<close>

definition connection_kept :: "connection_info option \<Rightarrow> connection_info option \<Rightarrow> bool" where
  "connection_kept c found \<longleftrightarrow> (case c of
      None \<Rightarrow> found = None
    | Some ci \<Rightarrow> (case cn_port ci of None \<Rightarrow> found = None | Some p \<Rightarrow> decimal p \<longrightarrow> found = Some ci))"

text \<open>The stores have the stored token, unless a login has stored one and not signed in yet.\<close>

definition token_ok :: "session \<Rightarrow> bool" where
  "token_ok s \<longleftrightarrow> (if truthy (st_token (ss_storage s)) \<and> \<not> at_isLoggedIn (ss_auth s)
     then \<not> truthy (at_token (ss_auth s))
     else at_token (ss_auth s) = st_token (ss_storage s)
       \<and> at_isLoggedIn (ss_auth s) = truthy (st_token (ss_storage s)))"

definition session_ok :: "session \<Rightarrow> bool" where
  "session_ok s \<longleftrightarrow> token_ok s \<and> connection_kept (at_connectionInfo (ss_auth s)) (loadConnectionInfo (ss_storage s))"

lemma connection_kept_same: "loadConnectionInfo st = c \<Longrightarrow> connection_kept c (loadConnectionInfo st)"
  by (auto simp: connection_kept_def loadConnectionInfo_def split: option.splits json.splits if_splits)

lemma connection_kept_none [simp]: "connection_kept None None"
  by (simp add: connection_kept_def)

lemma connection_kept_set:
  "connection_kept (Some \<lparr>cn_host = h, cn_port = p\<rparr>)
     (loadConnectionInfo (st\<lparr>st_connection := Some (json_str (connection_json h p))\<rparr>))"
  by (cases p) (simp_all add: connection_kept_def connection_lost connection_roundtrip)

lemma session_ok_init: "session_ok (session_init st)"
  by (simp add: session_ok_def token_ok_def session_init_def auth_init_def connection_kept_same)

lemma session_ok_logout: "session_ok (logout s)"
  by (simp add: session_ok_def token_ok_def connection_kept_def)

lemma session_ok_frame:
  "ss_storage s' = ss_storage s \<Longrightarrow> ss_auth s' = ss_auth s \<Longrightarrow> session_ok s' = session_ok s"
  by (simp add: session_ok_def token_ok_def)

lemma session_ok_step: "session_ok s \<Longrightarrow> session_ok (session_step s e)"
proof (cases e)
  case (RequestReply i reply)
  moreover assume "session_ok s"
  ultimately show ?thesis
    by (cases "expires (pd_path (ss_inflight s ! i)) reply")
      (auto simp: Let_def settle_expired settle_other session_ok_logout session_ok_def token_ok_def split: if_splits)
next
  case (SetConnectionInfo h p)
  moreover assume "session_ok s"
  ultimately show ?thesis
    by (simp add: session_ok_def token_ok_def setConnectionInfo_def connection_kept_set)
next
  case (StoreToken t)
  moreover assume "session_ok s"
  ultimately show ?thesis
    by (auto simp: session_ok_def token_ok_def storeToken_def split: if_splits)
next
  case ReloadPage
  then show ?thesis by (simp add: session_ok_init)
next
  case SignOut
  then show ?thesis by (simp add: session_ok_logout)
qed (auto simp: session_ok_def token_ok_def fetch_start_def setAuth_def)

interpretation sessions: machine "session_init st" session_step session_ok for st
  by unfold_locales (simp_all add: session_ok_init session_ok_step)

section \<open>The abstract session\<close>

text \<open>
  Signed out, entering with a token that the server has just issued, or signed in with one. A session ends by
  a sign-out or by an expiry; a login that fails after its token was issued stays entering, and the next
  reload signs in.
\<close>

datatype abstract_session = SignedOut | Entering string | SignedIn string

datatype abstract_event = Issue string | Enter string | Leave | Reopen | Stay

fun abstract_step :: "abstract_session \<Rightarrow> abstract_event \<Rightarrow> abstract_session" where
  "abstract_step a (Issue t) = (case a of SignedIn u \<Rightarrow> a | _ \<Rightarrow> Entering t)"
| "abstract_step a (Enter t) = SignedIn t"
| "abstract_step a Leave = SignedOut"
| "abstract_step a Reopen = (case a of Entering t \<Rightarrow> SignedIn t | _ \<Rightarrow> a)"
| "abstract_step a Stay = a"

definition abs_session :: "session \<Rightarrow> abstract_session" where
  "abs_session s = (if at_isLoggedIn (ss_auth s) then SignedIn (the (at_token (ss_auth s)))
     else if truthy (st_token (ss_storage s)) then Entering (the (st_token (ss_storage s))) else SignedOut)"

fun abs_event :: "session \<Rightarrow> session_event \<Rightarrow> abstract_event" where
  "abs_event s (StoreToken t) = (if t = [] then Stay else Issue t)"
| "abs_event s (SignIn t u) = (if t = [] then Stay else Enter t)"
| "abs_event s SignOut = Leave"
| "abs_event s ReloadPage = Reopen"
| "abs_event s (RequestReply i reply) =
     (if i < length (ss_inflight s) \<and> expires (pd_path (ss_inflight s ! i)) reply then Leave else Stay)"
| "abs_event s _ = Stay"

fun abs_events :: "session \<Rightarrow> session_event list \<Rightarrow> abstract_event list" where
  "abs_events s [] = []"
| "abs_events s (e # es) = abs_event s e # abs_events (session_step s e) es"

lemma abs_step: "session_ok s \<Longrightarrow> abs_session (session_step s e) = abstract_step (abs_session s) (abs_event s e)"
proof (cases e)
  case (RequestReply i reply)
  then show ?thesis
    by (cases "expires (pd_path (ss_inflight s ! i)) reply")
      (auto simp: Let_def settle_expired settle_other abs_session_def)
next
  case (StoreToken t)
  then show ?thesis by (simp add: abs_session_def storeToken_def)
next
  case ReloadPage
  moreover assume "session_ok s"
  ultimately show ?thesis
    by (auto simp: abs_session_def session_init_def auth_init_def session_ok_def token_ok_def)
qed (auto simp: abs_session_def fetch_start_def setAuth_def setConnectionInfo_def)

lemma abs_run: "session_ok s \<Longrightarrow> abs_session (foldl session_step s es) = foldl abstract_step (abs_session s) (abs_events s es)"
  by (induction es arbitrary: s) (simp_all add: abs_step session_ok_step)

lemma header_of_session:
  "session_ok s \<Longrightarrow> obj_get (pd_headers (last (ss_inflight (fetch_start path quiet s)))) ''Authorization''
     = (case abs_session s of SignedIn t \<Rightarrow> Some (''Bearer '' @ t) | Entering t \<Rightarrow> Some (''Bearer '' @ t) | SignedOut \<Rightarrow> None)"
  by (auto simp: fetch_start_def api_auth_header abs_session_def session_ok_def token_ok_def)

lemma signed_in_stores:
  "session_ok s \<Longrightarrow> at_isLoggedIn (ss_auth s) = (\<exists>t. abs_session s = SignedIn t)"
  "session_ok s \<Longrightarrow> abs_session s = SignedIn t \<Longrightarrow> at_token (ss_auth s) = Some t"
  by (auto simp: abs_session_def session_ok_def token_ok_def truthy_def split: if_splits option.splits)

section \<open>Properties\<close>

text \<open>
  C30. The session refines its abstract specification. In every run the stores are signed in exactly when
  the abstract session is, and with its token: only a sign-in enters it, or a reload after the server has
  issued a token that the login has stored, and only a sign-out or an expired answer leaves it, whatever other
  answers arrive in whatever order. The next request carries exactly the token of the abstract session, which
  while a login is entering is the one just issued, and no token when it is signed out.
\<close>

theorem session_refines:
  "case foldl session_step (session_init st) es of s \<Rightarrow>
     (case foldl abstract_step (abs_session (session_init st)) (abs_events (session_init st) es) of a \<Rightarrow>
       abs_session s = a
       \<and> (case a of SignedIn t \<Rightarrow> at_isLoggedIn (ss_auth s) \<and> at_token (ss_auth s) = Some t
           | _ \<Rightarrow> \<not> at_isLoggedIn (ss_auth s))
       \<and> obj_get (pd_headers (last (ss_inflight (fetch_start path quiet s)))) ''Authorization''
         = (case a of SignedIn t \<Rightarrow> Some (''Bearer '' @ t) | Entering t \<Rightarrow> Some (''Bearer '' @ t) | SignedOut \<Rightarrow> None))"
proof -
  let ?s = "foldl session_step (session_init st) es"
  have ok: "session_ok ?s" by (rule sessions.inv_run)
  have abs: "foldl abstract_step (abs_session (session_init st)) (abs_events (session_init st) es) = abs_session ?s"
    using abs_run [OF session_ok_init] by simp
  show ?thesis unfolding abs using header_of_session [OF ok] signed_in_stores [OF ok]
    by (auto split: abstract_session.split)
qed

text \<open>
  C31. What a reload finds. In every run, the stores started again from what the browser has stored have no
  user yet, which is fetched again, and otherwise the same session: the same token and login state, except
  that a token which a login has stored without signing in (its user could not be fetched) now signs in.
  The connection is read back from its JSON text and is the same, for every port with at most twenty
  decimals; one whose port is not a number is lost.
\<close>

theorem session_survives_reload:
  "case foldl session_step (session_init st) es of s \<Rightarrow>
     (case ss_auth (session_step s ReloadPage) of a \<Rightarrow>
       at_user a = None
       \<and> (case abs_session s of
            Entering t \<Rightarrow> at_token a = Some t \<and> at_isLoggedIn a
          | _ \<Rightarrow> at_token a = at_token (ss_auth s) \<and> at_isLoggedIn a = at_isLoggedIn (ss_auth s))
       \<and> (case at_connectionInfo (ss_auth s) of
            None \<Rightarrow> at_connectionInfo a = None
          | Some ci \<Rightarrow> (case cn_port ci of
              None \<Rightarrow> at_connectionInfo a = None
            | Some p \<Rightarrow> if decimal p then at_connectionInfo a = Some ci else True)))"
proof -
  let ?s = "foldl session_step (session_init st) es"
  have ok: "session_ok ?s" by (rule sessions.inv_run)
  have token: "case abs_session ?s of
      Entering t \<Rightarrow> st_token (ss_storage ?s) = Some t \<and> truthy (st_token (ss_storage ?s))
    | _ \<Rightarrow> st_token (ss_storage ?s) = at_token (ss_auth ?s)
        \<and> truthy (st_token (ss_storage ?s)) = at_isLoggedIn (ss_auth ?s)"
    using ok by (cases "st_token (ss_storage ?s)") (auto simp: abs_session_def session_ok_def token_ok_def)
  then show ?thesis using ok
    by (auto simp: session_init_def auth_init_def session_ok_def connection_kept_def
        split: abstract_session.split option.split)
qed

text \<open>
  C32. How a request settles. It returns a value exactly for a 2xx answer with valid JSON, an error answer
  rejects with its status; the stores change only when an answer other than the login's is a 401, which
  signs out, clears the stored token and connection and resets the cluster view; and nothing at all
  changes for an aborted request, and for a quiet one whose answer is an error other than a 401.
\<close>

theorem api_settle_outcome:
  "case api_settle path quiet reply s of (res, s') \<Rightarrow>
     (\<not> isl res \<longleftrightarrow> (case reply of Answer n d v \<Rightarrow> status_ok n \<and> v \<noteq> None | _ \<Rightarrow> False))
     \<and> (case reply of Answer n d v \<Rightarrow> if status_ok n then True else (\<exists>m. res = Inl (ApiError m n)) | _ \<Rightarrow> True)
     \<and> (if expires path reply
        then ss_storage s' = \<lparr>st_token = None, st_connection = None\<rparr> \<and> \<not> at_isLoggedIn (ss_auth s')
          \<and> at_user (ss_auth s') = None \<and> ss_cluster s' = cluster_reset (ss_cluster s)
          \<and> toast_key (toast session_expired TWarning) \<in> set (ts_active (ss_toasts s'))
        else s' = s\<lparr>ss_toasts := ss_toasts s'\<rparr>)
     \<and> (case reply of Aborted \<Rightarrow> s' = s | Unreachable \<Rightarrow> True
         | Answer n d v \<Rightarrow> if quiet \<and> n \<noteq> 401 then s' = s else True)"
proof (cases reply)
  case (Answer n d v)
  then show ?thesis
    by (auto simp: api_settle_def api_failure_def expires_def Let_def showToast_def notify_def logout_def
        fetch_start_def status_ok_def split: option.splits)
qed (simp_all add: api_settle_def expires_def notify_def)

text \<open>
  The option \<open>quiet\<close> does not cover an unreachable server: every failing poll shows the toast.
\<close>

lemma quiet_network_toast:
  "visible_keys (ss_toasts (snd (api_settle ''/cluster/queries'' True Unreachable (session_init \<lparr>st_token = None, st_connection = None\<rparr>))))
    = [''error:Network error: cannot reach server'']"
  by code_simp

text \<open>
  A 401 answer to a request that was sent with an old token signs out the session that was entered in
  the meantime.
\<close>

definition some_user :: user_info where
  "some_user = \<lparr>ui_username = ''u'', ui_roles = [], ui_default_role = None, ui_is_user_admin = False, ui_can_manage_grants = False\<rparr>"

lemma stale_expiry_signs_out:
  "(let s = foldl session_step (session_init \<lparr>st_token = Some ''old'', st_connection = None\<rparr>)
       [SendRequest ''/user/roles'' False, SignOut, SignIn ''new'' some_user, RequestReply 0 (Answer 401 None None)]
    in abs_session s = SignedOut \<and> st_token (ss_storage s) = None)"
  by code_simp

end
