(* ===== verification/Js_Url.thy ===== *)
theory Js_Url
  imports Js_Json
begin

text \<open>
  \<open>encodeURIComponent\<close>, \<open>URLSearchParams\<close> and what a server reads back: a query string is
  split at the ampersands, each part at its first equals sign, and both sides are percent-decoded.
  Strings are UTF-8 bytes, which is what these functions work on.
\<close>

definition is_alnum :: "char \<Rightarrow> bool" where
  "is_alnum c \<longleftrightarrow> (let n = of_char c :: nat in
     (48 \<le> n \<and> n \<le> 57) \<or> (65 \<le> n \<and> n \<le> 90) \<or> (97 \<le> n \<and> n \<le> 122))"

text \<open>The unreserved marks: minus, underscore, dot, exclamation mark, tilde, star, quote, parentheses.\<close>

definition uri_plain :: "char \<Rightarrow> bool" where
  "uri_plain c \<longleftrightarrow> is_alnum c \<or> of_char c \<in> {45, 95, 46, 33, 126, 42, 39, 40, 41 :: nat}"

definition form_plain :: "char \<Rightarrow> bool" where
  "form_plain c \<longleftrightarrow> is_alnum c \<or> of_char c \<in> {42, 45, 46, 95 :: nat}"

definition hex_upper :: "nat \<Rightarrow> char" where
  "hex_upper d = (if d < 10 then char_of (48 + d) else char_of (55 + d))"

definition pct :: "char \<Rightarrow> string" where
  "pct c = (let n = of_char c in [CHR ''%'', hex_upper (n div 16), hex_upper (n mod 16)])"

definition encodeURIComponent :: "string \<Rightarrow> string" where
  "encodeURIComponent s = concat (map (\<lambda>c. if uri_plain c then [c] else pct c) s)"

definition form_char :: "char \<Rightarrow> string" where
  "form_char c = (if form_plain c then [c] else if c = CHR '' '' then [CHR ''+''] else pct c)"

definition form_encode :: "string \<Rightarrow> string" where
  "form_encode s = concat (map form_char s)"

text \<open>\<open>URLSearchParams\<close> after \<open>set\<close>, and its \<open>toString\<close>.\<close>

definition params_set :: "string \<Rightarrow> string \<Rightarrow> string jsobj \<Rightarrow> string jsobj" where
  "params_set k v ps = obj_set k v ps"

definition params_str :: "string jsobj \<Rightarrow> string" where
  "params_str ps = join ''&'' (map (\<lambda>(k, v). form_encode k @ ''='' @ form_encode v) ps)"

text \<open>The reader's side.\<close>

fun pct_decode :: "string \<Rightarrow> string" where
  "pct_decode [] = []"
| "pct_decode (c # cs) =
     (if c = CHR ''+'' then CHR '' '' # pct_decode cs
      else if c = CHR ''%'' then
        (case map hex_value (take 2 cs) of
           [Some a, Some b] \<Rightarrow> char_of (16 * a + b) # pct_decode (drop 2 cs)
         | _ \<Rightarrow> c # pct_decode cs)
      else c # pct_decode cs)"

declare pct_decode.simps(2) [simp del]

definition parse_pair :: "string \<Rightarrow> string \<times> string" where
  "parse_pair p = (pct_decode (takeWhile (\<lambda>c. c \<noteq> CHR ''='') p),
     pct_decode (tl (dropWhile (\<lambda>c. c \<noteq> CHR ''='') p)))"

definition parse_query :: "string \<Rightarrow> string jsobj" where
  "parse_query q = (if q = [] then [] else map parse_pair (split_on CHR ''&'' q))"

text \<open>The path before the question mark and the parameters after it.\<close>

definition read_url :: "string \<Rightarrow> string \<times> string jsobj" where
  "read_url u = (takeWhile (\<lambda>c. c \<noteq> CHR ''?'') u, parse_query (tl (dropWhile (\<lambda>c. c \<noteq> CHR ''?'') u)))"

text \<open>In a path a plus sign stands for itself.\<close>

definition path_decode :: "string \<Rightarrow> string" where
  "path_decode p = join ''+'' (map pct_decode (split_on CHR ''+'' p))"

text \<open>
  \<open>fetch\<close> resolves the segments that are one or two dots, and the server decodes the whole path before it
  looks for the slashes. (Dots that are percent-encoded count as well for \<open>fetch\<close>; no caller encodes a dot.)
\<close>

fun drop_dots :: "string list \<Rightarrow> string list \<Rightarrow> string list" where
  "drop_dots acc [] = rev acc"
| "drop_dots acc (s # ss) =
     (if s = ''.'' then drop_dots (if ss = [] then [] # acc else acc) ss
      else if s = ''..'' then drop_dots (if ss = [] then [] # tl acc else tl acc) ss
      else drop_dots (s # acc) ss)"

definition fetch_path :: "string \<Rightarrow> string" where
  "fetch_path p = join ''/'' ([] # drop_dots [] (tl (split_on CHR ''/'' p)))"

definition server_path :: "string \<Rightarrow> string list" where
  "server_path p = split_on CHR ''/'' (path_decode (fetch_path p))"

section \<open>Reading back what was written\<close>

definition url_safe :: "char \<Rightarrow> bool" where
  "url_safe c \<longleftrightarrow> c \<noteq> CHR ''&'' \<and> c \<noteq> CHR ''='' \<and> c \<noteq> CHR ''?'' \<and> c \<noteq> CHR ''/'' \<and> c \<noteq> CHR ''#''"

lemma hex_value_upper: "d < 16 \<Longrightarrow> hex_value (hex_upper d) = Some d"
  by (auto simp: hex_value_def hex_upper_def Let_def)

lemma of_char_less: "(of_char c :: nat) < 256"
  using of_char_of [where 'a = nat] by (metis char_of_char mod_less_divisor zero_less_numeral)

lemma decode_pct: "pct_decode (pct c @ t) = c # pct_decode t"
proof -
  define n where "n = (of_char c :: nat)"
  have "n < 256" unfolding n_def by (rule of_char_less)
  then have "hex_value (hex_upper (n div 16)) = Some (n div 16)" "hex_value (hex_upper (n mod 16)) = Some (n mod 16)"
    by (auto intro: hex_value_upper)
  moreover have "16 * (n div 16) + n mod 16 = n" by simp
  moreover have "char_of n = c" by (simp add: n_def)
  ultimately show ?thesis by (simp add: pct_def Let_def n_def [symmetric] pct_decode.simps(2))
qed

lemma uri_plain_other: "uri_plain c \<Longrightarrow> c \<noteq> CHR ''+'' \<and> c \<noteq> CHR ''%'' \<and> url_safe c"
  by (auto simp: uri_plain_def is_alnum_def url_safe_def Let_def)

lemma form_uri: "form_plain c \<Longrightarrow> uri_plain c"
  by (auto simp: form_plain_def uri_plain_def)

lemma decode_plain: "uri_plain c \<Longrightarrow> pct_decode (c # t) = c # pct_decode t"
  using uri_plain_other [of c] by (simp add: pct_decode.simps(2))

lemma decode_uri_append: "pct_decode (encodeURIComponent s @ t) = s @ pct_decode t"
  by (induction s) (auto simp: encodeURIComponent_def decode_plain decode_pct)

lemma decode_form_char: "pct_decode (form_char c @ t) = c # pct_decode t"
  by (simp add: form_char_def decode_plain decode_pct form_uri pct_decode.simps(2) [of "CHR ''+''"])

lemma decode_form_append: "pct_decode (form_encode s @ t) = s @ pct_decode t"
  by (induction s) (simp_all add: form_encode_def decode_form_char)

text \<open>Decoding inverts both encodings.\<close>

lemma decode_uri [simp]: "pct_decode (encodeURIComponent s) = s"
  using decode_uri_append [of s "[]"] by simp

lemma decode_form [simp]: "pct_decode (form_encode s) = s"
  using decode_form_append [of s "[]"] by simp

lemma hex_upper_safe: "d < 16 \<Longrightarrow> url_safe (hex_upper d)"
  by (auto simp: hex_upper_def url_safe_def)
    (auto dest!: arg_cong [of _ _ "of_char :: char \<Rightarrow> nat"])

lemma pct_safe: "list_all url_safe (pct c)"
proof -
  have "(of_char c :: nat) div 16 < 16"
    by (rule less_mult_imp_div_less) (use of_char_less [of c] in simp)
  then show ?thesis by (simp add: pct_def Let_def hex_upper_safe) (simp add: url_safe_def)
qed

lemma path_decode_no_plus: "CHR ''+'' \<notin> set p \<Longrightarrow> path_decode p = pct_decode p"
  by (simp add: path_decode_def split_on_no_sep)

lemma drop_dots_id: "list_all (\<lambda>s. s \<noteq> ''.'' \<and> s \<noteq> ''..'') ss \<Longrightarrow> drop_dots acc ss = rev acc @ ss"
  by (induction ss arbitrary: acc) simp_all

lemma fetch_path_id:
  assumes "list_all (\<lambda>s. s \<noteq> ''.'' \<and> s \<noteq> ''..'') (split_on CHR ''/'' p)"
  shows "fetch_path (CHR ''/'' # p) = CHR ''/'' # p"
proof -
  have "join ''/'' ([] # split_on CHR ''/'' p) = CHR ''/'' # join ''/'' (split_on CHR ''/'' p)"
    by (cases "split_on CHR ''/'' p") simp_all
  then show ?thesis using drop_dots_id [OF assms, of "[]"] join_split_on [of "CHR ''/''" p] by (simp add: fetch_path_def)
qed

text \<open>An encoded component contains none of the separators of a URL.\<close>

lemma uri_safe: "list_all url_safe (encodeURIComponent s)"
  unfolding encodeURIComponent_def by (induction s) (auto simp: pct_safe uri_plain_other)

lemma form_safe: "list_all url_safe (form_encode s)"
  unfolding form_encode_def
  by (induction s) (auto simp: form_char_def pct_safe uri_plain_other form_uri, auto simp: url_safe_def)

text \<open>A part \<open>k=v\<close> of a query string whose sides contain no separators.\<close>

lemma take_safe:
  assumes "list_all url_safe k"
  shows "takeWhile (\<lambda>c. c \<noteq> CHR ''='') (k @ CHR ''='' # v) = k"
    and "dropWhile (\<lambda>c. c \<noteq> CHR ''='') (k @ CHR ''='' # v) = CHR ''='' # v"
  using assms by (induction k) (auto simp: url_safe_def)

lemma take_path:
  assumes "CHR ''?'' \<notin> set p"
  shows "takeWhile (\<lambda>c. c \<noteq> CHR ''?'') (p @ CHR ''?'' # q) = p"
    and "dropWhile (\<lambda>c. c \<noteq> CHR ''?'') (p @ CHR ''?'' # q) = CHR ''?'' # q"
  using assms by (induction p) auto

definition query_pair :: "(string \<Rightarrow> string) \<Rightarrow> string \<times> string \<Rightarrow> string" where
  "query_pair enc kv = enc (fst kv) @ ''='' @ enc (snd kv)"

locale url_encoding =
  fixes enc :: "string \<Rightarrow> string"
  assumes decode_enc: "pct_decode (enc s) = s"
    and enc_safe: "list_all url_safe (enc s)"
begin

lemma parse_pair_enc: "parse_pair (query_pair enc kv) = kv"
  by (simp add: parse_pair_def query_pair_def take_safe [OF enc_safe] decode_enc)

lemma no_amp: "CHR ''&'' \<notin> set (query_pair enc kv)"
proof -
  have "CHR ''&'' \<notin> set (enc s)" for s
    using enc_safe [of s] by (auto simp: list_all_iff url_safe_def)
  then show ?thesis by (simp add: query_pair_def)
qed

lemma split_join: "kvs \<noteq> [] \<Longrightarrow>
    split_on CHR ''&'' (join ''&'' (map (query_pair enc) kvs)) = map (query_pair enc) kvs"
proof (induction kvs)
  case (Cons kv kvs)
  then show ?case
    by (cases "kvs = []") (simp_all add: split_on_no_sep [OF no_amp] split_on_append [OF no_amp] join_Cons)
qed simp

lemma parse_query_enc: "parse_query (join ''&'' (map (query_pair enc) kvs)) = kvs"
proof (cases "kvs = []")
  case False
  moreover have "join ''&'' (map (query_pair enc) kvs) \<noteq> []"
    using False by (cases kvs; cases "tl kvs") (auto simp: query_pair_def)
  moreover have "map (parse_pair \<circ> query_pair enc) kvs = kvs"
    by (induction kvs) (simp_all add: parse_pair_enc)
  ultimately show ?thesis by (simp add: parse_query_def split_join)
qed (simp add: parse_query_def)

end

interpretation uri: url_encoding encodeURIComponent
  by unfold_locales (simp_all add: uri_safe)

interpretation form: url_encoding form_encode
  by unfold_locales (simp_all add: form_safe)

lemma params_query: "params_str ps = join ''&'' (map (query_pair form_encode) ps)"
  unfolding params_str_def
  by (rule arg_cong [of _ _ "join ''&''"]) (simp add: query_pair_def split_def)

text \<open>Names of parameters are literals that need no encoding.\<close>

definition uri_query :: "string jsobj \<Rightarrow> string" where
  "uri_query ps = join ''&'' (map (\<lambda>(k, v). k @ ''='' @ encodeURIComponent v) ps)"

definition plain_name :: "string \<Rightarrow> bool" where
  "plain_name k \<longleftrightarrow> encodeURIComponent k = k"

lemma parse_uri_query: "list_all plain_name (map fst ps) \<Longrightarrow> parse_query (uri_query ps) = ps"
proof -
  assume "list_all plain_name (map fst ps)"
  then have "map (\<lambda>(k, v). k @ ''='' @ encodeURIComponent v) ps = map (query_pair encodeURIComponent) ps"
    by (auto simp: query_pair_def plain_name_def list_all_iff)
  then show ?thesis by (simp only: uri_query_def uri.parse_query_enc)
qed

lemma read_query: "CHR ''?'' \<notin> set p \<Longrightarrow> read_url (p @ CHR ''?'' # q) = (p, parse_query q)"
  by (simp add: read_url_def take_path)

lemma no_slash: "CHR ''/'' \<notin> set (encodeURIComponent s)"
  using uri_safe [of s] by (auto simp: list_all_iff url_safe_def)

lemma no_question: "CHR ''?'' \<notin> set (encodeURIComponent s)"
  using uri_safe [of s] by (auto simp: list_all_iff url_safe_def)

end
