(* ===== verification/Api_Calls.thy ===== *)
theory Api_Calls
  imports Session Js_Url
begin

text \<open>
  The calls of \<open>api/auth.ts\<close>, \<open>api/user.ts\<close>, \<open>api/admin.ts\<close>, \<open>api/permApi.ts\<close> and
  \<open>api/cluster.ts\<close>: the path with its encoded parameters, the method and the body that each call
  hands to \<open>apiFetch\<close>, and what the backend reads from them. Abort signals are left to the callers' models.
\<close>

record api_call =
  ca_path :: string
  ca_method :: string
  ca_body :: "json option"
  ca_quiet :: bool

definition get_call :: "string \<Rightarrow> api_call" where
  "get_call p = \<lparr>ca_path = p, ca_method = ''GET'', ca_body = None, ca_quiet = False\<rparr>"

definition post_call :: "string \<Rightarrow> json \<Rightarrow> api_call" where
  "post_call p b = \<lparr>ca_path = p, ca_method = ''POST'', ca_body = Some b, ca_quiet = False\<rparr>"

section \<open>Authentication\<close>

definition login_json :: "string \<Rightarrow> rat option \<Rightarrow> string \<Rightarrow> string \<Rightarrow> json" where
  "login_json host port username password = JObj [(''host'', JStr host),
     (''port'', case port of Some p \<Rightarrow> JNum p | None \<Rightarrow> JNull),
     (''username'', JStr username), (''password'', JStr password)]"

definition login_call :: "string \<Rightarrow> rat option \<Rightarrow> string \<Rightarrow> string \<Rightarrow> api_call" where
  "login_call host port username password = post_call ''/auth/login'' (login_json host port username password)"

definition getMe :: api_call where "getMe = get_call ''/auth/me''"

definition logoutApi :: api_call where
  "logoutApi = \<lparr>ca_path = ''/auth/logout'', ca_method = ''POST'', ca_body = None, ca_quiet = False\<rparr>"

section \<open>The calls shared by the two permission APIs\<close>

datatype perm_base = UserBase | AdminBase

fun base_str :: "perm_base \<Rightarrow> string" where
  "base_str UserBase = ''user''"
| "base_str AdminBase = ''admin''"

definition getUserEffectivePrivileges :: "perm_base \<Rightarrow> string \<Rightarrow> api_call" where
  "getUserEffectivePrivileges base username = get_call (''/'' @ base_str base @ ''/privileges/user/''
     @ encodeURIComponent username @ ''/effective'')"

definition getRolePrivileges :: "perm_base \<Rightarrow> string \<Rightarrow> api_call" where
  "getRolePrivileges base rolename =
     get_call (''/'' @ base_str base @ ''/privileges/role/'' @ encodeURIComponent rolename)"

definition set_truthy :: "string \<Rightarrow> string option \<Rightarrow> string jsobj \<Rightarrow> string jsobj" where
  "set_truthy k v ps = (if truthy v then params_set k (the v) ps else ps)"

definition getObjectPrivileges ::
  "perm_base \<Rightarrow> string option \<Rightarrow> string option \<Rightarrow> string option \<Rightarrow> string option \<Rightarrow> api_call" where
  "getObjectPrivileges base catalog database name objectType =
     (let params = set_truthy ''object_type'' objectType (set_truthy ''name'' name
        (set_truthy ''database'' database (set_truthy ''catalog'' catalog [])))
      in get_call (''/'' @ base_str base @ ''/privileges/object?'' @ params_str params))"

definition getRoles :: "perm_base \<Rightarrow> api_call" where
  "getRoles base = get_call (''/'' @ base_str base @ ''/roles'')"

definition getRoleHierarchy :: "perm_base \<Rightarrow> api_call" where
  "getRoleHierarchy base = get_call (''/'' @ base_str base @ ''/dag/role-hierarchy'')"

fun grantee_kind_lower :: "grantee_kind \<Rightarrow> string" where
  "grantee_kind_lower GUser = ''user''"
| "grantee_kind_lower GRole = ''role''"

definition getInheritanceDag :: "perm_base \<Rightarrow> string \<Rightarrow> grantee_kind \<Rightarrow> api_call" where
  "getInheritanceDag base name kind = get_call (''/'' @ base_str base @ ''/roles/inheritance-dag?name=''
     @ encodeURIComponent name @ ''&type='' @ grantee_kind_lower kind)"

definition getObjectHierarchy :: "perm_base \<Rightarrow> string option \<Rightarrow> api_call" where
  "getObjectHierarchy base catalog = get_call (''/'' @ base_str base @ ''/dag/object-hierarchy''
     @ (if truthy catalog then ''?catalog='' @ encodeURIComponent (the catalog) else []))"

definition searchAll :: "perm_base \<Rightarrow> string \<Rightarrow> nat \<Rightarrow> api_call" where
  "searchAll base q limit =
     get_call (''/'' @ base_str base @ ''/search?q='' @ encodeURIComponent q @ ''&limit='' @ nat_str limit)"

definition usePermApi :: "user_info option \<Rightarrow> perm_base" where
  "usePermApi user = (if nullish (map_option ui_is_user_admin user) False then AdminBase else UserBase)"

section \<open>Objects\<close>

definition getCatalogs :: api_call where "getCatalogs = get_call ''/user/objects/catalogs''"

definition getDatabases :: "string \<Rightarrow> api_call" where
  "getDatabases catalog = get_call (''/user/objects/databases?catalog='' @ encodeURIComponent catalog)"

definition getTables :: "string \<Rightarrow> string \<Rightarrow> api_call" where
  "getTables catalog database = get_call (''/user/objects/tables?catalog='' @ encodeURIComponent catalog
     @ ''&database='' @ encodeURIComponent database)"

definition getTableDetail :: "string \<Rightarrow> string \<Rightarrow> string \<Rightarrow> api_call" where
  "getTableDetail catalog database table = get_call (''/user/objects/table-detail?catalog=''
     @ encodeURIComponent catalog @ ''&database='' @ encodeURIComponent database
     @ ''&table='' @ encodeURIComponent table)"

definition getMyPermissions :: api_call where "getMyPermissions = get_call ''/user/my-permissions''"

section \<open>Administration\<close>

definition getUserPrivileges :: "string \<Rightarrow> api_call" where
  "getUserPrivileges username = get_call (''/admin/privileges/user/'' @ encodeURIComponent username)"

definition searchUsersRoles :: "string \<Rightarrow> nat \<Rightarrow> api_call" where
  "searchUsersRoles q limit = get_call (''/admin/search/users-roles?q='' @ encodeURIComponent q
     @ ''&limit='' @ nat_str limit)"

definition getGrantSpec :: api_call where "getGrantSpec = get_call ''/admin/grants/spec''"

text \<open>
  The body of a grant request: a missing property is not written, the parts of the object that do not
  apply are null, as \<open>buildRequest\<close> makes them.
\<close>

fun grantee_kind_str :: "grantee_kind \<Rightarrow> string" where
  "grantee_kind_str GUser = ''USER''"
| "grantee_kind_str GRole = ''ROLE''"

fun grant_action_str :: "grant_action \<Rightarrow> string" where
  "grant_action_str Grant = ''GRANT''"
| "grant_action_str Revoke = ''REVOKE''"

fun grant_kind_str :: "grant_kind \<Rightarrow> string" where
  "grant_kind_str Privilege = ''PRIVILEGE''"
| "grant_kind_str RoleGrant = ''ROLE''"

definition null_or :: "string option \<Rightarrow> json" where
  "null_or a = (case a of Some s \<Rightarrow> JStr s | None \<Rightarrow> JNull)"

definition opt_prop :: "string \<Rightarrow> ('a \<Rightarrow> json) \<Rightarrow> 'a option \<Rightarrow> (string \<times> json) list" where
  "opt_prop k f a = (case a of Some x \<Rightarrow> [(k, f x)] | None \<Rightarrow> [])"

definition grantee_json :: "grantee_ref \<Rightarrow> json" where
  "grantee_json g = JObj [(''name'', JStr (ge_name g)), (''type'', JStr (grantee_kind_str (ge_type g)))]"

definition object_json :: "grant_object_ref \<Rightarrow> json" where
  "object_json ob = JObj [(''object_type'', JStr (go_object_type ob)), (''catalog'', null_or (go_catalog ob)),
     (''database'', null_or (go_database ob)), (''name'', null_or (go_name ob))]"

definition grant_json :: "grant_request \<Rightarrow> json" where
  "grant_json r = JObj ([(''action'', JStr (grant_action_str (gq_action r))),
      (''type'', JStr (grant_kind_str (gq_type r))), (''grantee'', grantee_json (gq_grantee r))]
     @ opt_prop ''object'' object_json (gq_object r)
     @ opt_prop ''privileges'' (\<lambda>ps. JArr (map JStr ps)) (gq_privileges r)
     @ opt_prop ''role'' JStr (gq_role r)
     @ opt_prop ''with_grant_option'' JBool (gq_with_grant_option r))"

definition previewGrant :: "grant_request \<Rightarrow> api_call" where
  "previewGrant r = post_call ''/admin/grants/preview'' (grant_json r)"

definition executeGrant :: "grant_request \<Rightarrow> api_call" where
  "executeGrant r = post_call ''/admin/grants/execute'' (grant_json r)"

definition getAuditLog :: "nat \<Rightarrow> string option \<Rightarrow> string option \<Rightarrow> api_call" where
  "getAuditLog limit actor action =
     (let params = set_truthy ''action'' action (set_truthy ''actor'' actor [(''limit'', nat_str limit)])
      in get_call (''/admin/grants/audit?'' @ params_str params))"

section \<open>The cluster\<close>

definition getClusterStatus :: "bool \<Rightarrow> bool \<Rightarrow> api_call" where
  "getClusterStatus refresh quiet =
     (get_call (if refresh then ''/cluster/status?refresh=1'' else ''/cluster/status''))\<lparr>ca_quiet := quiet\<rparr>"

definition getClusterQueries :: "bool \<Rightarrow> api_call" where
  "getClusterQueries refresh =
     (get_call (if refresh then ''/cluster/queries?refresh=1'' else ''/cluster/queries''))\<lparr>ca_quiet := True\<rparr>"

definition getClusterQueryHistory :: "nat option \<Rightarrow> bool \<Rightarrow> api_call" where
  "getClusterQueryHistory limit errorsOnly =
     (let p1 = (if nullish limit 0 \<noteq> 0 then params_set ''limit'' (nat_str (the limit)) [] else []);
          p2 = (if errorsOnly then params_set ''errors_only'' ''1'' p1 else p1);
          qs = params_str p2
      in (get_call (''/cluster/queries/history'' @ (if qs \<noteq> [] then ''?'' @ qs else [])))\<lparr>ca_quiet := True\<rparr>)"

definition killClusterQuery :: "string \<Rightarrow> api_call" where
  "killClusterQuery queryId = post_call ''/cluster/queries/kill'' (JObj [(''query_id'', JStr queryId)])"

text \<open>A call through the client: the request that starts.\<close>

definition send_call :: "api_call \<Rightarrow> session \<Rightarrow> session" where
  "send_call c s = fetch_start (ca_path c) (ca_quiet c) s"

section \<open>What the server reads\<close>

definition read_opt :: "json option \<Rightarrow> string option option" where
  "read_opt j = (case j of None \<Rightarrow> Some None | Some JNull \<Rightarrow> Some None | Some (JStr s) \<Rightarrow> Some (Some s) | _ \<Rightarrow> None)"

definition read_kind :: "json option \<Rightarrow> (string \<times> 'a) list \<Rightarrow> 'a option" where
  "read_kind j table = (case j of Some (JStr s) \<Rightarrow> map_of table s | _ \<Rightarrow> None)"

fun read_str :: "json \<Rightarrow> string option" where
  "read_str (JStr s) = Some s"
| "read_str _ = None"

definition read_strs :: "json list \<Rightarrow> string list option" where
  "read_strs js = those (map read_str js)"

definition read_grantee :: "json option \<Rightarrow> grantee_ref option" where
  "read_grantee j = (case j of None \<Rightarrow> None | Some g \<Rightarrow>
     (case (Option.bind (member ''name'' g) read_str, read_kind (member ''type'' g) [(''USER'', GUser), (''ROLE'', GRole)]) of
        (Some n, Some k) \<Rightarrow> Some \<lparr>ge_name = n, ge_type = k\<rparr>
      | _ \<Rightarrow> None))"

definition read_object :: "json option \<Rightarrow> grant_object_ref option option" where
  "read_object j = (case j of None \<Rightarrow> Some None | Some JNull \<Rightarrow> Some None | Some ob \<Rightarrow>
     (case (Option.bind (member ''object_type'' ob) read_str, read_opt (member ''catalog'' ob),
            read_opt (member ''database'' ob), read_opt (member ''name'' ob)) of
        (Some t, Some c, Some d, Some n) \<Rightarrow>
          Some (Some \<lparr>go_object_type = t, go_catalog = c, go_database = d, go_name = n\<rparr>)
      | _ \<Rightarrow> None))"

definition read_privileges :: "json option \<Rightarrow> string list option option" where
  "read_privileges j = (case j of None \<Rightarrow> Some None
     | Some (JArr js) \<Rightarrow> map_option Some (read_strs js) | _ \<Rightarrow> None)"

definition read_flag :: "json option \<Rightarrow> bool option option" where
  "read_flag j = (case j of None \<Rightarrow> Some None | Some (JBool b) \<Rightarrow> Some (Some b) | _ \<Rightarrow> None)"

text \<open>The schema of a grant request, as the reader of its body applies it.\<close>

definition read_grant :: "json \<Rightarrow> grant_request option" where
  "read_grant j = (case (read_kind (member ''action'' j) [(''GRANT'', Grant), (''REVOKE'', Revoke)],
        read_kind (member ''type'' j) [(''PRIVILEGE'', Privilege), (''ROLE'', RoleGrant)],
        read_grantee (member ''grantee'' j), read_object (member ''object'' j),
        read_privileges (member ''privileges'' j), read_opt (member ''role'' j),
        read_flag (member ''with_grant_option'' j)) of
      (Some a, Some k, Some g, Some ob, Some ps, Some r, Some w) \<Rightarrow>
        Some \<lparr>gq_action = a, gq_type = k, gq_grantee = g, gq_object = ob, gq_privileges = ps, gq_role = r,
              gq_with_grant_option = w\<rparr>
    | _ \<Rightarrow> None)"

text \<open>
  The routes of the backend for privileges (\<open>backend/app/main.py\<close>, \<open>admin_privileges.py\<close>,
  \<open>user_privileges.py\<close>): a parameter of a route stands for one nonempty segment of the decoded path.
\<close>

datatype privilege_route = UserDirect string | UserEffective string | RoleGrants string | RoleRaw string | ObjectGrants

definition privilege_routes :: "perm_base \<Rightarrow> string list \<Rightarrow> privilege_route option" where
  "privilege_routes base segments = (case segments of
      [k] \<Rightarrow> if k = ''object'' then Some ObjectGrants else None
    | [k, n] \<Rightarrow>
        if n = [] then None
        else if k = ''user'' \<and> base = AdminBase then Some (UserDirect n)
        else if k = ''role'' then Some (RoleGrants n) else None
    | [k, n, x] \<Rightarrow>
        if n = [] then None
        else if k = ''user'' \<and> x = ''effective'' then Some (UserEffective n)
        else if k = ''role'' \<and> x = ''raw'' \<and> base = AdminBase then Some (RoleRaw n) else None
    | _ \<Rightarrow> None)"

definition serve :: "string \<Rightarrow> (perm_base \<times> privilege_route) option" where
  "serve url = (case server_path url of
      r # api # b # p # segments \<Rightarrow>
        if r = [] \<and> api = ''api'' \<and> p = ''privileges'' then
          (if b = ''user'' then map_option (Pair UserBase) (privilege_routes UserBase segments)
           else if b = ''admin'' then map_option (Pair AdminBase) (privilege_routes AdminBase segments)
           else None)
        else None
    | _ \<Rightarrow> None)"

section \<open>Lemmas\<close>

lemma set_truthy_simps:
  "set_truthy k None ps = ps" "set_truthy k (Some []) ps = ps" "set_truthy k (Some (c # s)) ps = obj_set k (c # s) ps"
  by (simp_all add: set_truthy_def params_set_def)

lemma read_strs_map [simp]: "read_strs (map JStr ps) = Some ps"
  unfolding read_strs_def by (induction ps) simp_all

lemma read_opt_simps [simp]: "read_opt None = Some None" "read_opt (Some (JStr s)) = Some (Some s)"
  "read_opt (Some (null_or a)) = Some a"
  by (auto simp: read_opt_def null_or_def split: option.splits)

lemma literal_keys:
  "\<not> is_index_key (c # s)" if "\<not> is_digit c"
  using that by (simp add: is_index_key_def)

lemma plain_null_or [simp]: "json_plain (null_or a)"
  by (cases a) (simp_all add: null_or_def)

lemma plain_props:
  "json_plain (grantee_json g)" "json_plain (object_json ob)" "json_plain (JArr (map JStr ps))"
  by (simp_all add: grantee_json_def object_json_def literal_keys is_digit_def list_all_iff)

lemma plain_grant: "json_plain (grant_json r)"
  by (cases "gq_object r"; cases "gq_privileges r"; cases "gq_role r"; cases "gq_with_grant_option r")
    (simp_all add: grant_json_def opt_prop_def literal_keys is_digit_def plain_props del: json_plain.simps(2))

lemma read_grantee_json [simp]: "read_grantee (Some (grantee_json g)) = Some g"
  by (cases g; cases "ge_type g") (auto simp: read_grantee_def grantee_json_def member_def obj_get_def read_kind_def)

lemma read_object_json [simp]: "read_object (Some (object_json ob)) = Some (Some ob)"
  by (cases ob) (simp add: read_object_def object_json_def member_def obj_get_def)

lemma read_object_None [simp]: "read_object None = Some None"
  by (simp add: read_object_def)

lemma grant_members:
  "member ''action'' (grant_json r) = Some (JStr (grant_action_str (gq_action r)))"
  "member ''type'' (grant_json r) = Some (JStr (grant_kind_str (gq_type r)))"
  "member ''grantee'' (grant_json r) = Some (grantee_json (gq_grantee r))"
  "member ''object'' (grant_json r) = map_option object_json (gq_object r)"
  "member ''privileges'' (grant_json r) = map_option (\<lambda>ps. JArr (map JStr ps)) (gq_privileges r)"
  "member ''role'' (grant_json r) = map_option JStr (gq_role r)"
  "member ''with_grant_option'' (grant_json r) = map_option JBool (gq_with_grant_option r)"
  by (simp_all add: grant_json_def member_def obj_get_def opt_prop_def split: option.splits)

lemma read_grant_json: "read_grant (grant_json r) = Some r"
proof -
  have "read_kind (Some (JStr (grant_action_str a))) [(''GRANT'', Grant), (''REVOKE'', Revoke)] = Some a" for a
    by (cases a) (simp_all add: read_kind_def)
  moreover have "read_kind (Some (JStr (grant_kind_str k))) [(''PRIVILEGE'', Privilege), (''ROLE'', RoleGrant)] = Some k" for k
    by (cases k) (simp_all add: read_kind_def)
  moreover have "read_object (map_option object_json ob) = Some ob" for ob by (cases ob) simp_all
  moreover have "read_privileges (map_option (\<lambda>ps. JArr (map JStr ps)) x) = Some x" for x
    by (cases x) (simp_all add: read_privileges_def)
  moreover have "read_opt (map_option JStr x) = Some x" for x by (cases x) simp_all
  moreover have "read_flag (map_option JBool x) = Some x" for x by (cases x) (simp_all add: read_flag_def)
  ultimately show ?thesis by (cases r) (simp add: read_grant_def grant_members)
qed

text \<open>The query strings that the calls write by hand.\<close>

lemma plain_cons: "uri_plain c \<Longrightarrow> plain_name (c # s) \<longleftrightarrow> plain_name s"
  by (simp add: plain_name_def encodeURIComponent_def)

lemma plain_nil [simp]: "plain_name []"
  by (simp add: plain_name_def encodeURIComponent_def)

lemmas plain_names = plain_cons uri_plain_def is_alnum_def

lemma uri_query_1: "k @ ''='' @ encodeURIComponent v = uri_query [(k, v)]"
  by (simp add: uri_query_def)

lemma plain_nameI: "\<forall>c \<in> set s. uri_plain c \<Longrightarrow> plain_name s"
  by (induction s) (simp_all add: plain_cons)

lemma encode_nat: "encodeURIComponent (nat_str n) = nat_str n"
proof -
  have "\<forall>c \<in> set (nat_str n). uri_plain c"
    using nat_str_digits [of n] by (auto simp: uri_plain_def is_alnum_def is_digit_def Let_def)
  then show ?thesis using plain_nameI by (simp add: plain_name_def)
qed

lemma read_hand_written:
  assumes "u = p @ ''?'' @ uri_query ps" and "CHR ''?'' \<notin> set p" and "list_all plain_name (map fst ps)"
  shows "read_url u = (p, ps)"
  using assms by (simp add: read_query parse_uri_query)

lemma read_params: "CHR ''?'' \<notin> set p \<Longrightarrow> read_url (p @ CHR ''?'' # params_str ps) = (p, ps)"
  by (simp add: read_query params_query form.parse_query_enc)

lemma no_question_base: "CHR ''?'' \<notin> set (base_str b)"
  by (cases b) simp_all

text \<open>A path of encoded names reaches the server as these names.\<close>

definition path_name :: "string \<Rightarrow> bool" where
  "path_name u \<longleftrightarrow> u \<noteq> [] \<and> CHR ''/'' \<notin> set u \<and> u \<noteq> ''.'' \<and> u \<noteq> ''..''"

lemma encoded_name:
  assumes "path_name u"
  shows "encodeURIComponent u \<noteq> ''.'' \<and> encodeURIComponent u \<noteq> ''..''"
proof -
  have "u \<noteq> pct_decode ''.''" "u \<noteq> pct_decode ''..''" using assms by (simp_all add: path_name_def pct_decode.simps)
  then show ?thesis using decode_uri [of u] by metis
qed

lemma hex_upper_no_plus: "d < 16 \<Longrightarrow> hex_upper d \<noteq> CHR ''+''"
  by (auto simp: hex_upper_def) (auto dest!: arg_cong [of _ _ "of_char :: char \<Rightarrow> nat"])

lemma pct_no_plus: "CHR ''+'' \<notin> set (pct c)"
proof -
  have "(of_char c :: nat) div 16 < 16"
    by (rule less_mult_imp_div_less) (use of_char_less [of c] in simp)
  then show ?thesis
    using hex_upper_no_plus [of "of_char c div 16"] hex_upper_no_plus [of "of_char c mod 16"]
    by (auto simp: pct_def Let_def)
qed

lemma no_plus: "CHR ''+'' \<notin> set (encodeURIComponent u)"
  unfolding encodeURIComponent_def by (induction u) (auto simp: pct_no_plus dest: uri_plain_other)

lemma split_join_slash:
  "ss \<noteq> [] \<Longrightarrow> list_all (\<lambda>s. CHR ''/'' \<notin> set s) ss \<Longrightarrow> split_on CHR ''/'' (join ''/'' ss) = ss"
  by (induction ss rule: induct_list012) (simp_all add: split_on_no_sep split_on_append)

lemma decode_join: "pct_decode (join ''/'' (map encodeURIComponent ns)) = join ''/'' ns"
  by (induction ns rule: induct_list012) (simp_all add: decode_uri_append pct_decode.simps)

lemma no_plus_join: "CHR ''+'' \<notin> set (join ''/'' (map encodeURIComponent ns))"
  by (induction ns rule: induct_list012) (simp_all add: no_plus)

lemma served_path:
  assumes "ns \<noteq> []" and "list_all path_name ns"
  shows "server_path (CHR ''/'' # join ''/'' (map encodeURIComponent ns)) = [] # ns"
proof -
  let ?p = "join ''/'' (map encodeURIComponent ns)"
  have "split_on CHR ''/'' ?p = map encodeURIComponent ns"
    using assms(1) no_slash by (intro split_join_slash) (simp_all add: list_all_iff)
  then have "fetch_path (CHR ''/'' # ?p) = CHR ''/'' # ?p"
    using assms(2) encoded_name by (intro fetch_path_id) (auto simp: list_all_iff)
  moreover have "path_decode (CHR ''/'' # ?p) = CHR ''/'' # join ''/'' ns"
    using no_plus_join [of ns] by (subst path_decode_no_plus) (simp_all add: pct_decode.simps decode_join)
  moreover have "split_on CHR ''/'' (join ''/'' ns) = ns"
    using assms by (intro split_join_slash) (auto simp: list_all_iff path_name_def)
  ultimately show ?thesis by (simp add: server_path_def)
qed

lemma plain_segments:
  "encodeURIComponent ''api'' = ''api''" "encodeURIComponent ''privileges'' = ''privileges''"
  "encodeURIComponent ''user'' = ''user''" "encodeURIComponent ''role'' = ''role''"
  "encodeURIComponent ''effective'' = ''effective''" "encodeURIComponent (base_str b) = base_str b"
  by (cases b; simp add: plain_name_def [symmetric] plain_names)+

lemma path_name_segments:
  "path_name ''api''" "path_name ''privileges''" "path_name ''user''" "path_name ''role''" "path_name ''effective''"
  "path_name (base_str b)"
  by (cases b; simp add: path_name_def)+

lemma served_name:
  assumes u: "path_name u" and k: "k = ''user'' \<or> k = ''role''"
  shows "server_path (''/api/'' @ base_str b @ ''/privileges/'' @ k @ CHR ''/'' # encodeURIComponent u)
      = [[], ''api'', base_str b, ''privileges'', k, u]"
    and "server_path (''/api/'' @ base_str b @ ''/privileges/'' @ k @ CHR ''/'' # encodeURIComponent u @ ''/effective'')
      = [[], ''api'', base_str b, ''privileges'', k, u, ''effective'']"
proof -
  have "encodeURIComponent k = k" "path_name k" using k plain_segments path_name_segments by auto
  then show "server_path (''/api/'' @ base_str b @ ''/privileges/'' @ k @ CHR ''/'' # encodeURIComponent u)
      = [[], ''api'', base_str b, ''privileges'', k, u]"
    "server_path (''/api/'' @ base_str b @ ''/privileges/'' @ k @ CHR ''/'' # encodeURIComponent u @ ''/effective'')
      = [[], ''api'', base_str b, ''privileges'', k, u, ''effective'']"
    using served_path [of "[''api'', base_str b, ''privileges'', k, u]"]
      served_path [of "[''api'', base_str b, ''privileges'', k, u, ''effective'']"]
    by (simp_all add: u plain_segments path_name_segments)
qed

section \<open>Properties\<close>

definition given :: "(string \<times> string option) list \<Rightarrow> string jsobj" where
  "given ps = concat (map (\<lambda>(k, v). if truthy v then [(k, the v)] else []) ps)"

text \<open>
  C33. What the server gets from a URL. Whatever characters the parameters of a query contain, reading the URL
  gives back the route and exactly the parameters of the call, in their order: nothing in a value can add a
  parameter or change one, and optional parameters appear when they are given and not empty. A name in the
  path reaches its own route of the backend, unchanged, whenever it is not empty, has no slash and is not made
  of one or two dots; the names excluded do not (\<open>path_names_lost\<close>).
\<close>

theorem urls_carry_parameters:
  "read_url (ca_path (getTableDetail c d t)) = (''/user/objects/table-detail'',
      [(''catalog'', c), (''database'', d), (''table'', t)])
   \<and> read_url (ca_path (getTables c d)) = (''/user/objects/tables'', [(''catalog'', c), (''database'', d)])
   \<and> read_url (ca_path (searchAll b q n)) = (''/'' @ base_str b @ ''/search'', [(''q'', q), (''limit'', nat_str n)])
   \<and> read_url (ca_path (getInheritanceDag b n' k)) = (''/'' @ base_str b @ ''/roles/inheritance-dag'',
      [(''name'', n'), (''type'', grantee_kind_lower k)])
   \<and> read_url (ca_path (getObjectPrivileges b oc od on ot)) = (''/'' @ base_str b @ ''/privileges/object'',
      given [(''catalog'', oc), (''database'', od), (''name'', on), (''object_type'', ot)])
   \<and> read_url (ca_path (getAuditLog l a ac)) = (''/admin/grants/audit'',
      (''limit'', nat_str l) # given [(''actor'', a), (''action'', ac)])
   \<and> serve (BASE @ fst (read_url (ca_path (getObjectPrivileges b oc od on ot)))) = Some (b, ObjectGrants)
   \<and> (if u \<noteq> [] \<and> CHR ''/'' \<notin> set u \<and> u \<noteq> ''.'' \<and> u \<noteq> ''..''
       then serve (BASE @ ca_path (getUserEffectivePrivileges b u)) = Some (b, UserEffective u)
         \<and> serve (BASE @ ca_path (getRolePrivileges b u)) = Some (b, RoleGrants u)
         \<and> serve (BASE @ ca_path (getUserPrivileges u)) = Some (AdminBase, UserDirect u)
       else True)"
  (is "?t \<and> ?ts \<and> ?se \<and> ?in \<and> ?op \<and> ?au \<and> ?ob \<and> ?names")
proof (intro conjI)
  show ?t by (rule read_hand_written) (simp_all add: getTableDetail_def get_call_def uri_query_def plain_names)
  show ?ts by (rule read_hand_written) (simp_all add: getTables_def get_call_def uri_query_def plain_names)
  show ?se by (rule read_hand_written)
    (simp_all add: searchAll_def get_call_def uri_query_def plain_names encode_nat no_question_base)
  have "encodeURIComponent (grantee_kind_lower k) = grantee_kind_lower k"
    using plain_names by (cases k) (simp_all add: plain_name_def [symmetric] plain_names)
  then show ?in by (intro read_hand_written)
    (simp_all add: getInheritanceDag_def get_call_def uri_query_def plain_names no_question_base)
  have "CHR ''?'' \<notin> set (''/'' @ base_str b @ ''/privileges/object'')" by (simp add: no_question_base)
  from read_params [OF this] show ?op
    by (simp add: getObjectPrivileges_def get_call_def Let_def given_def set_truthy_def params_set_def obj_set_def)
  show ?au using read_params [of "''/admin/grants/audit''"]
    by (simp add: getAuditLog_def get_call_def Let_def given_def set_truthy_def params_set_def obj_set_def)
  have "serve (BASE @ ''/'' @ base_str b @ ''/privileges/object'') = Some (b, ObjectGrants)"
    by (cases b) (simp_all add: serve_def server_path_def fetch_path_def path_decode_def pct_decode.simps BASE_def
        privilege_routes_def)
  with \<open>?op\<close> show ?ob by simp
  show ?names
  proof (cases "path_name u")
    case True
    note served = served_name [OF True, of "''user''"] served_name [OF True, of "''role''"]
    have "u \<noteq> []" using True by (simp add: path_name_def)
    then have "serve (BASE @ ca_path (getUserEffectivePrivileges b u)) = Some (b, UserEffective u)"
      "serve (BASE @ ca_path (getRolePrivileges b u)) = Some (b, RoleGrants u)"
      "serve (BASE @ ca_path (getUserPrivileges u)) = Some (AdminBase, UserDirect u)"
      using served(2) [of b] served(3) [of b] served(1) [of AdminBase]
      by (cases b; simp add: serve_def BASE_def getUserEffectivePrivileges_def getRolePrivileges_def
          getUserPrivileges_def get_call_def privilege_routes_def)+
    then show ?thesis by simp
  qed (auto simp: path_name_def)
qed

text \<open>
  A slash in a name, though encoded, is one again when the server looks for the route: the privileges of a user
  of a network are not found, and those of the role \<open>x/raw\<close> are the raw ones of the role \<open>x\<close>. A role of two
  dots is resolved by the browser.
\<close>

lemma path_names_lost:
  "serve (BASE @ ca_path (getUserEffectivePrivileges UserBase ''a@10.0.0.0/8'')) = None"
  "serve (BASE @ ca_path (getRolePrivileges AdminBase ''x/raw'')) = Some (AdminBase, RoleRaw ''x'')"
  "serve (BASE @ ca_path (getRolePrivileges AdminBase ''..'')) = None"
  by code_simp+

text \<open>
  C34. The text that a preview or an execution sends is the same for the same request, it is JSON, it has
  the types of the request's schema, and reading it gives back the request.
\<close>

theorem grant_body_roundtrip:
  "ca_body (executeGrant r) = ca_body (previewGrant r)
   \<and> Option.bind (ca_body (executeGrant r)) (\<lambda>b. Option.bind (json_parse (json_str b)) read_grant) = Some r"
  using json_roundtrip [OF plain_grant, of r]
  by (simp add: executeGrant_def previewGrant_def post_call_def read_grant_json)

end
