(* ===== verification/Relative_Time.thy ===== *)
theory Relative_Time
  imports Js_Regex
begin

text \<open>
  \<open>utils/relativeTime.ts\<close>. Times are milliseconds since the epoch; a date that cannot be read is
  \<open>None\<close>. \<open>new Date(s)\<close> is modelled for the format that the code produces; any other text is read by
  the parameter \<open>host_date\<close>, as the language leaves it to the browser.
\<close>

section \<open>Dates\<close>

definition days_from_civil :: "int \<Rightarrow> int \<Rightarrow> int \<Rightarrow> int" where
  "days_from_civil y m d =
     (let y' = (if m \<le> 2 then y - 1 else y); era = y' div 400; yoe = y' mod 400;
          doy = (153 * (m + (if m > 2 then -3 else 9)) + 2) div 5 + d - 1;
          doe = yoe * 365 + yoe div 4 - yoe div 100 + doy
      in era * 146097 + doe - 719468)"

definition leap_year :: "int \<Rightarrow> bool" where
  "leap_year y \<longleftrightarrow> y mod 4 = 0 \<and> (y mod 100 \<noteq> 0 \<or> y mod 400 = 0)"

definition days_in_month :: "int \<Rightarrow> int \<Rightarrow> int" where
  "days_in_month y m = (if m = 2 then (if leap_year y then 29 else 28)
     else if m \<in> {4, 6, 9, 11} then 30 else 31)"

definition num_at :: "nat \<Rightarrow> nat \<Rightarrow> string \<Rightarrow> int" where
  "num_at i n s = int (str_nat (take n (drop i s)) 0)"

text \<open>\<open>/^\d{4}-\d{2}-\d{2} \d{2}:\d{2}:\d{2}$/\<close>\<close>

definition digits :: "nat \<Rightarrow> re" where
  "digits n = re_times n (Cls is_digit)"

definition NAIVE_RE :: re where
  "NAIVE_RE = re_seq [Bos, digits 4, lit CHR ''-'', digits 2, lit CHR ''-'', digits 2, lit CHR '' '',
     digits 2, lit CHR '':'', digits 2, lit CHR '':'', digits 2, Eos]"

definition ISO_RE :: re where
  "ISO_RE = re_seq [Bos, digits 4, lit CHR ''-'', digits 2, lit CHR ''-'', digits 2, lit CHR ''T'',
     digits 2, lit CHR '':'', digits 2, lit CHR '':'', digits 2, lit CHR ''Z'', Eos]"

definition iso_ms :: "string \<Rightarrow> int option" where
  "iso_ms s = (if \<not> re_test ISO_RE s then None
     else (let y = num_at 0 4 s; mo = num_at 5 2 s; d = num_at 8 2 s;
               h = num_at 11 2 s; mi = num_at 14 2 s; sec = num_at 17 2 s
           in if 1 \<le> mo \<and> mo \<le> 12 \<and> 1 \<le> d \<and> d \<le> days_in_month y mo \<and> h \<le> 23 \<and> mi \<le> 59 \<and> sec \<le> 59
              then Some ((((days_from_civil y mo d * 24 + h) * 60 + mi) * 60 + sec) * 1000)
              else None))"

definition new_date :: "(string \<Rightarrow> int option) \<Rightarrow> string \<Rightarrow> int option" where
  "new_date host_date s = (case iso_ms s of Some t \<Rightarrow> Some t | None \<Rightarrow> host_date s)"

definition parseAsUtc :: "(string \<Rightarrow> int option) \<Rightarrow> string \<Rightarrow> int option" where
  "parseAsUtc host_date input = new_date host_date
     (if re_test NAIVE_RE input then replace_first '' '' ''T'' input @ ''Z'' else input)"

section \<open>The clock of the cluster\<close>

definition clockSkewMs :: "(string \<Rightarrow> int option) \<Rightarrow> int \<Rightarrow> string option \<Rightarrow> int option" where
  "clockSkewMs host_date browser serverNow =
     (if \<not> truthy serverNow then None
      else map_option (\<lambda>d. d - browser) (parseAsUtc host_date (the serverNow)))"

definition skewedNow :: "int \<Rightarrow> int option \<Rightarrow> int" where
  "skewedNow browser skewMs = (case skewMs of None \<Rightarrow> browser | Some k \<Rightarrow> browser + k)"

section \<open>The label\<close>

definition unit_label :: "int \<Rightarrow> string \<Rightarrow> string" where
  "unit_label n u = int_str n @ '' '' @ (if n = 1 then u else u @ ''s'')"

datatype time_unit = USecond | UMinute | UHour | UDay | UMonth | UYear

fun unit_name :: "time_unit \<Rightarrow> string" where
  "unit_name USecond = ''second''"
| "unit_name UMinute = ''minute''"
| "unit_name UHour = ''hour''"
| "unit_name UDay = ''day''"
| "unit_name UMonth = ''month''"
| "unit_name UYear = ''year''"

text \<open>The count and the unit of a distance in milliseconds, nothing when it is under five seconds.\<close>

definition time_amount :: "int \<Rightarrow> (int \<times> time_unit) option" where
  "time_amount absMs =
     (let seconds = absMs div 1000; minutes = absMs div (1000 * 60); hours = absMs div (1000 * 60 * 60);
          days = absMs div (1000 * 60 * 60 * 24); months = days div 30; years = days div 365
      in if seconds < 5 then None
         else if seconds < 60 then Some (seconds, USecond)
         else if minutes < 60 then Some (minutes, UMinute)
         else if hours < 24 then Some (hours, UHour)
         else if days < 30 then Some (days, UDay)
         else if months < 12 then Some (months, UMonth)
         else Some (years, UYear))"

definition relative_label :: "int \<Rightarrow> string" where
  "relative_label diffMs = (case time_amount \<bar>diffMs\<bar> of
      None \<Rightarrow> ''just now''
    | Some (n, u) \<Rightarrow> (let label = unit_label n (unit_name u)
        in if diffMs < 0 then ''in '' @ label else label @ '' ago''))"

definition formatRelativeTime :: "(string \<Rightarrow> int option) \<Rightarrow> string option \<Rightarrow> int \<Rightarrow> string" where
  "formatRelativeTime host_date input now =
     (case input of
        None \<Rightarrow> []
      | Some s \<Rightarrow> if s = [] then []
          else (case parseAsUtc host_date s of None \<Rightarrow> [] | Some d \<Rightarrow> relative_label (now - d)))"

section \<open>Properties\<close>

fun unit_ms :: "time_unit \<Rightarrow> int" where
  "unit_ms USecond = 1000"
| "unit_ms UMinute = 60000"
| "unit_ms UHour = 3600000"
| "unit_ms UDay = 86400000"
| "unit_ms UMonth = 2592000000"
| "unit_ms UYear = 31536000000"

lemma div_nested: "(x :: int) div 86400000 div 30 = x div 2592000000" "x div 86400000 div 365 = x div 31536000000"
  by (simp_all add: zdiv_zmult2_eq [symmetric])

lemma div_bounds: "0 < k \<Longrightarrow> x div k * k \<le> x \<and> x < (x div k + 1) * k" for x k :: int
proof -
  assume "0 < k"
  then have "0 \<le> x mod k" "x mod k < k" by simp_all
  moreover have "x div k * k + x mod k = x" by simp
  ultimately show ?thesis unfolding distrib_right by linarith
qed

lemma unit_products: "(1000 :: int) * 60 = 60000" "(60000 :: int) * 60 = 3600000" "(3600000 :: int) * 24 = 86400000"
  by simp_all

text \<open>
  C38. The count and the unit of a label are right: the count is the whole number of units in the distance,
  it is positive and below the next unit, except that a distance of 360 to 364 days, twelve months of
  thirty days but no year, is labelled with zero years.
\<close>

theorem time_amount_correct:
  "case time_amount x of
     None \<Rightarrow> x < 5000
   | Some (n, u) \<Rightarrow> n * unit_ms u \<le> x \<and> x < (n + 1) * unit_ms u
       \<and> (if n \<le> 0 then n = 0 \<and> u = UYear \<and> 360 * unit_ms UDay \<le> x \<and> x < 365 * unit_ms UDay else True)
       \<and> (case u of USecond \<Rightarrow> n < 60 | UMinute \<Rightarrow> n < 60 | UHour \<Rightarrow> n < 24 | UDay \<Rightarrow> n < 30
           | UMonth \<Rightarrow> n < 12 | UYear \<Rightarrow> True)"
proof -
  define s mi h d mo y where "s = x div 1000" and "mi = x div 60000" and "h = x div 3600000"
    and "d = x div 86400000" and "mo = x div 2592000000" and "y = x div 31536000000"
  have amount: "time_amount x = (if s < 5 then None else if s < 60 then Some (s, USecond)
      else if mi < 60 then Some (mi, UMinute) else if h < 24 then Some (h, UHour)
      else if d < 30 then Some (d, UDay) else if mo < 12 then Some (mo, UMonth) else Some (y, UYear))"
    by (simp only: time_amount_def Let_def unit_products s_def mi_def h_def d_def mo_def y_def div_nested)
  have b: "s * 1000 \<le> x" "x < (s + 1) * 1000" "mi * 60000 \<le> x" "x < (mi + 1) * 60000"
    "h * 3600000 \<le> x" "x < (h + 1) * 3600000" "d * 86400000 \<le> x" "x < (d + 1) * 86400000"
    "mo * 2592000000 \<le> x" "x < (mo + 1) * 2592000000" "y * 31536000000 \<le> x" "x < (y + 1) * 31536000000"
    using div_bounds [of 1000 x] div_bounds [of 60000 x] div_bounds [of 3600000 x] div_bounds [of 86400000 x]
      div_bounds [of 2592000000 x] div_bounds [of 31536000000 x]
    unfolding s_def mi_def h_def d_def mo_def y_def by simp_all
  consider (now) "s < 5" | (s) "5 \<le> s" "s < 60" | (mi) "60 \<le> s" "mi < 60" | (h) "60 \<le> s" "60 \<le> mi" "h < 24"
    | (d) "60 \<le> s" "60 \<le> mi" "24 \<le> h" "d < 30" | (mo) "60 \<le> s" "60 \<le> mi" "24 \<le> h" "30 \<le> d" "mo < 12"
    | (y) "60 \<le> s" "60 \<le> mi" "24 \<le> h" "30 \<le> d" "12 \<le> mo"
    unfolding not_less [symmetric] by blast
  then show ?thesis
  proof cases
    case now then show ?thesis using b(2) by (simp add: amount)
  next
    case s then show ?thesis using b(1,2) by (simp add: amount)
  next
    case mi
    then have "0 < mi" using b(1,4) by simp
    with mi show ?thesis using b(3,4) by (simp add: amount)
  next
    case h
    then have "0 < h" using b(3,6) by simp
    with h show ?thesis using b(5,6) by (simp add: amount)
  next
    case d
    then have "0 < d" using b(5,8) by simp
    with d show ?thesis using b(7,8) by (simp add: amount)
  next
    case mo
    then have "0 < mo" using b(7,10) by simp
    with mo show ?thesis using b(9,10) by (simp add: amount)
  next
    case y
    then have "31104000000 \<le> x" using b(9) by simp
    moreover from this have "0 < (y + 1) * 31536000000" using b(12) by linarith
    then have "0 \<le> y" by simp
    ultimately show ?thesis using y b(11,12) by (auto simp: amount)
  qed
qed

text \<open>
  The time zone of the cluster and an error of the browser's clock cancel out. For a cluster time and
  a time stamp that can be read, the label computed a while after the response depends only on the
  distance of the two cluster times and on the time elapsed since, not on what the browser's clock says.
\<close>

theorem skew_cancels:
  assumes "parseAsUtc host_date server_now = Some s" and "server_now \<noteq> []"
    and "parseAsUtc host_date stamp = Some t" and "stamp \<noteq> []"
  shows "formatRelativeTime host_date (Some stamp)
      (skewedNow (browser + elapsed) (clockSkewMs host_date browser (Some server_now)))
    = relative_label (s - t + elapsed)"
  using assms by (simp add: formatRelativeTime_def skewedNow_def clockSkewMs_def algebra_simps)

lemma skew_cancels_witness:
  "formatRelativeTime (\<lambda>_. None) (Some ''2026-04-19 10:00:00'')
      (skewedNow (999 + 60000) (clockSkewMs (\<lambda>_. None) 999 (Some ''2026-04-19 12:00:00''))) = ''2 hours ago''"
proof -
  have "parseAsUtc (\<lambda>_. None) ''2026-04-19 12:00:00'' = Some 1776600000000"
    and "parseAsUtc (\<lambda>_. None) ''2026-04-19 10:00:00'' = Some 1776592800000"
    by code_simp+
  from skew_cancels [OF this(1) _ this(2), of 999 60000]
  have "formatRelativeTime (\<lambda>_. None) (Some ''2026-04-19 10:00:00'')
      (skewedNow (999 + 60000) (clockSkewMs (\<lambda>_. None) 999 (Some ''2026-04-19 12:00:00'')))
    = relative_label 7260000" by simp
  also have "\<dots> = ''2 hours ago''" by code_simp
  finally show ?thesis .
qed

text \<open>A time 361 days ago is labelled with zero years.\<close>

lemma zero_years: "relative_label (361 * 24 * 60 * 60 * 1000) = ''0 years ago''"
  by code_simp

end
