(* ===== verification/Inventory_Utils.thy ===== *)
theory Inventory_Utils
  imports Js_Regex Js_Json Js_View
begin

text \<open>
  \<open>utils/nodeNameUtils.ts\<close>, \<open>utils/sysObjectFields.ts\<close>, \<open>utils/resourceGroupClassifiers.ts\<close>
  and \<open>utils/inventory-helpers.ts\<close>. The SQL formatter is a package and so a parameter, with no value
  for an exception; the locale's rendering of a number is one as well.
\<close>

section \<open>Node names\<close>

text \<open>\<open>/_\d+_\d+$/\<close> and \<open>/^\d{1,3}(\.\d{1,3}){3}$/\<close>\<close>

definition NAME_SUFFIX_RE :: re where
  "NAME_SUFFIX_RE = re_seq [lit CHR ''_'', plus is_digit, lit CHR ''_'', plus is_digit, Eos]"

definition one_to_three :: re where
  "one_to_three = re_seq [Cls is_digit, Opt (Cls is_digit), Opt (Cls is_digit)]"

definition IPV4_RE :: re where
  "IPV4_RE = re_seq [Bos, one_to_three, re_times 3 (Seq (lit CHR ''.'') one_to_three), Eos]"

definition shortenNodeName :: "string \<Rightarrow> string" where
  "shortenNodeName name = (if name = [] then name
     else if re_test IPV4_RE name then name
     else (let label = (if str_includes ''.'' name then hd (split_on CHR ''.'' name) else name)
           in re_replace NAME_SUFFIX_RE [] label))"

section \<open>The fields of a system object\<close>

type_synonym sys_object = "string jsobj"
text \<open>The single quote.\<close>

definition quote_ch :: char where "quote_ch = char_of (39 :: nat)"

type_synonym field = "string \<times> string option"

text \<open>A field that is shown when its value is given, and one that is hidden for a zero as well.\<close>

definition given_field :: "string \<Rightarrow> string \<Rightarrow> sys_object \<Rightarrow> field list" where
  "given_field lbl k ob = show_if (truthy (obj_get ob k)) [(lbl, obj_get ob k)]"

definition limit_set :: "string \<Rightarrow> sys_object \<Rightarrow> bool" where
  "limit_set k ob \<longleftrightarrow> truthy (obj_get ob k) \<and> obj_get ob k \<noteq> Some ''0''"

definition limit_field :: "string \<Rightarrow> string \<Rightarrow> (string \<Rightarrow> string) \<Rightarrow> sys_object \<Rightarrow> field list" where
  "limit_field lbl k f ob = show_if (limit_set k ob) [(lbl, map_option f (obj_get ob k))]"

text \<open>\<open>/^'?([^'@]+)'?@/\<close> and \<open>/^(mv-|pipe-)/\<close>; a missing name is the text \<open>undefined\<close>.\<close>

definition CREATOR_RE :: re where
  "CREATOR_RE = re_seq [Bos, Opt (lit quote_ch), Cap 1 (plus (\<lambda>c. c \<noteq> quote_ch \<and> c \<noteq> CHR ''@'')),
     Opt (lit quote_ch), lit CHR ''@'']"

definition SYSTEM_TASK_RE :: re where
  "SYSTEM_TASK_RE = Seq Bos (Cap 1 (Alt (lits ''mv-'') (lits ''pipe-'')))"

definition creator_field :: "sys_object \<Rightarrow> field list" where
  "creator_field ob = (if \<not> truthy (obj_get ob ''creator'') then []
     else (let creator = the (obj_get ob ''creator'');
               creatorName = (case re_search CREATOR_RE creator of Some (_, _, _, cs) \<Rightarrow> capture 1 cs | None \<Rightarrow> creator);
               isSystem = re_test SYSTEM_TASK_RE (nullish (obj_get ob ''name'') ''undefined'')
           in [(''Creator'', Some (''__CREATOR__'' @ creatorName @ ''__'' @ (if isSystem then ''system'' else ''user'')))]))"

definition buildSysObjectFields :: "(string \<Rightarrow> string) \<Rightarrow> sys_object \<Rightarrow> field list" where
  "buildSysObjectFields locale_number ob =
     [(''Name'', obj_get ob ''name''), (''Type'', obj_get ob ''type'')] @
     (let t = nullish (obj_get ob ''type'') [] in
      if t = ''RESOURCE_GROUP'' then
        limit_field ''CPU Weight'' ''cpu_weight'' id ob
        @ limit_field ''Exclusive CPU Cores'' ''exclusive_cpu_cores'' id ob
        @ given_field ''Memory Limit'' ''mem_limit'' ob
        @ limit_field ''Concurrency Limit'' ''concurrency_limit'' id ob
        @ limit_field ''Big Query CPU Limit'' ''big_query_cpu_second_limit'' (\<lambda>v. v @ ''s'') ob
        @ limit_field ''Big Query Rows Limit'' ''big_query_scan_rows_limit'' locale_number ob
        @ limit_field ''Big Query Mem Limit'' ''big_query_mem_limit'' id ob
        @ limit_field ''Spill Threshold'' ''spill_mem_limit_threshold'' id ob
      else if t = ''STORAGE_VOLUME'' then
        given_field ''Storage Type'' ''sv_type'' ob @ given_field ''Location'' ''location'' ob
        @ given_field ''Default'' ''is_default'' ob @ given_field ''Enabled'' ''enabled'' ob
      else if t = ''RESOURCE'' then
        given_field ''Resource Type'' ''resource_type'' ob @ given_field ''JDBC URI'' ''jdbc_uri'' ob
        @ given_field ''Spark Master'' ''spark.master'' ob
      else if t = ''WAREHOUSE'' then
        given_field ''State'' ''state'' ob @ given_field ''Node Count'' ''node_count'' ob
        @ given_field ''Running SQL'' ''running_sql'' ob @ given_field ''Queued SQL'' ''queued_sql'' ob
      else if t = ''GLOBAL_FUNCTION'' then
        given_field ''Signature'' ''signature'' ob @ given_field ''Return Type'' ''return_type'' ob
        @ given_field ''Function Type'' ''function_type'' ob
      else if t = ''PIPE'' then
        given_field ''Database'' ''database'' ob @ given_field ''State'' ''state'' ob
        @ given_field ''Target Table'' ''table_name'' ob @ given_field ''Load Status'' ''load_status'' ob
      else if t = ''TASK'' then
        given_field ''State'' ''state'' ob @ given_field ''Database'' ''database'' ob
        @ given_field ''Schedule'' ''schedule'' ob @ creator_field ob @ given_field ''Definition'' ''definition'' ob
      else [])"

section \<open>Resource group classifiers\<close>

record classifiers =
  cr_classifiers :: "string jsobj list"
  cr_isSystemDefault :: bool

definition no_classifiers :: classifiers where
  "no_classifiers = \<lparr>cr_classifiers = [], cr_isSystemDefault = False\<rparr>"

text \<open>\<open>/[^,]+(?:\([^)]*\))?/g\<close>\<close>

definition PART_RE :: re where
  "PART_RE = Seq (plus (\<lambda>c. c \<noteq> CHR '',''))
     (Opt (Seq (lit CHR ''('') (Seq (Star (\<lambda>c. c \<noteq> CHR '')'')) (lit CHR '')''))))"

definition strip_parens :: "string \<Rightarrow> string" where
  "strip_parens c = re_replace (Seq (lit CHR '')'') Eos) [] (re_replace (Seq Bos (lit CHR ''('')) [] c)"

definition rule_part :: "string jsobj \<Rightarrow> string \<Rightarrow> string jsobj" where
  "rule_part result part = (let trimmed = trim part in
     case index_of ''='' trimmed of
       Some (Suc n) \<Rightarrow> obj_set (trim (take (Suc n) trimmed)) (trim (drop (Suc (Suc n)) trimmed)) result
     | _ \<Rightarrow> (case index_of '' in '' trimmed of
         Some (Suc n) \<Rightarrow> obj_set (trim (take (Suc n) trimmed)) (trim (drop (Suc n + 4) trimmed)) result
       | _ \<Rightarrow> result))"

definition parse_rule :: "string \<Rightarrow> string jsobj" where
  "parse_rule c = foldl rule_part [] (re_match_all PART_RE (strip_parens c))"

definition meaningful :: "string jsobj \<Rightarrow> bool" where
  "meaningful clf \<longleftrightarrow> (\<exists>k \<in> set (obj_keys clf). k \<noteq> ''id'' \<and> k \<noteq> ''weight'')"

text \<open>The rules are the strings of a JSON array; anything else is an exception, caught below.\<close>

definition json_strings :: "json \<Rightarrow> string list option" where
  "json_strings j = (case j of
      JArr vs \<Rightarrow> those (map (\<lambda>v. case v of JStr s \<Rightarrow> Some s | _ \<Rightarrow> None) vs)
    | _ \<Rightarrow> None)"

definition parseResourceGroupClassifiers :: "string option \<Rightarrow> classifiers" where
  "parseResourceGroupClassifiers classifiersJson =
     (if \<not> truthy classifiersJson then no_classifiers
      else (case Option.bind (json_parse (the classifiersJson)) json_strings of
          None \<Rightarrow> no_classifiers
        | Some raw \<Rightarrow> (let parsed = map parse_rule raw; useful = filter meaningful parsed
            in \<lparr>cr_classifiers = useful, cr_isSystemDefault = (raw \<noteq> [] \<and> useful = [])\<rparr>)))"

section \<open>The inventory's tables\<close>

datatype sub_tab = TRoles | TUsers | TCatalogs | TDatabases | TTables | TMvs | TViews | TFunctions | TGfunctions
  | TPipes | TTasks | TWarehouses | TRgroups | TSvolumes | TResources

record role_row =
  rr_name :: string
  rr_kind :: string
  rr_source :: string
  rr_grantsCount :: int

text \<open>The tab of a selected item is a text: the one in the address bar is not checked.\<close>

record selected_item =
  si_tab :: string
  si_name :: string
  si_database :: "string option"
  si_catalog :: "string option"
  si_objectType :: "string option"

fun tab_key :: "sub_tab \<Rightarrow> string" where
  "tab_key TRoles = ''roles''"
| "tab_key TUsers = ''users''"
| "tab_key TCatalogs = ''catalogs''"
| "tab_key TDatabases = ''databases''"
| "tab_key TTables = ''tables''"
| "tab_key TMvs = ''mvs''"
| "tab_key TViews = ''views''"
| "tab_key TFunctions = ''functions''"
| "tab_key TGfunctions = ''gfunctions''"
| "tab_key TPipes = ''pipes''"
| "tab_key TTasks = ''tasks''"
| "tab_key TWarehouses = ''warehouses''"
| "tab_key TRgroups = ''rgroups''"
| "tab_key TSvolumes = ''svolumes''"
| "tab_key TResources = ''resources''"

definition SUB_TAB_META :: "(sub_tab \<times> string) list" where
  "SUB_TAB_META = [(TRoles, ''Roles''), (TUsers, ''Users''), (TCatalogs, ''Catalogs''),
     (TDatabases, ''Databases''), (TTables, ''Tables''), (TMvs, ''MVs''), (TViews, ''Views''),
     (TFunctions, ''Functions''), (TGfunctions, ''Global Funcs''), (TPipes, ''Pipes''), (TTasks, ''Tasks''),
     (TWarehouses, ''Warehouses''), (TRgroups, ''Resource Groups''), (TSvolumes, ''Storage Volumes''),
     (TResources, ''Resources'')]"

fun OBJECT_TYPE_MAP :: "sub_tab \<Rightarrow> string" where
  "OBJECT_TYPE_MAP TRoles = ''ROLE''"
| "OBJECT_TYPE_MAP TUsers = ''USER''"
| "OBJECT_TYPE_MAP TCatalogs = ''CATALOG''"
| "OBJECT_TYPE_MAP TDatabases = ''DATABASE''"
| "OBJECT_TYPE_MAP TTables = ''TABLE''"
| "OBJECT_TYPE_MAP TViews = ''VIEW''"
| "OBJECT_TYPE_MAP TMvs = ''MATERIALIZED VIEW''"
| "OBJECT_TYPE_MAP TFunctions = ''FUNCTION''"
| "OBJECT_TYPE_MAP TGfunctions = ''GLOBAL FUNCTION''"
| "OBJECT_TYPE_MAP TPipes = ''PIPE''"
| "OBJECT_TYPE_MAP TTasks = ''TASK''"
| "OBJECT_TYPE_MAP TWarehouses = ''WAREHOUSE''"
| "OBJECT_TYPE_MAP TRgroups = ''RESOURCE GROUP''"
| "OBJECT_TYPE_MAP TSvolumes = ''STORAGE VOLUME''"
| "OBJECT_TYPE_MAP TResources = ''RESOURCE''"

definition PRIV_BY_TYPE :: "string list jsobj" where
  "PRIV_BY_TYPE =
    [(''table'', [''CREATE TABLE'', ''SELECT'', ''INSERT'', ''UPDATE'', ''DELETE'', ''ALTER'', ''DROP'', ''EXPORT'']),
     (''view'', [''CREATE VIEW'', ''SELECT'', ''ALTER'', ''DROP'']),
     (''mv'', [''CREATE MATERIALIZED VIEW'', ''SELECT'', ''ALTER'', ''DROP'', ''REFRESH'']),
     (''function'', [''CREATE FUNCTION'', ''USAGE'', ''DROP'']),
     (''database'', [''USAGE'', ''CREATE TABLE'', ''CREATE VIEW'', ''CREATE FUNCTION'', ''CREATE MATERIALIZED VIEW'',
        ''ALTER'', ''DROP'']),
     (''catalog'', [''USAGE'', ''CREATE DATABASE'', ''ALTER'', ''DROP'']),
     (''system'', [''GRANT'', ''NODE'', ''OPERATE'', ''REPOSITORY'', ''BLACKLIST'', ''FILE'', ''PLUGIN'',
        ''CREATE RESOURCE GROUP'', ''CREATE RESOURCE'', ''CREATE EXTERNAL CATALOG'', ''CREATE STORAGE VOLUME'', ''SECURITY'']),
     (''global function'', [''USAGE'', ''DROP'']),
     (''warehouse'', [''USAGE'', ''ALTER'', ''DROP'']),
     (''resource group'', [''CREATE RESOURCE GROUP'', ''ALTER'', ''DROP'']),
     (''storage volume'', [''USAGE'', ''ALTER'', ''DROP'']),
     (''resource'', [''USAGE'', ''ALTER'', ''DROP'']),
     (''pipe'', [''CREATE PIPE'', ''ALTER'', ''DROP'']),
     (''task'', [''ALTER'', ''DROP''])]"

definition PRIV_KEY_MAP :: "string jsobj" where
  "PRIV_KEY_MAP =
    [(''TABLE'', ''table''), (''VIEW'', ''view''), (''MATERIALIZED VIEW'', ''mv''), (''FUNCTION'', ''function''),
     (''DATABASE'', ''database''), (''CATALOG'', ''catalog''), (''SYSTEM'', ''system''),
     (''GLOBAL FUNCTION'', ''global function''), (''GLOBAL_FUNCTION'', ''global function''),
     (''WAREHOUSE'', ''warehouse''), (''RESOURCE GROUP'', ''resource group''), (''RESOURCE_GROUP'', ''resource group''),
     (''STORAGE VOLUME'', ''storage volume''), (''STORAGE_VOLUME'', ''storage volume''),
     (''RESOURCE'', ''resource''), (''PIPE'', ''pipe''), (''TASK'', ''task'')]"

section \<open>Formatting SQL\<close>

text \<open>\<open>/\n\s*\n/g\<close>\<close>

definition BLANK_LINES_RE :: re where
  "BLANK_LINES_RE = Seq (lit (char_of (10 :: nat))) (Seq (Star is_ws) (lit (char_of (10 :: nat))))"

definition formatSQL :: "(string \<Rightarrow> string option) \<Rightarrow> string \<Rightarrow> string" where
  "formatSQL sql_format sql =
     (case (if starts_with ''{'' (trim sql) then json_parse sql else None) of
        Some j \<Rightarrow> json_pretty [] j
      | None \<Rightarrow> (case sql_format sql of
          Some result \<Rightarrow> re_replace_all BLANK_LINES_RE newline result
        | None \<Rightarrow> sql))"

section \<open>The parts of a rule\<close>

lemma re_at_part:
  assumes "m \<noteq> []" and "CHR '','' \<notin> set m" and "b = [] \<or> hd b = CHR '',''"
  shows "re_at PART_RE i (m @ b) = Some (b, [])"
proof -
  let ?p = "\<lambda>c. c \<noteq> CHR '',''"
  let ?o = "Opt (Seq (lit CHR ''('') (Seq (Star (\<lambda>c. c \<noteq> CHR '')'')) (lit CHR '')'')))"
  let ?k = "\<lambda>st cs. re_match ?o st cs (\<lambda>st cs. Some (st, cs))"
  have opt: "?k (j, b) [] = Some ((j, b), [])" for j
    using assms(3) by (cases b) (auto simp: lit_def)
  obtain c t where m: "m = c # t" using assms(1) by (cases m) auto
  have "re_match (Star ?p) (Suc i, t @ b) [] ?k = ?k (Suc i + length t, b) []"
    by (rule re_match_star_step) (use assms m opt in auto)
  then have "re_match PART_RE (i, m @ b) [] (\<lambda>st cs. Some (st, cs)) = Some ((Suc i + length t, b), [])"
    using assms(2) m opt by (auto simp add: PART_RE_def plus_def simp del: re_match_pair(6))
  then show ?thesis by (simp add: re_at_def)
qed

lemma re_at_comma: "re_at PART_RE i [] = None" "re_at PART_RE i (CHR '','' # s) = None"
  by (simp_all add: re_at_def PART_RE_def plus_def)

lemma search_part: "re_search_from PART_RE i s = (case dropWhile (\<lambda>c. c = CHR '','') s of
    [] \<Rightarrow> None
  | x # s' \<Rightarrow> Some (takeWhile (\<lambda>c. c = CHR '','') s, takeWhile (\<lambda>c. c \<noteq> CHR '','') (x # s'),
      dropWhile (\<lambda>c. c \<noteq> CHR '','') (x # s'), []))"
proof (induction s arbitrary: i)
  case Nil
  then show ?case by (simp add: re_at_comma)
next
  case (Cons c s)
  show ?case
  proof (cases "c = CHR '',''")
    case True
    then show ?thesis using Cons.IH [of "Suc i"]
      by (simp add: re_at_comma del: dropWhile_eq_Nil_conv split: list.split)
  next
    case False
    let ?m = "takeWhile (\<lambda>c. c \<noteq> CHR '','') (c # s)" and ?b = "dropWhile (\<lambda>c. c \<noteq> CHR '','') (c # s)"
    have split: "c # s = ?m @ ?b" by simp
    have b: "?b = [] \<or> hd ?b = CHR '',''"
      using hd_dropWhile [of "\<lambda>c. c \<noteq> CHR '',''" "c # s"] by blast
    have "re_at PART_RE i (?m @ ?b) = Some (?b, [])"
      by (rule re_at_part [OF _ _ b]) (use False in \<open>auto dest: set_takeWhileD\<close>)
    then have "re_at PART_RE i (c # s) = Some (?b, [])" by (simp only: takeWhile_dropWhile_id)
    moreover have "take (length (?m @ ?b) - length ?b) (?m @ ?b) = ?m" by simp
    then have "take (length (c # s) - length ?b) (c # s) = ?m" by (simp only: takeWhile_dropWhile_id)
    ultimately have "re_search_from PART_RE i (c # s) = Some ([], ?m, ?b, [])" by simp
    with False show ?thesis by simp
  qed
qed

lemma split_on_first: "split_on d s = takeWhile (\<lambda>c. c \<noteq> d) s
    # (case dropWhile (\<lambda>c. c \<noteq> d) s of [] \<Rightarrow> [] | _ # t \<Rightarrow> split_on d t)"
  by (induction s) (auto split: list.splits)

definition pieces :: "char \<Rightarrow> string \<Rightarrow> string list" where
  "pieces d s = filter (\<lambda>w. w \<noteq> []) (split_on d s)"

lemma pieces_skip: "pieces d (d # s) = pieces d s"
  by (simp add: pieces_def)

lemma pieces_step: "pieces d s = (case dropWhile (\<lambda>c. c = d) s of [] \<Rightarrow> []
    | x # s' \<Rightarrow> takeWhile (\<lambda>c. c \<noteq> d) (x # s') # pieces d (dropWhile (\<lambda>c. c \<noteq> d) (x # s')))"
proof (induction s)
  case Nil
  then show ?case by (simp add: pieces_def)
next
  case (Cons c s)
  show ?case
  proof (cases "c = d")
    case True
    then show ?thesis using Cons.IH by (simp add: pieces_skip)
  next
    case False
    have "pieces d (c # s) = takeWhile (\<lambda>c. c \<noteq> d) (c # s)
        # filter (\<lambda>w. w \<noteq> []) (case dropWhile (\<lambda>c. c \<noteq> d) s of [] \<Rightarrow> [] | _ # t \<Rightarrow> split_on d t)"
      using False by (simp add: pieces_def split_on_first [of d "c # s"] del: split_on.simps)
    moreover have "filter (\<lambda>w. w \<noteq> []) (case dropWhile (\<lambda>c. c \<noteq> d) s of [] \<Rightarrow> [] | _ # t \<Rightarrow> split_on d t)
        = pieces d (dropWhile (\<lambda>c. c \<noteq> d) s)"
    proof (cases "dropWhile (\<lambda>c. c \<noteq> d) s")
      case (Cons x t)
      then have "x = d" using dropWhile_hd [OF Cons] by simp
      with Cons show ?thesis by (simp add: pieces_skip) (simp add: pieces_def)
    qed (simp add: pieces_def del: dropWhile_eq_Nil_conv)
    ultimately show ?thesis using False by simp
  qed
qed

lemma re_all_parts: "length s < n \<Longrightarrow> map snd (fst (re_all n PART_RE i s)) = pieces CHR '','' s"
proof (induction n arbitrary: i s)
  case (Suc n)
  show ?case
  proof (cases "dropWhile (\<lambda>c. c = CHR '','') s")
    case Nil
    then show ?thesis by (simp add: search_part pieces_step [of _ s] del: dropWhile_eq_Nil_conv)
  next
    case (Cons x s')
    let ?m = "takeWhile (\<lambda>c. c \<noteq> CHR '','') (x # s')" and ?b = "dropWhile (\<lambda>c. c \<noteq> CHR '','') (x # s')"
    have x: "x \<noteq> CHR '',''" using dropWhile_hd [OF Cons] by simp
    then have m: "?m \<noteq> []" by simp
    have "length ?b \<le> length s'" using x by (simp add: length_dropWhile_le)
    moreover have "length (x # s') \<le> length s" using length_dropWhile_le [of "\<lambda>c. c = CHR '',''" s] unfolding Cons .
    ultimately have "length ?b < n" using Suc.prems by simp
    then have IH: "map snd (fst (re_all n PART_RE j ?b)) = pieces CHR '','' ?b" for j by (rule Suc.IH)
    have "re_search_from PART_RE i s = Some (takeWhile (\<lambda>c. c = CHR '','') s, ?m, ?b, [])"
      using Cons by (simp add: search_part)
    moreover obtain ms e where "re_all n PART_RE (i + length (takeWhile (\<lambda>c. c = CHR '','') s) + length ?m) ?b = (ms, e)"
      by fastforce
    moreover have "map snd ms = pieces CHR '','' ?b"
      using IH [of "i + length (takeWhile (\<lambda>c. c = CHR '','') s) + length ?m"] unfolding calculation(2) fst_conv .
    ultimately have "map snd (fst (re_all (Suc n) PART_RE i s)) = ?m # pieces CHR '','' ?b"
      using m by simp
    then show ?thesis unfolding pieces_step [of _ s] Cons by simp
  qed
qed simp

section \<open>Properties\<close>

text \<open>
  C39. The parts of a classifier rule are its non-empty pieces between commas: the group of the pattern for
  a parenthesis never takes part in a match, because the class before it runs up to the next comma.
\<close>

theorem parts_are_pieces:
  "re_match_all PART_RE s = filter (\<lambda>w. w \<noteq> []) (split_on CHR '','' s)"
  using re_all_parts [of s "Suc (length s)" 0] by (simp only: re_match_all_def pieces_def)

text \<open>So a list of query types is cut at its comma.\<close>

lemma query_types_cut:
  "parse_rule ''(id=1, query_type in (SELECT, INSERT))'' = [(''id'', ''1''), (''query_type'', ''(SELECT'')]"
  by code_simp

text \<open>
  The classifiers of a resource group: every rule that is kept says something besides its id and its
  weight, every rule of the source that does is kept in order, the group is a system default exactly when
  the source has rules and none is kept, and a source that is no JSON array of strings gives no rules.
\<close>

theorem classifiers_kept:
  "case parseResourceGroupClassifiers src of r \<Rightarrow>
     list_all meaningful (cr_classifiers r)
     \<and> (if cr_isSystemDefault r then cr_classifiers r = [] else True)
     \<and> (case src of None \<Rightarrow> r = no_classifiers
         | Some s \<Rightarrow> (case Option.bind (json_parse s) json_strings of
              None \<Rightarrow> r = no_classifiers
            | Some raw \<Rightarrow> if s = [] then r = no_classifiers
                else filter meaningful (map parse_rule raw) = cr_classifiers r
                  \<and> (cr_isSystemDefault r \<longleftrightarrow> raw \<noteq> [] \<and> cr_classifiers r = [])))"
  by (auto simp: parseResourceGroupClassifiers_def no_classifiers_def Let_def list_all_iff split: option.splits)

text \<open>The labels of optional rows.\<close>

definition only :: "bool \<Rightarrow> 'a \<Rightarrow> 'a set" where
  "only c l = (if c then {l} else {})"

lemma field_labels:
  "fst ` set (given_field l k ob) = only (truthy (obj_get ob k)) l" "distinct (map fst (given_field l k ob))"
  "fst ` set (limit_field l k f ob) = only (limit_set k ob) l" "distinct (map fst (limit_field l k f ob))"
  "fst ` set (creator_field ob) = only (truthy (obj_get ob ''creator'')) ''Creator''" "distinct (map fst (creator_field ob))"
  "x \<in> only c l' \<longleftrightarrow> c \<and> x = l'" "only c l' \<inter> S = {} \<longleftrightarrow> \<not> c \<or> l' \<notin> S"
  by (auto simp: given_field_def limit_field_def creator_field_def show_if_def Let_def only_def)

text \<open>
  The details of a system object: the name and the type come first, no label appears twice, and every
  other row has a value that is not empty, provided the locale writes a number as a non-empty text.
\<close>

theorem fields_meaningful:
  assumes "\<And>v. locale_number v \<noteq> []"
  shows "map fst (take 2 (buildSysObjectFields locale_number ob)) = [''Name'', ''Type'']
    \<and> distinct (map fst (buildSysObjectFields locale_number ob))
    \<and> list_all (\<lambda>f. truthy (snd f)) (drop 2 (buildSysObjectFields locale_number ob))"
proof -
  have given: "list_all (\<lambda>f. truthy (snd f)) (given_field l k ob)" for l k
    by (simp add: given_field_def show_if_def)
  have limit: "list_all (\<lambda>f. truthy (snd f)) (limit_field l k f ob)" if "\<And>v. v \<noteq> [] \<Longrightarrow> f v \<noteq> []" for l k f
    using that by (auto simp: limit_field_def limit_set_def show_if_def truthy_iff)
  have creator: "list_all (\<lambda>f. truthy (snd f)) (creator_field ob)"
    by (simp add: creator_field_def Let_def)
  have "list_all (\<lambda>f. truthy (snd f)) (drop 2 (buildSysObjectFields locale_number ob))"
    using assms by (simp add: buildSysObjectFields_def Let_def given limit creator)
  moreover have "distinct (map fst (buildSysObjectFields locale_number ob))"
    by (simp add: buildSysObjectFields_def Let_def field_labels image_Un Collect_disj_eq)
  ultimately show ?thesis by (simp add: buildSysObjectFields_def)
qed

lemma fields_meaningful_witness:
  "list_all (\<lambda>f. truthy (snd f)) (drop 2 (buildSysObjectFields (\<lambda>v. v @ '' rows'')
     [(''name'', ''rg''), (''type'', ''RESOURCE_GROUP''), (''cpu_weight'', ''0''), (''big_query_scan_rows_limit'', ''7'')]))"
  using fields_meaningful [of "\<lambda>v. v @ '' rows''"
      "[(''name'', ''rg''), (''type'', ''RESOURCE_GROUP''), (''cpu_weight'', ''0''), (''big_query_scan_rows_limit'', ''7'')]"]
  by simp

definition privileges_of_type :: "string \<Rightarrow> string list option" where
  "privileges_of_type t = Option.bind (obj_get PRIV_KEY_MAP t) (obj_get PRIV_BY_TYPE)"

text \<open>
  The tables of the inventory are total and consistent: every tab is offered exactly once, and every
  tab but those of roles and users has an object type with a list of privileges, none of them twice; the
  types spelled with an underscore have the same list as those with a space.
\<close>

lemma inventory_tables_total:
  "distinct (map fst SUB_TAB_META)
   \<and> t \<in> set (map fst SUB_TAB_META)
   \<and> (case privileges_of_type (OBJECT_TYPE_MAP t) of
        None \<Rightarrow> t = TRoles \<or> t = TUsers
      | Some ps \<Rightarrow> ps \<noteq> [] \<and> distinct ps
          \<and> (if obj_get PRIV_KEY_MAP (map (\<lambda>c. if c = CHR '' '' then CHR ''_'' else c) (OBJECT_TYPE_MAP t)) = None
             then t = TMvs
             else privileges_of_type (map (\<lambda>c. if c = CHR '' '' then CHR ''_'' else c) (OBJECT_TYPE_MAP t)) = Some ps))"
  by (induction t; code_simp)

end
