(* ===== verification/Inventory_Ui.thy ===== *)
theory Inventory_Ui
  imports Inventory_Utils Grant_Helpers
begin

text \<open>
  \<open>components/tabs/inventory-ui.tsx\<close> and the small elements of \<open>components/cluster/NodeCards.tsx\<close>
  that the panels share, for any type of events.
\<close>

section \<open>Symbols\<close>

definition up_mark :: string where "up_mark = utf8 9650"
definition down_mark :: string where "down_mark = utf8 9660"
definition middle_dot :: string where "middle_dot = utf8 183"
definition approx_sign :: string where "approx_sign = utf8 8776"
definition ellipsis :: string where "ellipsis = utf8 8230"

text \<open>The colours of \<open>utils/colors.ts\<close>.\<close>

definition palette :: "string \<Rightarrow> string" where
  "palette k = nullish (obj_get C_palette k) []"

definition InlineIcon :: "string \<Rightarrow> 'e node" where
  "InlineIcon t = El ''svg'' [(''data-icon'', t)] [] []"

definition click_text :: "'e \<Rightarrow> string \<Rightarrow> 'e node" where
  "click_text e label = El ''button'' [] [e] [Txt label]"

definition tip :: "string option \<Rightarrow> string jsobj" where
  "tip t = (case t of None \<Rightarrow> [] | Some x \<Rightarrow> [(''title'', x)])"

section \<open>inventory-ui.tsx\<close>

definition SearchInput :: "string \<Rightarrow> (string \<Rightarrow> 'e) \<Rightarrow> 'e node" where
  "SearchInput v onChange = box (Field ''Filter by name...'' v False onChange []
     # show_if (v \<noteq> []) [click_text (onChange []) times_sign])"

definition Chip :: "string \<Rightarrow> bool \<Rightarrow> 'e \<Rightarrow> 'e node" where
  "Chip label active onClick = El ''button'' (show_if active [(''data-active'', ''true'')]) [onClick] [Txt label]"

definition Badge :: "string \<Rightarrow> string \<Rightarrow> 'e node" where
  "Badge t color = El ''span'' [(''color'', color)] [] [Txt t]"

definition SectionLabel :: "'e node list \<Rightarrow> 'e node" where
  "SectionLabel ns = box ns"

definition Loader :: "'e node" where
  "Loader = box [Txt ''Loading...'']"

definition TH :: "string \<Rightarrow> 'e node" where
  "TH label = El ''th'' [] [] [Txt label]"

definition SortTH :: "string \<Rightarrow> bool \<Rightarrow> 'e \<Rightarrow> 'e node" where
  "SortTH label ascending onToggle =
     El ''th'' [] [onToggle] [Txt label, Txt (if ascending then up_mark else down_mark)]"

definition TD :: "'e node list \<Rightarrow> 'e node" where
  "TD ns = El ''td'' [] [] ns"

text \<open>
  \<open>/^__CREATOR__(.+)__(system|user)$/\<close>, where the dot leaves out line terminators, and
  \<open>/^(SELECT |INSERT |CREATE |GRANT |\{)/i\<close>.
\<close>

definition not_newline :: "char \<Rightarrow> bool" where
  "not_newline c \<longleftrightarrow> of_char c \<notin> {10, 13 :: nat}"

definition CREATOR_VALUE_RE :: re where
  "CREATOR_VALUE_RE = re_seq [Bos, lits ''__CREATOR__'', Cap 1 (plus not_newline), lits ''__'',
     Cap 2 (Alt (lits ''system'') (lits ''user'')), Eos]"

definition lits_i :: "string \<Rightarrow> re" where
  "lits_i s = re_seq (map (\<lambda>c. Cls (\<lambda>d. ch_lower d = ch_lower c)) s)"

definition CODE_RE :: re where
  "CODE_RE = Seq Bos (Alt (lits_i ''SELECT '') (Alt (lits_i ''INSERT '') (Alt (lits_i ''CREATE '')
     (Alt (lits_i ''GRANT '') (lits ''{'')))))"

definition MetaItem :: "(string \<Rightarrow> string option) \<Rightarrow> string \<Rightarrow> string \<Rightarrow> 'e node list" where
  "MetaItem sqlFormat label v = (case re_search CREATOR_VALUE_RE v of
      Some (_, _, _, cs) \<Rightarrow> (let kind = capture 2 cs in
        [Txt label, box [InlineIcon (if kind = ''system'' then ''system'' else ''user''), Txt (capture 1 cs), Txt kind]])
    | None \<Rightarrow> (if re_test CODE_RE (trim v)
        then [Txt label, El ''pre'' [] [] [Txt (formatSQL sqlFormat v)]]
        else [Txt label, Txt v]))"

section \<open>NodeCards.tsx: shared rows\<close>

definition Detail :: "string \<Rightarrow> string \<Rightarrow> 'e node" where
  "Detail label v = box [box [Txt label], box [Txt v]]"

definition SectionHeader :: "string \<Rightarrow> nat \<Rightarrow> 'e node" where
  "SectionHeader title n = box [Txt title, Txt (''('' @ nat_str n @ '')'')]"

section \<open>Lemmas\<close>

lemma can_send_atoms [simp]:
  "\<not> can_send (InlineIcon t) e" "\<not> can_send (Badge t c) e" "\<not> can_send Loader e" "\<not> can_send (TH l) e"
  "\<not> can_send (Detail l v) e" "\<not> can_send (SectionHeader l n) e"
  "can_send (click_text e' l) e \<longleftrightarrow> e = e'" "can_send (SortTH l b e') e \<longleftrightarrow> e = e'"
  "can_send (TD ns) e \<longleftrightarrow> (\<exists>n \<in> set ns. can_send n e)"
  "can_send (SectionLabel ns) e \<longleftrightarrow> (\<exists>n \<in> set ns. can_send n e)"
  "can_send (Chip l b e') e \<longleftrightarrow> e = e'"
  "can_send (SearchInput v f) e \<longleftrightarrow> (\<exists>t. e = f t)"
  by (auto simp: InlineIcon_def Badge_def Loader_def TH_def Detail_def SectionHeader_def click_text_def
      SortTH_def TD_def SectionLabel_def Chip_def SearchInput_def show_if_def obj_get_Cons)

lemma offered_atoms [simp]:
  "offered (InlineIcon t) = []" "offered (Badge t c) = []" "offered Loader = []" "offered (TH l) = []"
  "offered (Detail l v) = []" "offered (SectionHeader l n) = []" "offered (click_text e l) = [e]"
  "offered (SortTH l b e) = [e]" "offered (TD ns) = concat (map offered ns)"
  "offered (SectionLabel ns) = concat (map offered ns)" "offered (Chip l b e) = [e]"
  by (simp_all add: InlineIcon_def Badge_def Loader_def TH_def Detail_def SectionHeader_def click_text_def
      SortTH_def TD_def SectionLabel_def Chip_def show_if_def obj_get_Cons)

lemma tip_enabled [simp]: "obj_get (tip t) ''disabled'' = None"
  by (simp add: tip_def obj_get_Cons split: option.split)

end
