(* ===== verification/Query_Hooks.thy ===== *)
theory Query_Hooks
  imports Async_Hooks Query_Utils Session
begin

text \<open>
  \<open>components/cluster/useRunningQueries.ts\<close> and \<open>useQueryHistory.ts\<close>: the two polling hooks of
  the query panel. A hook aborts its last request before it starts another, so of the requests in
  flight at most the last is alive; an aborted request changes nothing when it settles. The text of
  an exception that is not the client's is the browser's and so a parameter.
\<close>

section \<open>At most one live request\<close>

definition start_only :: "'k \<Rightarrow> 'k async_request list \<Rightarrow> 'k async_request list" where
  "start_only k rs = kill_requests rs @ [\<lparr>ar_deps = k, ar_alive = True\<rparr>]"

definition remove_request :: "nat \<Rightarrow> 'k async_request list \<Rightarrow> 'k async_request list" where
  "remove_request i rs = take i rs @ drop (Suc i) rs"

definition live :: "'k async_request list \<Rightarrow> 'k list" where
  "live rs = map ar_deps (filter ar_alive rs)"

lemma live_simps [simp]: "live [] = []" "live (kill_requests rs) = []" "live (start_only k rs) = [k]"
  by (simp_all add: live_def start_only_def)

lemma live_remove_dead:
  assumes "i < length rs" and "\<not> ar_alive (rs ! i)"
  shows "live (remove_request i rs) = live rs"
proof -
  obtain a b where "rs = a @ rs ! i # b" "remove_request i rs = a @ b"
    using split_at_nth [OF assms(1)] unfolding remove_request_def by blast
  then show ?thesis using assms(2) unfolding live_def
    by (metis filter.simps(2) filter_append)
qed

lemma live_remove_alive:
  assumes "i < length rs" and "ar_alive (rs ! i)" and "length (live rs) \<le> 1"
  shows "live (remove_request i rs) = []" and "live rs = [ar_deps (rs ! i)]"
proof -
  obtain a b where rs: "rs = a @ rs ! i # b" "remove_request i rs = a @ b"
    using split_at_nth [OF assms(1)] unfolding remove_request_def by blast
  then have "live rs = map ar_deps (filter ar_alive a) @ ar_deps (rs ! i) # map ar_deps (filter ar_alive b)"
    using assms(2) unfolding live_def
    by (metis filter.simps(2) filter_append list.simps(9) map_append)
  moreover from this have "filter ar_alive a = []" "filter ar_alive b = []" using assms(3) by auto
  ultimately show "live (remove_request i rs) = []" "live rs = [ar_deps (rs ! i)]"
    using rs(2) by (simp_all add: live_def)
qed

section \<open>Running queries\<close>

record fetch_error =
  qe_status :: "nat option"
  qe_message :: string

fun fetch_error_of :: "(api_error \<Rightarrow> string) \<Rightarrow> api_error \<Rightarrow> fetch_error" where
  "fetch_error_of host_msg (ApiError m n) = \<lparr>qe_status = Some n, qe_message = m\<rparr>"
| "fetch_error_of host_msg e = \<lparr>qe_status = None, qe_message = host_msg e\<rparr>"

record running_state =
  rn_running :: "queries_response option"
  rn_error :: "fetch_error option"
  rn_loading :: bool
  rn_instCores :: "rat jsobj"
  rn_lastUpdated :: "int option"
  rn_denied :: bool
  rn_samples :: sample_map
  rn_requests :: "bool async_request list"
  rn_active :: bool
  rn_interval :: int

definition running_refresh :: "bool \<Rightarrow> running_state \<Rightarrow> running_state" where
  "running_refresh refresh s = s\<lparr>rn_requests := start_only refresh (rn_requests s)\<rparr>"

definition running_success :: "queries_response \<Rightarrow> int \<Rightarrow> running_state \<Rightarrow> running_state" where
  "running_success res nowMs s = (case deriveInstCores (rn_samples s) res nowMs of (nextSamples, nextInst) \<Rightarrow>
     s\<lparr>rn_denied := False, rn_samples := nextSamples, rn_instCores := nextInst, rn_running := Some res,
       rn_error := None, rn_loading := False, rn_lastUpdated := Some nowMs\<rparr>)"

definition running_failure :: "(api_error \<Rightarrow> string) \<Rightarrow> api_error \<Rightarrow> running_state \<Rightarrow> running_state" where
  "running_failure host_msg err s = (let e = fetch_error_of host_msg err in
     s\<lparr>rn_denied := (if qe_status e = Some 403 then True else rn_denied s), rn_error := Some e, rn_loading := False\<rparr>)"

text \<open>The effect of a change of the options: the cleanup of an active effect aborts, an active one fetches.\<close>

definition running_effect :: "bool \<Rightarrow> int \<Rightarrow> running_state \<Rightarrow> running_state" where
  "running_effect active interval s =
     (let s1 = (if rn_active s then s\<lparr>rn_requests := kill_requests (rn_requests s)\<rparr> else s);
          s2 = s1\<lparr>rn_active := active, rn_interval := interval\<rparr>
      in if active then running_refresh False s2 else s2)"

definition running_mount :: "bool \<Rightarrow> int \<Rightarrow> running_state" where
  "running_mount active interval = running_effect active interval
     \<lparr>rn_running = None, rn_error = None, rn_loading = True, rn_instCores = [], rn_lastUpdated = None,
      rn_denied = False, rn_samples = [], rn_requests = [], rn_active = False, rn_interval = interval\<rparr>"

datatype running_event =
    RunRender bool int
  | RunTick bool
  | RunRefresh bool
  | RunReply nat "api_error + queries_response" int

text \<open>
  A tick comes from the timer of \<open>usePolling\<close>, which runs while the hook is active with a positive
  interval. A request that was not aborted does not settle with an \<open>AbortError\<close>.
\<close>

fun running_step :: "(api_error \<Rightarrow> string) \<Rightarrow> running_state \<Rightarrow> running_event \<Rightarrow> running_state" where
  "running_step host_msg s (RunRender active interval) =
     (if active = rn_active s \<and> interval = rn_interval s then s else running_effect active interval s)"
| "running_step host_msg s (RunTick hidden) =
     (if polling_tick hidden (fst (polling_effect (rn_active s) False (rn_interval s))) \<and> \<not> rn_denied s
      then running_refresh False s else s)"
| "running_step host_msg s (RunRefresh refresh) = running_refresh refresh s"
| "running_step host_msg s (RunReply i res nowMs) =
     (if i < length (rn_requests s) then
        (let s' = s\<lparr>rn_requests := remove_request i (rn_requests s)\<rparr> in
         if ar_alive (rn_requests s ! i) then
           (case res of Inr r \<Rightarrow> running_success r nowMs s'
            | Inl e \<Rightarrow> if e = AbortError then s else running_failure host_msg e s')
         else s')
      else s)"

definition running_ok :: "running_state \<Rightarrow> bool" where
  "running_ok s \<longleftrightarrow> length (live (rn_requests s)) \<le> 1
     \<and> (rn_active s \<and> rn_loading s \<longrightarrow> live (rn_requests s) \<noteq> [])
     \<and> (rn_denied s \<longrightarrow> rn_error s \<noteq> None)
     \<and> (rn_error s = None \<and> \<not> rn_loading s \<longrightarrow> rn_running s \<noteq> None)"

lemma success_simps [simp]:
  "rn_requests (running_success r t s) = rn_requests s" "\<not> rn_loading (running_success r t s)"
  "\<not> rn_denied (running_success r t s)" "rn_error (running_success r t s) = None"
  "rn_running (running_success r t s) = Some r"
  by (simp_all add: running_success_def split: prod.splits)

lemma failure_simps [simp]:
  "rn_requests (running_failure h e s) = rn_requests s" "\<not> rn_loading (running_failure h e s)"
  "rn_error (running_failure h e s) = Some (fetch_error_of h e)" "rn_running (running_failure h e s) = rn_running s"
  by (simp_all add: running_failure_def Let_def)

lemma running_ok_effect: "running_ok s \<Longrightarrow> running_ok (running_effect active interval s)"
  by (auto simp: running_ok_def running_effect_def running_refresh_def Let_def)

lemma running_ok_step: "running_ok s \<Longrightarrow> running_ok (running_step host_msg s e)"
proof (cases e)
  case (RunReply i res nowMs)
  assume ok: "running_ok s"
  show ?thesis
  proof (cases "i < length (rn_requests s)")
    case True
    show ?thesis
    proof (cases "ar_alive (rn_requests s ! i)")
      case alive: True
      have "live (remove_request i (rn_requests s)) = []"
        by (rule live_remove_alive(1)) (use ok True alive in \<open>auto simp: running_ok_def\<close>)
      then show ?thesis using ok True alive RunReply
        by (auto simp: running_ok_def Let_def split: sum.splits)
    next
      case False
      have "live (remove_request i (rn_requests s)) = live (rn_requests s)"
        by (rule live_remove_dead [OF True False])
      then show ?thesis using ok True False RunReply by (simp add: running_ok_def Let_def)
    qed
  qed (use ok RunReply in simp)
next
  case (RunRender active interval)
  then show "running_ok s \<Longrightarrow> ?thesis" by (simp add: running_ok_effect)
qed (auto simp: running_ok_def running_refresh_def)

lemma running_ok_mount: "running_ok (running_mount active interval)"
  unfolding running_mount_def by (rule running_ok_effect) (simp add: running_ok_def)

interpretation running: machine "running_mount active interval" "running_step host_msg" running_ok
  for active interval host_msg
  by unfold_locales (simp_all add: running_ok_mount running_ok_step)

section \<open>Query history\<close>

definition HISTORY_LIMIT :: nat where "HISTORY_LIMIT = 100"

record history_state =
  hi_history :: "history_response option"
  hi_error :: "fetch_error option"
  hi_loading :: bool
  hi_lastUpdated :: "int option"
  hi_requests :: "bool async_request list"
  hi_active :: bool
  hi_errorsOnly :: bool
  hi_interval :: int

definition fetchHistory :: "bool \<Rightarrow> history_state \<Rightarrow> history_state" where
  "fetchHistory errOnly s = s\<lparr>hi_requests := start_only errOnly (hi_requests s), hi_loading := True\<rparr>"

definition history_success :: "history_response \<Rightarrow> int \<Rightarrow> history_state \<Rightarrow> history_state" where
  "history_success res nowMs s =
     s\<lparr>hi_history := Some res, hi_error := None, hi_loading := False, hi_lastUpdated := Some nowMs\<rparr>"

definition history_failure :: "(api_error \<Rightarrow> string) \<Rightarrow> api_error \<Rightarrow> history_state \<Rightarrow> history_state" where
  "history_failure host_msg err s = s\<lparr>hi_error := Some (fetch_error_of host_msg err), hi_loading := False\<rparr>"

definition history_effect :: "bool \<Rightarrow> int \<Rightarrow> bool \<Rightarrow> history_state \<Rightarrow> history_state" where
  "history_effect active interval errorsOnly s =
     (let s1 = (if hi_active s then s\<lparr>hi_requests := kill_requests (hi_requests s)\<rparr> else s);
          s2 = s1\<lparr>hi_active := active, hi_errorsOnly := errorsOnly, hi_interval := interval\<rparr>
      in if active then fetchHistory errorsOnly s2 else s2)"

definition history_mount :: "bool \<Rightarrow> int \<Rightarrow> bool \<Rightarrow> history_state" where
  "history_mount active interval errorsOnly = history_effect active interval errorsOnly
     \<lparr>hi_history = None, hi_error = None, hi_loading = False, hi_lastUpdated = None, hi_requests = [],
      hi_active = False, hi_errorsOnly = errorsOnly, hi_interval = interval\<rparr>"

datatype 'v history_event =
    HistRender bool int bool
  | HistTick bool
  | HistRefresh
  | HistReply nat 'v int

text \<open>What the server answers is a parameter that may change from answer to answer.\<close>

fun history_step ::
  "('v \<Rightarrow> bool \<Rightarrow> api_error + history_response) \<Rightarrow> (api_error \<Rightarrow> string) \<Rightarrow> history_state \<Rightarrow> 'v history_event \<Rightarrow> history_state" where
  "history_step server host_msg s (HistRender active interval errorsOnly) =
     (if active = hi_active s \<and> interval = hi_interval s \<and> errorsOnly = hi_errorsOnly s then s
      else history_effect active interval errorsOnly s)"
| "history_step server host_msg s (HistTick hidden) =
     (if polling_tick hidden (fst (polling_effect (hi_active s) False (hi_interval s)))
      then fetchHistory (hi_errorsOnly s) s else s)"
| "history_step server host_msg s HistRefresh = fetchHistory (hi_errorsOnly s) s"
| "history_step server host_msg s (HistReply i v nowMs) =
     (if i < length (hi_requests s) then
        (let s' = s\<lparr>hi_requests := remove_request i (hi_requests s)\<rparr>; r = hi_requests s ! i in
         if ar_alive r then
           (case server v (ar_deps r) of Inr h \<Rightarrow> history_success h nowMs s'
            | Inl e \<Rightarrow> if e = AbortError then s else history_failure host_msg e s')
         else s')
      else s)"

text \<open>
  While the tab is open, a live request asks for the current filter, and a history that is shown without
  a spinner or an error is an answer for the current filter.
\<close>

definition history_ok :: "('v \<Rightarrow> bool \<Rightarrow> api_error + history_response) \<Rightarrow> history_state \<Rightarrow> bool" where
  "history_ok server s \<longleftrightarrow> length (live (hi_requests s)) \<le> 1
     \<and> (hi_active s \<longrightarrow> (\<forall>k \<in> set (live (hi_requests s)). k = hi_errorsOnly s))
     \<and> (hi_active s \<and> hi_loading s \<longrightarrow> live (hi_requests s) \<noteq> [])
     \<and> (hi_active s \<and> \<not> hi_loading s \<and> hi_error s = None
        \<longrightarrow> (\<exists>v h. server v (hi_errorsOnly s) = Inr h \<and> hi_history s = Some h))"

lemma history_ok_effect: "history_ok server s \<Longrightarrow> history_ok server (history_effect active interval errorsOnly s)"
  by (auto simp: history_ok_def history_effect_def fetchHistory_def Let_def)

lemma history_ok_step: "history_ok server s \<Longrightarrow> history_ok server (history_step server host_msg s e)"
proof (cases e)
  case (HistReply i v nowMs)
  assume ok: "history_ok server s"
  show ?thesis
  proof (cases "i < length (hi_requests s)")
    case True
    show ?thesis
    proof (cases "ar_alive (hi_requests s ! i)")
      case alive: True
      have one: "length (live (hi_requests s)) \<le> 1" using ok by (simp add: history_ok_def)
      have none: "live (remove_request i (hi_requests s)) = []"
        by (rule live_remove_alive(1) [OF True alive one])
      have deps: "hi_active s \<Longrightarrow> ar_deps (hi_requests s ! i) = hi_errorsOnly s"
        using ok live_remove_alive(2) [OF True alive one] by (simp add: history_ok_def)
      show ?thesis
      proof (cases "server v (ar_deps (hi_requests s ! i))")
        case (Inl err)
        then show ?thesis using ok True alive none HistReply
          by (simp add: history_ok_def history_failure_def Let_def)
      next
        case (Inr h)
        then show ?thesis using True alive none deps HistReply
          by (auto simp: history_ok_def history_success_def Let_def)
      qed
    next
      case False
      have "live (remove_request i (hi_requests s)) = live (hi_requests s)"
        by (rule live_remove_dead [OF True False])
      then show ?thesis using ok True False HistReply by (simp add: history_ok_def Let_def)
    qed
  qed (use ok HistReply in simp)
next
  case (HistRender active interval errorsOnly)
  then show "history_ok server s \<Longrightarrow> ?thesis" by (simp add: history_ok_effect)
qed (auto simp: history_ok_def fetchHistory_def)

lemma history_ok_mount: "history_ok server (history_mount active interval errorsOnly)"
  unfolding history_mount_def by (rule history_ok_effect) (simp add: history_ok_def)

interpretation history: machine "history_mount active interval errorsOnly" "history_step server host_msg" "history_ok server"
  for active interval errorsOnly server host_msg
  by unfold_locales (simp_all add: history_ok_mount history_ok_step)

section \<open>Properties\<close>

text \<open>
  C35. The running queries: in every interleaving of renders, ticks, manual refreshes and replies at most one
  request is live; once the server has denied access no tick sends a request until an answer succeeds, and
  the error stays visible meanwhile.
\<close>

theorem running_polling_safe:
  "case foldl (running_step host_msg) (running_mount active interval) es of s \<Rightarrow>
     length (live (rn_requests s)) \<le> 1
     \<and> (if rn_denied s then running_step host_msg s (RunTick hidden) = s \<and> rn_error s \<noteq> None else True)
     \<and> (if rn_loading s then True else case (rn_running s, rn_error s) of (None, None) \<Rightarrow> False | _ \<Rightarrow> True)"
  using running.inv_run [of host_msg active interval es] by (auto simp: running_ok_def split: option.splits)

lemma live_index: "live rs \<noteq> [] \<Longrightarrow> \<exists>i < length rs. ar_alive (rs ! i)"
  by (auto simp: live_def filter_empty_conv in_set_conv_nth)

lemma reply_ends_loading:
  assumes "i < length (rn_requests s)" and "ar_alive (rn_requests s ! i)"
  shows "\<not> rn_loading (running_step host_msg s (RunReply i (Inr res) t))"
    and "err \<noteq> AbortError \<Longrightarrow> \<not> rn_loading (running_step host_msg s (RunReply i (Inl err) t))"
  using assms by (simp_all add: Let_def)

text \<open>
  C36. No spinner is stuck: whenever the open tab of running queries is loading, some request in flight is
  live, and whichever way it is answered, the hook stops loading.
\<close>

theorem running_spinner_ends:
  "case foldl (running_step host_msg) (running_mount active interval) es of s \<Rightarrow>
     (if rn_active s \<and> rn_loading s
      then (\<exists>i < length (rn_requests s). ar_alive (rn_requests s ! i)
        \<and> \<not> rn_loading (running_step host_msg s (RunReply i (Inr res) t))
        \<and> (if err = AbortError then True else \<not> rn_loading (running_step host_msg s (RunReply i (Inl err) t))))
      else True)"
proof -
  define s where "s = foldl (running_step host_msg) (running_mount active interval) es"
  have "running_ok s" unfolding s_def by (rule running.inv_run)
  then have "\<exists>i < length (rn_requests s). ar_alive (rn_requests s ! i)" if "rn_active s \<and> rn_loading s"
    using that by (intro live_index) (simp add: running_ok_def)
  then show ?thesis unfolding s_def [symmetric] using reply_ends_loading
    by (metis (no_types, lifting))
qed

text \<open>
  C37. The history shown belongs to the filter: in every interleaving, while the tab is open, a history
  without spinner and without error is a successful answer for the current setting of \<open>errorsOnly\<close>, and
  a live request, of which there is at most one, asks for that setting.
\<close>

theorem history_matches_filter:
  "case foldl (history_step server host_msg) (history_mount active interval errorsOnly) es of s \<Rightarrow>
     length (live (hi_requests s)) \<le> 1
     \<and> (if hi_active s
        then list_all (\<lambda>k. k = hi_errorsOnly s) (live (hi_requests s))
          \<and> (if hi_loading s then live (hi_requests s) \<noteq> []
             else case hi_error s of Some _ \<Rightarrow> True
               | None \<Rightarrow> (\<exists>v h. server v (hi_errorsOnly s) = Inr h \<and> hi_history s = Some h))
        else True)"
  using history.inv_run [of server host_msg active interval errorsOnly es]
  by (auto simp: history_ok_def list_all_iff split: option.splits)

text \<open>
  A denial outlives its message: when a manual retry fails for another reason, the error is no longer a
  403, but polling stays off.
\<close>

lemma denied_without_permission_note:
  "(let s = foldl (running_step (\<lambda>_. [])) (running_mount True 5000)
       [RunReply 0 (Inl (ApiError ''Forbidden'' 403)) 1, RunRefresh True, RunReply 0 (Inl (ApiError ''Oops'' 500)) 2,
        RunTick False]
    in map_option qe_status (rn_error s) = Some (Some 500) \<and> rn_denied s \<and> rn_requests s = [])"
  by code_simp

end
