(* ===== verification/Queries_Panel.thy ===== *)
theory Queries_Panel
  imports Inventory_Ui Query_Hooks Relative_Time
begin

text \<open>
  \<open>components/cluster/QueriesPanel.tsx\<close> and \<open>QueryDetail.tsx\<close>: the panel of running and recent
  queries as views and as a machine over the two hooks of \<open>Query_Hooks\<close>. The kill button and the
  SQL block keep a state of their own while they stay mounted: it is part of the panel's state and is
  reset when they are mounted anew. Each row is an unkeyed array of two table rows, which React matches
  by its index, and only inside it the query id is a key: the open details stay mounted as long as both
  the id and the position of their row stay. The rows of one answer are taken to have distinct ids; were
  two alike, the panel would open both, each with a state of its own, and the model shares the state.
\<close>

section \<open>State and events\<close>

datatype query_tab = RunningTab | HistoryTab

definition REFRESH_OPTIONS :: "(string \<times> int) list" where
  "REFRESH_OPTIONS = [(''5s'', 5000), (''10s'', 10000), (''30s'', 30000), (''Off'', 0)]"

definition DEFAULT_INTERVAL_MS :: int where "DEFAULT_INTERVAL_MS = 10000"

record kill_call =
  kl_query :: running_query
  kl_button :: nat

record panel_state =
  qp_tab :: query_tab
  qp_intervalMs :: int
  qp_filter :: string
  qp_runSortKey :: query_sort_key
  qp_runSortDir :: sort_dir
  qp_runExpanded :: "string option"
  qp_errorsOnly :: bool
  qp_histSortKey :: history_sort_key
  qp_histSortDir :: sort_dir
  qp_histExpanded :: "string option"
  qp_run :: running_state
  qp_hist :: history_state
  qp_confirming :: bool
  qp_busy :: bool
  qp_copied :: bool
  qp_button :: nat
  qp_kills :: "kill_call list"
  qp_toasts :: "toast_call list"

datatype 'v panel_event =
    SetTab query_tab
  | SetErrorsOnly bool
  | SetFilter string
  | SetInterval int
  | RunSort query_sort_key
  | HistSort history_sort_key
  | RunExpand "string option"
  | HistExpand "string option"
  | RunRetry
  | HistRetry
  | KillStart
  | KillCancel
  | KillConfirm running_query
  | CopyQuery string
  | Copied bool
  | KillAnswer nat "api_error + unit"
  | RunEvent running_event
  | HistEvent "'v history_event"

section \<open>Details of a row (QueryDetail.tsx)\<close>

definition SqlBlock :: "bool \<Rightarrow> string option \<Rightarrow> 'v panel_event node" where
  "SqlBlock copied sql = (if \<not> truthy sql then box [Txt ''SQL text unavailable'']
     else box [El ''pre'' [] [] [Txt (the sql)],
       click_text (CopyQuery (the sql)) (if copied then ''Copied'' else ''Copy SQL'')])"

definition KillButton :: "bool \<Rightarrow> bool \<Rightarrow> running_query \<Rightarrow> 'v panel_event node" where
  "KillButton confirming busy q =
     (if \<not> confirming then button ''kill-btn'' False KillStart ''Kill query''
      else box [Txt ''Cancel this query?'',
        button ''kill-confirm-btn'' busy (KillConfirm q) (if busy then ''Killing'' @ ellipsis else ''Confirm kill''),
        click_text KillCancel ''Cancel''])"

definition detail_if :: "string \<Rightarrow> string option \<Rightarrow> 'e node list" where
  "detail_if label v = show_if (truthy v) [Detail label (nullish v [])]"

text \<open>\<open>totalCores ? ... : ""\<close>: neither a missing nor a zero number of cores adds a share.\<close>

definition share_text :: "rat option \<Rightarrow> rat \<Rightarrow> bool \<Rightarrow> string" where
  "share_text totalCores cores with_total = (case totalCores of
      None \<Rightarrow> []
    | Some t \<Rightarrow> (if t = 0 then []
        else '' '' @ middle_dot @ '' '' @ to_fixed 1 (cores / t * 100) @ ''%''
          @ (if with_total then '' of '' @ num_str t else [])))"

definition when_label :: "(string \<Rightarrow> int option) \<Rightarrow> int \<Rightarrow> string option \<Rightarrow> string option" where
  "when_label host_date now t = (case t of None \<Rightarrow> None
     | Some s \<Rightarrow> if s = [] then None
        else Some (formatRelativeTime host_date (Some s) now @ '' ('' @ s @ '')''))"

definition RunningDetail ::
  "(string \<Rightarrow> int option) \<Rightarrow> panel_state \<Rightarrow> running_query \<Rightarrow> int \<Rightarrow> rat option \<Rightarrow> rat option \<Rightarrow> bool \<Rightarrow> 'v panel_event node" where
  "RunningDetail host_date s q now totalCores instCores canKill = box (
     [box ([Detail ''Query ID'' (rq_query_id q)]
       @ (case rq_connection_id q of None \<Rightarrow> [] | Some c \<Rightarrow> [Detail ''Connection ID'' (int_str c)])
       @ detail_if ''Started'' (when_label host_date now (rq_start_time q))
       @ detail_if ''Frontend'' (rq_fe_ip q)
       @ detail_if ''Warehouse'' (rq_warehouse q)
       @ detail_if ''Resource Group'' (rq_resource_group q)
       @ (case rq_cpu_avg_cores q of None \<Rightarrow> []
          | Some c \<Rightarrow> [Detail ''Avg CPU (since start)'' (num_str c @ '' cores'' @ share_text totalCores c True)])
       @ (case instCores of None \<Rightarrow> []
          | Some c \<Rightarrow> [Detail ''CPU now (last interval)'' (to_fixed 2 c @ '' cores'' @ share_text totalCores c False)])
       @ detail_if ''Progress'' (rq_exec_progress q)
       @ detail_if ''Disk Spill'' (rq_spill_display q)),
      SqlBlock (qp_copied s) (rq_sql q)]
     @ show_if canKill [box [KillButton (qp_confirming s) (qp_busy s) q]])"

definition HistoryDetail :: "(string \<Rightarrow> int option) \<Rightarrow> panel_state \<Rightarrow> history_query \<Rightarrow> int \<Rightarrow> 'v panel_event node" where
  "HistoryDetail host_date s q now = box (
     [box (detail_if ''Query ID'' (hq_query_id q)
       @ detail_if ''Finished'' (when_label host_date now (hq_timestamp q))
       @ detail_if ''User'' (hq_user q)
       @ detail_if ''Warehouse'' (hq_warehouse q)
       @ detail_if ''Type'' (hq_query_type q)
       @ [Detail ''Duration'' (fmtDurationMs (hq_query_time_ms q))]
       @ show_if (hq_mem_cost_bytes q \<noteq> None) [Detail ''Peak Memory'' (fmtBytes (hq_mem_cost_bytes q))]
       @ (case hq_cpu_cost_ns q of None \<Rightarrow> []
          | Some c \<Rightarrow> [Detail ''CPU Cost'' (to_fixed 2 (c / 10 ^ 9) @ '' s'')]))]
     @ show_if (hq_is_error q \<and> truthy (hq_error_code q)) [box [Txt (nullish (hq_error_code q) [])]]
     @ [SqlBlock (qp_copied s) (hq_sql q)])"

section \<open>Cells and notes (QueriesPanel.tsx)\<close>

definition QSortTH :: "string \<Rightarrow> bool \<Rightarrow> sort_dir \<Rightarrow> 'v panel_event \<Rightarrow> 'v panel_event node" where
  "QSortTH label active dir onClick = El ''th'' [] [onClick]
     (Txt label # show_if active [Txt (if dir = Asc then up_mark else down_mark)])"

definition CellTD :: "string option \<Rightarrow> string \<Rightarrow> 'v panel_event node" where
  "CellTD title t = El ''td'' (tip title) [] [Txt t]"

definition SqlTD :: "string option \<Rightarrow> 'v panel_event node" where
  "SqlTD sql = El ''td'' (tip sql) [] [Txt (nullish sql em_dash)]"

definition StateBadge :: "string option \<Rightarrow> bool \<Rightarrow> 'v panel_event node" where
  "StateBadge state isError =
     (let ok = \<not> isError \<and> state \<noteq> Some ''ERR'';
          color = (if state = Some ''RUNNING'' then palette ''green'' else if ok then palette ''green'' else ''#ef4444'')
      in El ''td'' [] [] [Badge (nullish state ''?'') color])"

definition matchesFilter :: "string \<Rightarrow> string option list \<Rightarrow> bool" where
  "matchesFilter t fs \<longleftrightarrow> t = []
     \<or> list_ex (\<lambda>f. case f of None \<Rightarrow> False | Some x \<Rightarrow> str_includes (to_lower t) (to_lower x)) fs"

definition retry_note :: "string \<Rightarrow> 'v panel_event \<Rightarrow> 'v panel_event node" where
  "retry_note t e = box [Txt t, click_text e ''Retry'']"

definition PermissionNote :: "'v panel_event \<Rightarrow> 'v panel_event node" where
  "PermissionNote e = retry_note ''This view requires the cluster_admin role (OPERATE privilege). '' e"

definition ErrorNote :: "string \<Rightarrow> 'v panel_event \<Rightarrow> 'v panel_event node" where
  "ErrorNote label e = retry_note (''Failed to load '' @ label @ ''. '') e"

definition EmptyNote :: "string \<Rightarrow> 'v panel_event node" where
  "EmptyNote t = box [Txt t]"

section \<open>The rows\<close>

definition run_matches :: "string \<Rightarrow> running_query \<Rightarrow> bool" where
  "run_matches f q \<longleftrightarrow> matchesFilter f [Some (rq_user q), rq_database q, rq_warehouse q, rq_sql q]"

definition runRows :: "panel_state \<Rightarrow> running_query list" where
  "runRows s = (case rn_running (qp_run s) of None \<Rightarrow> []
     | Some r \<Rightarrow> sortQueries (filter (run_matches (qp_filter s)) (qr_queries r)) (qp_runSortKey s) (qp_runSortDir s))"

definition hist_matches :: "string \<Rightarrow> history_query \<Rightarrow> bool" where
  "hist_matches f q \<longleftrightarrow> matchesFilter f [hq_user q, hq_database q, hq_warehouse q, hq_sql q]"

definition histRows :: "panel_state \<Rightarrow> history_query list" where
  "histRows s = (case hi_history (qp_hist s) of None \<Rightarrow> []
     | Some h \<Rightarrow> sortHistory (filter (hist_matches (qp_filter s)) (hr_queries h)) (qp_histSortKey s) (qp_histSortDir s))"

definition canKill :: "panel_state \<Rightarrow> bool" where
  "canKill s = (case rn_running (qp_run s) of None \<Rightarrow> False | Some r \<Rightarrow> qr_can_kill r)"

definition hist_row_id :: "nat \<Rightarrow> history_query \<Rightarrow> string" where
  "hist_row_id i q = nullish (hq_query_id q) (''row-'' @ nat_str i)"

definition toggle_row :: "string option \<Rightarrow> string \<Rightarrow> string option" where
  "toggle_row expanded i = (if expanded = Some i then None else Some i)"

section \<open>The running view\<close>

definition cpu_title :: "rat option \<Rightarrow> rat option \<Rightarrow> string option" where
  "cpu_title inst avg = (case inst of
      Some c \<Rightarrow> Some (''now '' @ approx_sign @ to_fixed 2 c @ '' cores (last interval)'')
    | None \<Rightarrow> map_option (\<lambda>c. ''avg '' @ approx_sign @ num_str c @ '' cores since start'') avg)"

definition running_row ::
  "(string \<Rightarrow> int option) \<Rightarrow> panel_state \<Rightarrow> int \<Rightarrow> rat option \<Rightarrow> running_query \<Rightarrow> 'v panel_event node list" where
  "running_row host_date s now totalCores q =
     (let expanded = (qp_runExpanded s = Some (rq_query_id q));
          inst = obj_get (rn_instCores (qp_run s)) (rq_query_id q);
          cpuVal = (case inst of Some c \<Rightarrow> Some c | None \<Rightarrow> rq_cpu_avg_cores q)
      in El ''tr'' [(''data-testid'', ''query-row'')] [RunExpand (toggle_row (qp_runExpanded s) (rq_query_id q))]
           [CellTD None (rq_user q),
            if truthy (rq_database q) then CellTD None (the (rq_database q))
            else CellTD (Some (''No current database '' @ em_dash @ '' query ran fully-qualified without USE'')) em_dash,
            StateBadge (rq_exec_state q) False,
            CellTD None (nullish (rq_exec_time_display q) em_dash),
            CellTD (cpu_title inst (rq_cpu_avg_cores q)) (fmtCpuShare cpuVal totalCores),
            CellTD None (nullish (rq_memory_display q) em_dash),
            CellTD None (fmtRows (rq_scan_rows q)),
            CellTD None (nullish (rq_scan_bytes_display q) em_dash),
            SqlTD (rq_sql q)]
         # show_if expanded [El ''tr'' [] [] [El ''td'' [] []
             [RunningDetail host_date s q now totalCores inst (canKill s)]]])"

definition run_header :: "panel_state \<Rightarrow> string \<Rightarrow> query_sort_key \<Rightarrow> 'v panel_event node" where
  "run_header s label k = QSortTH label (qp_runSortKey s = k) (qp_runSortDir s) (RunSort k)"

text \<open>Whether the table is shown, and not one of the notes.\<close>

definition running_table_shown :: "panel_state \<Rightarrow> bool" where
  "running_table_shown s \<longleftrightarrow> runRows s \<noteq> [] \<and> rn_error (qp_run s) = None"

definition RunningView :: "(string \<Rightarrow> int option) \<Rightarrow> panel_state \<Rightarrow> int \<Rightarrow> rat option \<Rightarrow> 'v panel_event node" where
  "RunningView host_date s now totalCores =
     (let rows = runRows s in
      if rn_loading (qp_run s) \<and> rows = [] then Loader
      else case rn_error (qp_run s) of
        Some e \<Rightarrow> (if qe_status e = Some 403 then PermissionNote RunRetry else ErrorNote ''running queries'' RunRetry)
      | None \<Rightarrow> (if rows = [] then EmptyNote ''No queries are currently running''
          else box [El ''table'' [(''data-testid'', ''queries-table'')] []
            [box [TH ''User'', TH ''DB'', TH ''State'', run_header s ''Exec Time'' ExecTimeMs,
                  run_header s ''CPU %'' CpuAvgCores, run_header s ''Memory'' MemoryBytes,
                  run_header s ''Scan Rows'' ScanRows, run_header s ''Scan Bytes'' ScanBytes, TH ''SQL''],
             box (concat (map (running_row host_date s now totalCores) rows))]]))"

section \<open>The history view\<close>

definition history_row :: "(string \<Rightarrow> int option) \<Rightarrow> panel_state \<Rightarrow> int \<Rightarrow> nat \<times> history_query \<Rightarrow> 'v panel_event node list" where
  "history_row host_date s now iq = (case iq of (i, q) \<Rightarrow>
     (let rid = hist_row_id i q; expanded = (qp_histExpanded s = Some rid)
      in El ''tr'' [(''data-testid'', ''history-row'')] [HistExpand (toggle_row (qp_histExpanded s) rid)]
           [CellTD (hq_timestamp q) (if truthy (hq_timestamp q) then formatRelativeTime host_date (hq_timestamp q) now else em_dash),
            CellTD None (nullish (hq_user q) em_dash),
            CellTD None (if truthy (hq_database q) then the (hq_database q) else em_dash),
            StateBadge (hq_state q) (hq_is_error q),
            CellTD None (fmtDurationMs (hq_query_time_ms q)),
            CellTD None (fmtRows (hq_scan_rows q)),
            CellTD None (fmtBytes (hq_scan_bytes q)),
            CellTD None (fmtBytes (hq_mem_cost_bytes q)),
            SqlTD (hq_sql q)]
         # show_if expanded [El ''tr'' [] [] [El ''td'' [] [] [HistoryDetail host_date s q now]]]))"

definition hist_header :: "panel_state \<Rightarrow> string \<Rightarrow> history_sort_key \<Rightarrow> 'v panel_event node" where
  "hist_header s label k = QSortTH label (qp_histSortKey s = k) (qp_histSortDir s) (HistSort k)"

definition HistoryView :: "(string \<Rightarrow> int option) \<Rightarrow> panel_state \<Rightarrow> int \<Rightarrow> 'v panel_event node" where
  "HistoryView host_date s now =
     (let rows = histRows s; data = hi_history (qp_hist s) in
      if hi_loading (qp_hist s) \<and> data = None then Loader
      else case hi_error (qp_hist s) of
        Some e \<Rightarrow> (if qe_status e = Some 403 then PermissionNote HistRetry else ErrorNote ''query history'' HistRetry)
      | None \<Rightarrow> (if data \<noteq> None \<and> \<not> hr_available (the data)
          then EmptyNote (nullish (hr_reason (the data)) ''Query history is unavailable on this cluster.'')
          else if rows = [] then EmptyNote ''No completed queries found''
          else box [El ''table'' [(''data-testid'', ''history-table'')] []
            [box [hist_header s ''Finished'' Timestamp, TH ''User'', TH ''DB'', TH ''State'',
                  hist_header s ''Duration'' QueryTimeMs, hist_header s ''Scan Rows'' HScanRows,
                  hist_header s ''Scan Bytes'' HScanBytes, hist_header s ''Memory'' MemCostBytes, TH ''SQL''],
             box (concat (map (history_row host_date s now) (enumerate 0 rows)))]]))"

section \<open>The panel\<close>

definition panel_now :: "(string \<Rightarrow> int option) \<Rightarrow> int \<Rightarrow> panel_state \<Rightarrow> int" where
  "panel_now host_date browser s = skewedNow browser (clockSkewMs host_date browser
     (if qp_tab s = RunningTab then Option.bind (rn_running (qp_run s)) qr_server_now
      else Option.bind (hi_history (qp_hist s)) hr_server_now))"

text \<open>A time stamp of zero counts as never; the clock of the label ticks once a second.\<close>

definition updatedAgo :: "int \<Rightarrow> panel_state \<Rightarrow> int option" where
  "updatedAgo nowTick s =
     (case (if qp_tab s = RunningTab then rn_lastUpdated (qp_run s) else hi_lastUpdated (qp_hist s)) of
        None \<Rightarrow> None
      | Some t \<Rightarrow> (if t = 0 then None else Some (max 0 (round_half_up (of_int (nowTick - t) / 1000)))))"

definition count_label :: "panel_state \<Rightarrow> string" where
  "count_label s = (if qp_tab s = RunningTab
     then nat_str (case rn_running (qp_run s) of None \<Rightarrow> 0 | Some r \<Rightarrow> length (qr_queries r)) @ '' running''
     else case hi_history (qp_hist s) of
         None \<Rightarrow> []
       | Some h \<Rightarrow> (if hr_available h then nat_str (length (hr_queries h)) @ '' recent'' else []))"

definition QueriesPanel ::
  "(string \<Rightarrow> int option) \<Rightarrow> rat option \<Rightarrow> int \<Rightarrow> int \<Rightarrow> panel_state \<Rightarrow> 'v panel_event node" where
  "QueriesPanel host_date totalCores browser nowTick s =
     (let now = panel_now host_date browser s; retry = (if qp_tab s = RunningTab then RunRetry else HistRetry)
      in El ''div'' [(''data-testid'', ''queries-panel'')] []
        ([button ''queries-tab-running'' False (SetTab RunningTab) ''Running'',
          button ''queries-tab-history'' False (SetTab HistoryTab) ''Recent'',
          Txt (count_label s)]
         @ show_if (qp_tab s = HistoryTab)
            [El ''input'' (show_if (qp_errorsOnly s) [(''checked'', ''true'')] @ [(''data-testid'', ''history-errors-only'')])
               [SetErrorsOnly (\<not> qp_errorsOnly s)] [], Txt ''Errors only'']
         @ [Field ''queries-filter'' (qp_filter s) False SetFilter [],
            Field ''refresh-interval'' (int_str (qp_intervalMs s)) True (\<lambda>_. SetInterval (qp_intervalMs s))
              (map (\<lambda>(l, ms). (l, SetInterval ms)) REFRESH_OPTIONS)]
         @ (case updatedAgo nowTick s of None \<Rightarrow> [] | Some n \<Rightarrow> [Txt (''updated '' @ int_str n @ ''s ago'')])
         @ [button ''queries-refresh-btn'' False retry ''Refresh now'',
            if qp_tab s = RunningTab then RunningView host_date s now totalCores
            else HistoryView host_date s now]))"
section \<open>The machine\<close>

definition toggleRunSort :: "query_sort_key \<Rightarrow> panel_state \<Rightarrow> panel_state" where
  "toggleRunSort k s =
     (if qp_runSortKey s = k then s\<lparr>qp_runSortDir := (if qp_runSortDir s = Asc then Desc else Asc)\<rparr>
      else s\<lparr>qp_runSortKey := k, qp_runSortDir := Desc\<rparr>)"

definition toggleHistSort :: "history_sort_key \<Rightarrow> panel_state \<Rightarrow> panel_state" where
  "toggleHistSort k s =
     (if qp_histSortKey s = k then s\<lparr>qp_histSortDir := (if qp_histSortDir s = Asc then Desc else Asc)\<rparr>
      else s\<lparr>qp_histSortKey := k, qp_histSortDir := Desc\<rparr>)"

text \<open>The confirmed kill up to its await, and what follows the answer.\<close>

definition kill_start :: "running_query \<Rightarrow> panel_state \<Rightarrow> panel_state" where
  "kill_start q s = s\<lparr>qp_busy := True, qp_kills := qp_kills s @ [\<lparr>kl_query = q, kl_button = qp_button s\<rparr>]\<rparr>"

definition kill_answer :: "(api_error \<Rightarrow> string) \<Rightarrow> nat \<Rightarrow> api_error + unit \<Rightarrow> panel_state \<Rightarrow> panel_state" where
  "kill_answer host_msg i res s =
     (if i < length (qp_kills s) then
        (let k = qp_kills s ! i;
             s1 = s\<lparr>qp_kills := take i (qp_kills s) @ drop (Suc i) (qp_kills s)\<rparr>;
             s2 = (case res of
                Inr _ \<Rightarrow> s1\<lparr>qp_toasts := qp_toasts s1 @ [toast (''Query killed ('' @ rq_user (kl_query k) @ '')'') TInfo],
                  qp_runExpanded := None, qp_run := running_refresh True (qp_run s1)\<rparr>
              | Inl err \<Rightarrow> s1\<lparr>qp_toasts := qp_toasts s1 @ [toast (qe_message (fetch_error_of host_msg err)) TError]\<rparr>)
         in if kl_button k = qp_button s then s2\<lparr>qp_busy := False, qp_confirming := False\<rparr> else s2)
      else s)"

text \<open>The row whose details are mounted, by its position and its id, and the row whose kill button is.\<close>

definition history_table_shown :: "panel_state \<Rightarrow> bool" where
  "history_table_shown s \<longleftrightarrow> histRows s \<noteq> [] \<and> hi_error (qp_hist s) = None
     \<and> (case hi_history (qp_hist s) of None \<Rightarrow> False | Some h \<Rightarrow> hr_available h)"

definition open_row :: "string option \<Rightarrow> string list \<Rightarrow> (nat \<times> string) option" where
  "open_row expanded ids = find (\<lambda>r. Some (snd r) = expanded) (enumerate 0 ids)"

definition mounted_row :: "panel_state \<Rightarrow> (query_tab \<times> nat \<times> string) option" where
  "mounted_row s =
     (if qp_tab s = RunningTab
      then (if running_table_shown s
        then map_option (Pair RunningTab) (open_row (qp_runExpanded s) (map rq_query_id (runRows s))) else None)
      else (if history_table_shown s
        then map_option (Pair HistoryTab)
          (open_row (qp_histExpanded s) (map (\<lambda>(j, q). hist_row_id j q) (enumerate 0 (histRows s)))) else None))"

definition kill_row :: "panel_state \<Rightarrow> (nat \<times> string) option" where
  "kill_row s = (if qp_tab s = RunningTab \<and> canKill s then map_option snd (mounted_row s) else None)"

definition remount :: "panel_state \<Rightarrow> panel_state \<Rightarrow> panel_state" where
  "remount s s' =
     (let s1 = (if kill_row s' = kill_row s then s'
            else s'\<lparr>qp_confirming := False, qp_busy := False, qp_button := Suc (qp_button s')\<rparr>)
      in if mounted_row s' = mounted_row s then s1 else s1\<lparr>qp_copied := False\<rparr>)"

fun user_panel_event :: "'v panel_event \<Rightarrow> bool" where
  "user_panel_event (Copied b) = False"
| "user_panel_event (KillAnswer i r) = False"
| "user_panel_event (RunEvent e) = False"
| "user_panel_event (HistEvent e) = False"
| "user_panel_event _ = True"

fun panel_do ::
  "('v \<Rightarrow> bool \<Rightarrow> api_error + history_response) \<Rightarrow> (api_error \<Rightarrow> string) \<Rightarrow> panel_state \<Rightarrow> 'v panel_event \<Rightarrow> panel_state" where
  "panel_do server host_msg s (SetTab t) = s\<lparr>qp_tab := t\<rparr>"
| "panel_do server host_msg s (SetErrorsOnly b) = s\<lparr>qp_errorsOnly := b\<rparr>"
| "panel_do server host_msg s (SetFilter f) = s\<lparr>qp_filter := f\<rparr>"
| "panel_do server host_msg s (SetInterval ms) = s\<lparr>qp_intervalMs := ms\<rparr>"
| "panel_do server host_msg s (RunSort k) = toggleRunSort k s"
| "panel_do server host_msg s (HistSort k) = toggleHistSort k s"
| "panel_do server host_msg s (RunExpand i) = s\<lparr>qp_runExpanded := i\<rparr>"
| "panel_do server host_msg s (HistExpand i) = s\<lparr>qp_histExpanded := i\<rparr>"
| "panel_do server host_msg s RunRetry = s\<lparr>qp_run := running_step host_msg (qp_run s) (RunRefresh True)\<rparr>"
| "panel_do server host_msg s HistRetry = s\<lparr>qp_hist := history_step server host_msg (qp_hist s) HistRefresh\<rparr>"
| "panel_do server host_msg s KillStart = s\<lparr>qp_confirming := True\<rparr>"
| "panel_do server host_msg s KillCancel = s\<lparr>qp_confirming := False\<rparr>"
| "panel_do server host_msg s (KillConfirm q) = kill_start q s"
| "panel_do server host_msg s (CopyQuery t) = s"
| "panel_do server host_msg s (Copied b) = s\<lparr>qp_copied := b\<rparr>"
| "panel_do server host_msg s (KillAnswer i r) = kill_answer host_msg i r s"
| "panel_do server host_msg s (RunEvent e) =
     (case e of RunTick h \<Rightarrow> s\<lparr>qp_run := running_step host_msg (qp_run s) e\<rparr>
      | RunReply i r t \<Rightarrow> s\<lparr>qp_run := running_step host_msg (qp_run s) e\<rparr> | _ \<Rightarrow> s)"
| "panel_do server host_msg s (HistEvent e) =
     (case e of HistTick h \<Rightarrow> s\<lparr>qp_hist := history_step server host_msg (qp_hist s) e\<rparr>
      | HistReply i v t \<Rightarrow> s\<lparr>qp_hist := history_step server host_msg (qp_hist s) e\<rparr> | _ \<Rightarrow> s)"

text \<open>A render passes the state of the panel to the hooks.\<close>

definition render_hooks ::
  "('v \<Rightarrow> bool \<Rightarrow> api_error + history_response) \<Rightarrow> (api_error \<Rightarrow> string) \<Rightarrow> panel_state \<Rightarrow> panel_state" where
  "render_hooks server host_msg s =
     s\<lparr>qp_run := running_step host_msg (qp_run s) (RunRender (qp_tab s = RunningTab) (qp_intervalMs s)),
       qp_hist := history_step server host_msg (qp_hist s)
         (HistRender (qp_tab s = HistoryTab) (qp_intervalMs s) (qp_errorsOnly s))\<rparr>"

definition panel_mount :: panel_state where
  "panel_mount = \<lparr>qp_tab = RunningTab, qp_intervalMs = DEFAULT_INTERVAL_MS, qp_filter = [],
     qp_runSortKey = ExecTimeMs, qp_runSortDir = Desc, qp_runExpanded = None, qp_errorsOnly = False,
     qp_histSortKey = Timestamp, qp_histSortDir = Desc, qp_histExpanded = None,
     qp_run = running_mount True DEFAULT_INTERVAL_MS, qp_hist = history_mount False DEFAULT_INTERVAL_MS False,
     qp_confirming = False, qp_busy = False, qp_copied = False, qp_button = 0, qp_kills = [], qp_toasts = []\<rparr>"

text \<open>
  A user event happens only if the rendered panel offers it; it comes with the two clocks that the last
  render read. Ticks, answers and timers happen at any time.
\<close>

type_synonym 'v panel_input = "(int \<times> int) \<times> 'v panel_event"

definition panel_step ::
  "(string \<Rightarrow> int option) \<Rightarrow> rat option \<Rightarrow> ('v \<Rightarrow> bool \<Rightarrow> api_error + history_response) \<Rightarrow> (api_error \<Rightarrow> string)
    \<Rightarrow> panel_state \<Rightarrow> 'v panel_input \<Rightarrow> panel_state" where
  "panel_step host_date totalCores server host_msg s ce = (case ce of ((browser, nowTick), e) \<Rightarrow>
     (if user_panel_event e \<and> \<not> can_send (QueriesPanel host_date totalCores browser nowTick s) e then s
      else remount s (render_hooks server host_msg (panel_do server host_msg s e))))"

section \<open>What the views offer\<close>

lemma cells_send [simp]:
  "\<not> can_send (CellTD t x) e" "\<not> can_send (SqlTD q) e" "\<not> can_send (StateBadge st b) e"
  "can_send (QSortTH l a d e') e \<longleftrightarrow> e = e'" "can_send (retry_note u e') e \<longleftrightarrow> e = e'"
  "\<not> can_send (EmptyNote u) e" "can_send (PermissionNote e') e \<longleftrightarrow> e = e'" "can_send (ErrorNote l e') e \<longleftrightarrow> e = e'"
  by (auto simp: CellTD_def SqlTD_def StateBadge_def Let_def QSortTH_def retry_note_def EmptyNote_def
      PermissionNote_def ErrorNote_def show_if_def)

lemma detail_if_sends [simp]: "n \<in> set (detail_if l v) \<Longrightarrow> \<not> can_send n e"
  by (auto simp: detail_if_def)

lemma SqlBlock_sends: "can_send (SqlBlock c sql) e \<Longrightarrow> \<exists>t. e = CopyQuery t"
  by (auto simp: SqlBlock_def split: if_splits)

lemma KillButton_sends:
  "can_send (KillButton confirming busy q) e \<longleftrightarrow>
     (if confirming then e = KillCancel \<or> \<not> busy \<and> e = KillConfirm q else e = KillStart)"
  by (auto simp: KillButton_def)

lemma RunningDetail_sends:
  assumes "can_send (RunningDetail host_date s q now tc ic ck) e" and "\<forall>t. e \<noteq> CopyQuery t"
  shows "ck \<and> can_send (KillButton (qp_confirming s) (qp_busy s) q :: 'v panel_event node) e"
  using assms by (auto simp: RunningDetail_def dest!: SqlBlock_sends split: option.splits)

lemma HistoryDetail_sends: "can_send (HistoryDetail host_date s q now) e \<Longrightarrow> \<exists>t. e = CopyQuery t"
  by (auto simp: HistoryDetail_def dest: SqlBlock_sends split: option.splits)

text \<open>The events of the kill button.\<close>

fun kill_event :: "'v panel_event \<Rightarrow> bool" where
  "kill_event KillStart = True"
| "kill_event KillCancel = True"
| "kill_event (KillConfirm q) = True"
| "kill_event _ = False"

lemma running_row_sends:
  assumes "n \<in> set (running_row host_date s now tc q)" and "can_send n e"
  shows "e = RunExpand (toggle_row (qp_runExpanded s) (rq_query_id q)) \<or> (\<exists>t. e = CopyQuery t)
    \<or> (qp_runExpanded s = Some (rq_query_id q) \<and> canKill s
       \<and> can_send (KillButton (qp_confirming s) (qp_busy s) q :: 'v panel_event node) e)"
  using assms by (auto simp: running_row_def Let_def obj_get_Cons split: if_splits dest: RunningDetail_sends)

lemma history_row_sends:
  "n \<in> set (history_row host_date s now iq) \<Longrightarrow> can_send n e \<Longrightarrow> \<not> kill_event e"
  by (auto simp: history_row_def Let_def obj_get_Cons split: prod.splits if_splits dest!: HistoryDetail_sends)

lemma run_header_sends: "can_send (run_header s l k) e \<longleftrightarrow> e = RunSort k"
  by (simp add: run_header_def)

lemma hist_header_sends: "can_send (hist_header s l k) e \<longleftrightarrow> e = HistSort k"
  by (simp add: hist_header_def)

lemma RunningView_kills:
  assumes "can_send (RunningView host_date s now tc) e" and "kill_event e"
  shows "running_table_shown s \<and> (\<exists>q \<in> set (runRows s). qp_runExpanded s = Some (rq_query_id q) \<and> canKill s
    \<and> can_send (KillButton (qp_confirming s) (qp_busy s) q :: 'v panel_event node) e)"
  using assms
  by (auto simp: RunningView_def Let_def running_table_shown_def run_header_sends obj_get_Cons
      dest!: running_row_sends split: if_splits option.splits)

lemma HistoryView_kills: "can_send (HistoryView host_date s now) e \<Longrightarrow> \<not> kill_event e"
  by (auto simp: HistoryView_def Let_def hist_header_sends obj_get_Cons
      dest: history_row_sends split: if_splits option.splits)

text \<open>The open row is a row of the table, at the position it is mounted at.\<close>

lemma find_enumerate: "find (\<lambda>r. P (snd r)) (enumerate n xs) = Some (i, x) \<Longrightarrow>
    n \<le> i \<and> i - n < length xs \<and> xs ! (i - n) = x \<and> P x"
proof (induction xs arbitrary: n)
  case (Cons y ys)
  show ?case
  proof (cases "P y")
    case False
    with Cons.prems Cons.IH [of "Suc n"]
    have "Suc n \<le> i \<and> i - Suc n < length ys \<and> ys ! (i - Suc n) = x \<and> P x" by simp
    moreover from this have "i - n = Suc (i - Suc n)" by linarith
    ultimately show ?thesis by simp
  qed (use Cons.prems in auto)
qed simp

lemma open_row_at: "open_row ex ids = Some (i, x) \<Longrightarrow> i < length ids \<and> ids ! i = x \<and> ex = Some x"
  using find_enumerate [of "\<lambda>y. Some y = ex" 0 ids i x] by (auto simp: open_row_def)

lemma open_row_found: "x \<in> set ids \<Longrightarrow> \<exists>i. open_row (Some x) ids = Some (i, x)"
proof -
  assume "x \<in> set ids"
  then have "open_row (Some x) ids \<noteq> None"
    unfolding open_row_def find_None_iff by (auto simp: in_set_conv_nth nth_enumerate_eq)
  then obtain i y where "open_row (Some x) ids = Some (i, y)" by auto
  with open_row_at [OF this] show ?thesis by auto
qed

lemma kill_row_at:
  "kill_row s = Some (i, x) \<Longrightarrow> i < length (runRows s) \<and> rq_query_id (runRows s ! i) = x"
  by (auto simp: kill_row_def mounted_row_def dest!: open_row_at split: if_splits)

lemma panel_kills:
  assumes "can_send (QueriesPanel host_date tc browser nowTick s) e" and "kill_event e"
  shows "qp_tab s = RunningTab \<and> canKill s \<and> (\<exists>q \<in> set (runRows s). (\<exists>i. kill_row s = Some (i, rq_query_id q))
    \<and> can_send (KillButton (qp_confirming s) (qp_busy s) q :: 'v panel_event node) e)"
proof -
  have view: "can_send (if qp_tab s = RunningTab then RunningView host_date s (panel_now host_date browser s) tc
      else HistoryView host_date s (panel_now host_date browser s)) e"
    using assms by (auto simp: QueriesPanel_def Let_def obj_get_Cons REFRESH_OPTIONS_def
        split: option.splits if_splits)
  then have tab: "qp_tab s = RunningTab" using HistoryView_kills assms(2) by (auto split: if_splits)
  with view RunningView_kills [OF _ assms(2)] obtain q where q: "running_table_shown s" "q \<in> set (runRows s)"
      "qp_runExpanded s = Some (rq_query_id q)" "canKill s"
      "can_send (KillButton (qp_confirming s) (qp_busy s) q :: 'v panel_event node) e"
    by fastforce
  from q(2) open_row_found [of "rq_query_id q" "map rq_query_id (runRows s)"]
  have "\<exists>i. kill_row s = Some (i, rq_query_id q)"
    using tab q(1,3,4) by (auto simp: kill_row_def mounted_row_def)
  with q tab show ?thesis by blast
qed

section \<open>A kill is confirmed\<close>

lemma rows_local [simp]:
  "runRows (s\<lparr>qp_confirming := a, qp_busy := b, qp_button := c\<rparr>) = runRows s"
  "runRows (s\<lparr>qp_copied := d\<rparr>) = runRows s"
  "histRows (s\<lparr>qp_confirming := a, qp_busy := b, qp_button := c\<rparr>) = histRows s"
  "histRows (s\<lparr>qp_copied := d\<rparr>) = histRows s"
  by (simp_all add: runRows_def histRows_def cong: option.case_cong)

lemma mounted_row_local [simp]:
  "mounted_row (s\<lparr>qp_confirming := a, qp_busy := b, qp_button := c\<rparr>) = mounted_row s"
  "mounted_row (s\<lparr>qp_copied := d\<rparr>) = mounted_row s"
  by (simp_all add: mounted_row_def running_table_shown_def history_table_shown_def cong: option.case_cong)

lemma kill_row_local [simp]:
  "kill_row (s\<lparr>qp_confirming := a, qp_busy := b, qp_button := c\<rparr>) = kill_row s"
  "kill_row (s\<lparr>qp_copied := d\<rparr>) = kill_row s"
  by (simp_all add: kill_row_def canKill_def)

lemma remount_confirming:
  "qp_confirming (remount s s') \<Longrightarrow> kill_row (remount s s') = kill_row s \<and> qp_confirming s'"
  "qp_kills (remount s s') = qp_kills s'"
  by (auto simp: remount_def Let_def split: if_splits)

lemma render_hooks_local [simp]:
  "qp_confirming (render_hooks server host_msg s) = qp_confirming s"
  "qp_kills (render_hooks server host_msg s) = qp_kills s"
  by (simp_all add: render_hooks_def)

lemma kill_answer_local:
  "qp_confirming (kill_answer host_msg i r s) \<Longrightarrow> qp_confirming s"
  "length (qp_kills (kill_answer host_msg i r s)) \<le> length (qp_kills s)"
  by (auto simp: kill_answer_def Let_def split: if_splits sum.splits)

lemma toggle_local [simp]:
  "qp_confirming (toggleRunSort k s) = qp_confirming s" "qp_kills (toggleRunSort k s) = qp_kills s"
  "qp_confirming (toggleHistSort k' s) = qp_confirming s" "qp_kills (toggleHistSort k' s) = qp_kills s"
  by (simp_all add: toggleRunSort_def toggleHistSort_def)

lemma hook_event_local [simp]:
  "qp_confirming (panel_do server host_msg s (RunEvent e)) = qp_confirming s"
  "qp_kills (panel_do server host_msg s (RunEvent e)) = qp_kills s"
  "qp_confirming (panel_do server host_msg s (HistEvent e')) = qp_confirming s"
  "qp_kills (panel_do server host_msg s (HistEvent e')) = qp_kills s"
  by (cases e; cases e'; simp del: running_step.simps history_step.simps)+

lemma panel_do_confirming: "qp_confirming (panel_do server host_msg s e) \<Longrightarrow> qp_confirming s \<or> e = KillStart"
  by (cases e) (simp_all add: kill_start_def kill_answer_local
      del: running_step.simps history_step.simps panel_do.simps(17,18))

lemma panel_do_kills:
  assumes "length (qp_kills s) < length (qp_kills (panel_do server host_msg s e))"
  shows "\<exists>q. e = KillConfirm q \<and> qp_kills (panel_do server host_msg s e) = qp_kills s @ [\<lparr>kl_query = q, kl_button = qp_button s\<rparr>]"
  using assms kill_answer_local(2) [of host_msg _ _ s]
  by (cases e) (simp_all add: kill_start_def not_less [symmetric]
      del: running_step.simps history_step.simps panel_do.simps(17,18))

lemma panel_step_confirming:
  assumes "qp_confirming (panel_step host_date tc server host_msg s ce)"
  shows "kill_row (panel_step host_date tc server host_msg s ce) = kill_row s
    \<and> (qp_confirming s \<or> snd ce = KillStart \<and> kill_row s \<noteq> None)"
proof (cases "user_panel_event (snd ce)
    \<and> \<not> can_send (QueriesPanel host_date tc (fst (fst ce)) (snd (fst ce)) s) (snd ce)")
  case True
  with assms show ?thesis by (simp add: panel_step_def split_beta)
next
  case False
  then have step: "panel_step host_date tc server host_msg s ce
      = remount s (render_hooks server host_msg (panel_do server host_msg s (snd ce)))"
    by (auto simp: panel_step_def split_beta)
  have "qp_confirming s \<or> snd ce = KillStart"
    using remount_confirming(1) assms panel_do_confirming unfolding step by fastforce
  moreover have "kill_row s \<noteq> None" if "snd ce = KillStart"
    using that False panel_kills [of host_date tc _ _ s KillStart] by (cases "kill_row s") auto
  ultimately show ?thesis using remount_confirming(1) assms unfolding step by blast
qed

lemma confirmed_since:
  assumes run_def: "\<And>xs. run xs = foldl (panel_step host_date tc server host_msg) panel_mount xs"
    and "qp_confirming (run es)"
  shows "kill_row (run es) \<noteq> None \<and> (\<exists>n < length es. snd (es ! n) = KillStart
    \<and> kill_row (run (take n es)) = kill_row (run es)
    \<and> (\<forall>m \<in> {n<..length es}. kill_row (run (take m es)) = kill_row (run es) \<and> qp_confirming (run (take m es))))"
  using assms(2)
proof (induction es rule: rev_induct)
  case Nil
  then show ?case by (simp add: run_def panel_mount_def)
next
  case (snoc e es)
  let ?s = "run es" and ?t = "run (es @ [e])"
  have t: "?t = panel_step host_date tc server host_msg ?s e" by (simp add: run_def)
  have row: "kill_row ?t = kill_row ?s" and cs: "qp_confirming ?s \<or> snd e = KillStart \<and> kill_row ?s \<noteq> None"
    using panel_step_confirming snoc.prems unfolding t by blast+
  from cs have "kill_row ?s \<noteq> None" using snoc.IH by blast
  moreover have "\<exists>n < length (es @ [e]). snd ((es @ [e]) ! n) = KillStart
      \<and> kill_row (run (take n (es @ [e]))) = kill_row ?t
      \<and> (\<forall>m \<in> {n<..length (es @ [e])}. kill_row (run (take m (es @ [e]))) = kill_row ?t
            \<and> qp_confirming (run (take m (es @ [e]))))"
  proof (cases "snd e = KillStart")
    case True
    with row snoc.prems show ?thesis by (intro exI [of _ "length es"]) (auto simp: le_Suc_eq)
  next
    case False
    then obtain n where n: "n < length es" "snd (es ! n) = KillStart"
        "kill_row (run (take n es)) = kill_row ?s"
        "\<And>m. m \<in> {n<..length es} \<Longrightarrow> kill_row (run (take m es)) = kill_row ?s \<and> qp_confirming (run (take m es))"
      using cs snoc.IH by blast
    have "kill_row (run (take m (es @ [e]))) = kill_row ?t \<and> qp_confirming (run (take m (es @ [e])))"
      if "m \<in> {n<..length (es @ [e])}" for m
      using that row snoc.prems n(4) [of m] by (cases "m = Suc (length es)") auto
    with n row show ?thesis by (intro exI [of _ n]) (auto simp: nth_append)
  qed
  ultimately show ?case unfolding row by blast
qed

text \<open>
  C3. No query is killed without its confirmation: a kill request is sent only by the confirmation of a
  query that the table shows, while the server's last answer allows kills and the details of that query
  are open; the first step of the two was taken on this very query, and from then on, at every moment up
  to the confirmation and in every interleaving with polls, sorting, filtering and tab changes, the
  question stood open in the same mounted button: the query stayed at one position of the rows shown,
  open, with kills allowed. A poll, a sort or a filter that moves the row mounts a new, unconfirmed button.
\<close>

theorem kills_are_confirmed:
  "case foldl (panel_step host_date tc server host_msg) panel_mount es of s \<Rightarrow>
     (case panel_step host_date tc server host_msg s ce of s' \<Rightarrow>
       (if length (qp_kills s) < length (qp_kills s') then
          (case snd ce of
             KillConfirm q \<Rightarrow> map kl_query (qp_kills s') = map kl_query (qp_kills s) @ [q]
               \<and> q \<in> set (runRows s) \<and> canKill s
               \<and> (\<exists>i < length (runRows s). rq_query_id (runRows s ! i) = rq_query_id q
                   \<and> kill_row s = Some (i, rq_query_id q)
                   \<and> (\<exists>n < length es. snd (es ! n) = KillStart
                       \<and> kill_row (foldl (panel_step host_date tc server host_msg) panel_mount (take n es))
                           = Some (i, rq_query_id q)
                       \<and> list_all (\<lambda>m. case foldl (panel_step host_date tc server host_msg) panel_mount (take m es) of
                            t \<Rightarrow> kill_row t = Some (i, rq_query_id q) \<and> qp_confirming t
                              \<and> canKill t \<and> map rq_query_id (runRows t) ! i = rq_query_id q)
                          [Suc n..<Suc (length es)]))
           | _ \<Rightarrow> False)
        else True))"
proof -
  define run where "run = foldl (panel_step host_date tc server host_msg) panel_mount"
  define s where "s = run es"
  define s' where "s' = panel_step host_date tc server host_msg s ce"
  have kill: "\<exists>q i. snd ce = KillConfirm q \<and> map kl_query (qp_kills s') = map kl_query (qp_kills s) @ [q]
      \<and> q \<in> set (runRows s) \<and> canKill s \<and> kill_row s = Some (i, rq_query_id q) \<and> qp_confirming s"
    if more: "length (qp_kills s) < length (qp_kills s')"
  proof -
    have offered: "user_panel_event (snd ce) \<Longrightarrow>
        can_send (QueriesPanel host_date tc (fst (fst ce)) (snd (fst ce)) s) (snd ce)"
      and s': "qp_kills s' = qp_kills (panel_do server host_msg s (snd ce))"
      using more by (auto simp: s'_def panel_step_def split_beta remount_confirming(2) split: if_splits)
    obtain q where q: "snd ce = KillConfirm q" "qp_kills s' = qp_kills s @ [\<lparr>kl_query = q, kl_button = qp_button s\<rparr>]"
      using panel_do_kills more unfolding s' by blast
    with offered have "can_send (QueriesPanel host_date tc (fst (fst ce)) (snd (fst ce)) s) (snd ce)"
      by simp
    from panel_kills [OF this] show ?thesis using q
      by (auto simp: KillButton_sends split: if_splits)
  qed
  have at_row: "canKill t \<and> map rq_query_id (runRows t) ! i = x" if "kill_row t = Some (i, x)" for t i x
    using kill_row_at [OF that] that by (auto simp: kill_row_def split: if_splits)
  have since: "qp_confirming s \<Longrightarrow> \<exists>n < length es. snd (es ! n) = KillStart \<and> kill_row (run (take n es)) = kill_row s
      \<and> (\<forall>m \<in> {n<..length es}. kill_row (run (take m es)) = kill_row s \<and> qp_confirming (run (take m es)))"
    using confirmed_since [of run host_date tc server host_msg es] unfolding s_def run_def by blast
  show ?thesis
  proof (cases "length (qp_kills s) < length (qp_kills s')")
    case True
    from kill [OF True] obtain q i where q: "snd ce = KillConfirm q" "q \<in> set (runRows s)" "canKill s"
      "map kl_query (qp_kills s') = map kl_query (qp_kills s) @ [q]" "kill_row s = Some (i, rq_query_id q)"
      "qp_confirming s" by blast
    from since [OF q(6)] obtain n where n: "n < length es" "snd (es ! n) = KillStart"
      "kill_row (run (take n es)) = kill_row s"
      "\<forall>m \<in> {n<..length es}. kill_row (run (take m es)) = kill_row s \<and> qp_confirming (run (take m es))" by blast
    have "list_all (\<lambda>m. case run (take m es) of t \<Rightarrow> kill_row t = Some (i, rq_query_id q) \<and> qp_confirming t
        \<and> canKill t \<and> map rq_query_id (runRows t) ! i = rq_query_id q) [Suc n..<Suc (length es)]"
      using n(4) q(5) at_row by (fastforce simp: list_all_iff)
    with True q n kill_row_at [OF q(5)] show ?thesis
      unfolding run_def [symmetric] s_def [symmetric] s'_def [symmetric] by auto
  qed (unfold run_def [symmetric] s_def [symmetric] s'_def [symmetric], simp)
qed

text \<open>
  The other side of the two steps: a sort, a filter or a poll that moves the open row to another position
  drops a pending confirmation and the mark of a kill under way, although the same query stays open.
\<close>

lemma moved_row_unconfirmed:
  assumes "kill_row s = Some (i, x)" and "kill_row s' = Some (j, x)" and "i \<noteq> j"
  shows "\<not> qp_confirming (remount s s') \<and> \<not> qp_busy (remount s s')"
  using assms by (simp add: remount_def Let_def)

section \<open>The rows\<close>

lemma offered_cells [simp]:
  "offered (CellTD t x) = []" "offered (SqlTD q) = []" "offered (StateBadge st b) = []"
  by (simp_all add: CellTD_def SqlTD_def StateBadge_def Let_def)

fun row_event :: "'v panel_event \<Rightarrow> bool" where
  "row_event (RunExpand i) = True"
| "row_event (HistExpand i) = True"
| "row_event _ = False"

lemma no_row_events: "(\<And>e. e \<in> set (offered n) \<Longrightarrow> \<not> row_event e) \<Longrightarrow> filter row_event (offered n) = []"
  by (simp add: filter_empty_conv)

lemma detail_no_row [simp]:
  "filter row_event (offered (RunningDetail host_date s q now tc ic ck :: 'v panel_event node)) = []"
proof (rule no_row_events)
  fix e :: "'v panel_event"
  assume "e \<in> set (offered (RunningDetail host_date s q now tc ic ck))"
  then have "can_send (RunningDetail host_date s q now tc ic ck) e" by (simp add: can_send_def)
  then show "\<not> row_event e"
    using RunningDetail_sends [of host_date s q now tc ic ck e]
    by (cases "\<exists>t. e = CopyQuery t") (auto simp: KillButton_sends split: if_splits)
qed

lemma running_row_offers:
  "filter row_event (concat (map offered (running_row host_date s now tc q)))
    = [RunExpand (toggle_row (qp_runExpanded s) (rq_query_id q))]"
  by (simp add: running_row_def Let_def show_if_def obj_get_Cons)

lemma running_rows_offer:
  "filter row_event (concat (map offered (concat (map (running_row host_date s now tc) qs))))
    = map (\<lambda>q. RunExpand (toggle_row (qp_runExpanded s) (rq_query_id q))) qs"
  by (induction qs) (simp_all add: running_row_offers)

lemma run_header_offers [simp]: "offered (run_header s l k) = [RunSort k]"
  by (simp add: run_header_def QSortTH_def show_if_def)

lemma mset_sortQueries: "mset (sortQueries qs k d) = mset qs"
  by (simp add: sortQueries_def byNumeric_def)

text \<open>
  C40. The table of running queries is complete: whenever it is shown its rows, each of which opens and
  closes one query, are a permutation of those queries of the last answer that have the filter text, in
  any case, in their user, database, warehouse or statement.
\<close>

theorem running_rows_exact:
  "if running_table_shown s then
     (\<exists>qs. filter row_event (offered (RunningView host_date s now tc))
          = map (\<lambda>q. RunExpand (toggle_row (qp_runExpanded s) (rq_query_id q))) qs
        \<and> mset qs = mset (case rn_running (qp_run s) of None \<Rightarrow> []
            | Some r \<Rightarrow> filter (\<lambda>q. qp_filter s = []
                \<or> (\<exists>x. Some x \<in> {Some (rq_user q), rq_database q, rq_warehouse q, rq_sql q}
                    \<and> str_includes (to_lower (qp_filter s)) (to_lower x))) (qr_queries r)))
   else True"
proof -
  have matches: "run_matches f = (\<lambda>q. f = [] \<or> (\<exists>x. Some x \<in> {Some (rq_user q), rq_database q, rq_warehouse q, rq_sql q}
      \<and> str_includes (to_lower f) (to_lower x)))" for f
    by (rule ext) (auto simp: run_matches_def matchesFilter_def split: option.splits)
  have "mset (runRows s) = mset (case rn_running (qp_run s) of None \<Rightarrow> []
      | Some r \<Rightarrow> filter (run_matches (qp_filter s)) (qr_queries r))"
    by (simp add: runRows_def mset_sortQueries split: option.split)
  moreover have "filter row_event (offered (RunningView host_date s now tc))
      = map (\<lambda>q. RunExpand (toggle_row (qp_runExpanded s) (rq_query_id q))) (runRows s)" if "running_table_shown s"
    using that by (simp add: RunningView_def Let_def running_table_shown_def running_rows_offer obj_get_Cons)
  ultimately show ?thesis unfolding matches by auto
qed

text \<open>The reference time is the server's, whatever the browser's clock says: it stands still between polls.\<close>

lemma panel_clock_stands:
  assumes "qp_tab s = RunningTab" and "rn_running (qp_run s) = Some r" and "qr_server_now r = Some t"
    and "t \<noteq> []" and "parseAsUtc host_date t = Some ms"
  shows "panel_now host_date browser s = ms"
  using assms by (simp add: panel_now_def clockSkewMs_def skewedNow_def)

text \<open>The answer of a kill closes whatever row is open by then.\<close>

lemma kill_answer_collapses:
  "i < length (qp_kills s) \<Longrightarrow> qp_runExpanded (kill_answer host_msg i (Inr ()) s) = None"
  by (simp add: kill_answer_def Let_def)

end
