(* ===== verification/Permission_Matrix.thy ===== *)
theory Permission_Matrix
  imports Inventory_Ui Wizard_View Async_Hooks Api_Calls
begin

text \<open>
  \<open>components/tabs/PermissionMatrix.tsx\<close>: who holds which privilege on an object, and the cells
  from which a direct grant can be revoked. The event of such a cell is the prefill with which it opens
  the grant wizard. The rows are grouped in a plain object, so a grantee with the name of a member of
  \<open>Object.prototype\<close> is an exception of the render, here \<open>None\<close>.
\<close>

section \<open>Names\<close>

definition GranteeName :: "string \<Rightarrow> privilege_grant list \<Rightarrow> 'e node" where
  "GranteeName name grants =
     (let isRole = (case grants of [] \<Rightarrow> False | g # _ \<Rightarrow> pg_grantee_type g = ''ROLE''); p = parseGrantee name in
      if truthy (pa_hostLabel p) then box [InlineIcon ''user'', box [Txt (pa_uname p)],
        box [Txt (''('' @ nullish (pa_hostLabel p) [] @ '')'')]]
      else box [InlineIcon (if isRole then ''role'' else ''user''), Txt name])"

section \<open>The groups\<close>

definition REVOCABLE_TYPES :: "string list" where
  "REVOCABLE_TYPES = [''CATALOG'', ''DATABASE'', ''TABLE'', ''VIEW'', ''MATERIALIZED VIEW'', ''FUNCTION'']"

definition granteeMap :: "privilege_grant list \<Rightarrow> privilege_grant list jsobj option" where
  "granteeMap grants = (if list_ex (\<lambda>g. pg_grantee g \<in> set PROTO_MEMBERS) grants then None
     else Some (foldl (\<lambda>m g. obj_push (pg_grantee g) g m) [] grants))"

definition upper_types :: "privilege_grant list \<Rightarrow> string list" where
  "upper_types gg = dedup (map (\<lambda>g. to_upper (pg_privilege_type g)) gg)"

definition publicPrivs :: "privilege_grant list jsobj \<Rightarrow> string list" where
  "publicPrivs m = upper_types (obj_bucket m ''public'')"

definition shown_grantees :: "privilege_grant list jsobj \<Rightarrow> string list option \<Rightarrow> string list" where
  "shown_grantees m filterGrantees =
     (let ns = filter (\<lambda>n. n \<noteq> ''public'' \<and>
             list_ex (\<lambda>g. to_upper (pg_privilege_type g) \<notin> set (publicPrivs m)) (obj_bucket m n)) (obj_keys m)
      in case filterGrantees of None \<Rightarrow> ns | Some fs \<Rightarrow> filter (\<lambda>n. n \<in> set fs) ns)"

section \<open>Cells\<close>

definition revokeFromCell :: "grant_object_ref option \<Rightarrow> privilege_grant \<Rightarrow> wizard_prefill" where
  "revokeFromCell objectRef g = \<lparr>wp_action = Some Revoke,
     wp_grantee = Some \<lparr>ge_name = pg_grantee g, ge_type = (if pg_grantee_type g = ''ROLE'' then GRole else GUser)\<rparr>,
     wp_object = Some (nullish objectRef \<lparr>go_object_type = pg_object_type g,
       go_catalog = Some (nullish (pg_object_catalog g) ''default_catalog''),
       go_database = pg_object_database g, go_name = pg_object_name g\<rparr>),
     wp_privileges = Some [pg_privilege_type g]\<rparr>"

definition cell_grant :: "privilege_grant list \<Rightarrow> string \<Rightarrow> privilege_grant option" where
  "cell_grant gg col = List.find (\<lambda>g. to_upper (pg_privilege_type g) = to_upper col) gg"

definition hasAll :: "privilege_grant list \<Rightarrow> bool" where
  "hasAll gg \<longleftrightarrow> ''ALL'' \<in> set (upper_types gg) \<or> ''ALL PRIVILEGES'' \<in> set (upper_types gg)"

definition revokeSupported :: "grant_object_ref option \<Rightarrow> string \<Rightarrow> bool" where
  "revokeSupported objectRef objectType \<longleftrightarrow>
     to_upper (case objectRef of Some r \<Rightarrow> go_object_type r | None \<Rightarrow> objectType) \<in> set REVOCABLE_TYPES"

definition no_cell :: "'e node" where
  "no_cell = El ''td'' [] [] [Txt ''-'']"

definition revocable_grant ::
  "bool \<Rightarrow> grant_object_ref option \<Rightarrow> string \<Rightarrow> privilege_grant list \<Rightarrow> string \<Rightarrow> privilege_grant option" where
  "revocable_grant canManage objectRef objectType gg col = (case cell_grant gg col of
      None \<Rightarrow> None
    | Some g \<Rightarrow> (if canManage \<and> revokeSupported objectRef objectType \<and> pg_source g = ''direct''
          \<and> (case objectRef of None \<Rightarrow> True | Some r \<Rightarrow> pg_object_type g = go_object_type r)
        then Some g else None))"

definition matrix_cell ::
  "bool \<Rightarrow> grant_object_ref option \<Rightarrow> string \<Rightarrow> string \<Rightarrow> privilege_grant list \<Rightarrow> string \<Rightarrow> wizard_prefill node" where
  "matrix_cell canManage objectRef objectType grantee gg col =
     (if \<not> (hasAll gg \<or> to_upper col \<in> set (upper_types gg)) then no_cell
      else let isD = (case cell_grant gg col of Some g \<Rightarrow> pg_source g = ''direct'' | None \<Rightarrow> hasAll gg);
               badge = (if isD then ''D'' else ''I'')
        in case revocable_grant canManage objectRef objectType gg col of
            Some g \<Rightarrow> El ''td'' [] [] [El ''span'' [(''data-testid'', ''matrix-revoke-cell''),
                (''title'', ''Revoke '' @ col @ '' from '' @ grantee)] [revokeFromCell objectRef g] [Txt badge]]
          | None \<Rightarrow> El ''td'' [] [] [El ''span'' [] [] [Txt badge]])"

definition public_row :: "string list \<Rightarrow> string list \<Rightarrow> string \<Rightarrow> 'e node" where
  "public_row columns privSet label = El ''tr'' [] [] (El ''td'' [] [] [Txt label] #
     map (\<lambda>col. if to_upper col \<notin> set privSet then no_cell else El ''td'' [] [] [El ''span'' [] [] [Txt ''I'']]) columns)"

section \<open>The views\<close>

definition columns_of :: "string \<Rightarrow> string list" where
  "columns_of objectType =
     nullish (obj_get PRIV_BY_TYPE (or_else (obj_get PRIV_KEY_MAP objectType) ''table'')) []"

definition matrix_row ::
  "bool \<Rightarrow> grant_object_ref option \<Rightarrow> string \<Rightarrow> privilege_grant list jsobj \<Rightarrow> string \<Rightarrow> wizard_prefill node" where
  "matrix_row canManage objectRef objectType m n = (let gg = obj_bucket m n in
     El ''tr'' [] [] (El ''td'' [] [] [GranteeName n gg]
       # map (matrix_cell canManage objectRef objectType n gg) (columns_of objectType)))"

definition PermissionMatrixView ::
  "bool \<Rightarrow> privilege_grant list \<Rightarrow> string \<Rightarrow> string list option \<Rightarrow> grant_object_ref option
    \<Rightarrow> wizard_prefill node option" where
  "PermissionMatrixView canManage grants objectType filterGrantees objectRef =
     map_option (\<lambda>m.
       let columns = columns_of objectType; pub = publicPrivs m; ns = shown_grantees m filterGrantees in
       if ns = [] \<and> pub = [] then box [Txt ''No privilege grants found'']
       else El ''table'' [] []
        [El ''tr'' [] [] (El ''th'' [] [] [Txt ''Grantee'']
           # map (\<lambda>c. El ''th'' [] [] [Txt (if starts_with ''CREATE'' c then ''CREATE'' else c)]) columns),
         box (show_if (pub \<noteq> []) [public_row columns pub ''All Roles'', public_row columns pub ''All Users'']
           @ map (matrix_row canManage objectRef objectType m) ns)])
     (granteeMap grants)"

text \<open>The pane asks for the grants of an object and shows the answer under that object's name.\<close>

record pane_object =
  po_catalog :: "string option"
  po_database :: "string option"
  po_name :: string
  po_objectType :: string

definition pane_call :: "perm_base \<Rightarrow> pane_object \<Rightarrow> api_call" where
  "pane_call base p = (let t = po_objectType p in getObjectPrivileges base
     (if t = ''CATALOG'' then Some (po_name p) else po_catalog p)
     (if t = ''DATABASE'' then Some (po_name p) else if t = ''CATALOG'' then None else po_database p)
     (if t = ''DATABASE'' \<or> t = ''CATALOG'' then None else if po_name p = [] then None else Some (po_name p))
     (Some t))"

definition pane_ref :: "pane_object \<Rightarrow> grant_object_ref" where
  "pane_ref p = (let t = po_objectType p in \<lparr>go_object_type = t,
     go_catalog = Some (if t = ''CATALOG'' then po_name p else or_else (po_catalog p) ''default_catalog''),
     go_database = (if t = ''CATALOG'' then None else if t = ''DATABASE'' then Some (po_name p) else po_database p),
     go_name = (if t = ''CATALOG'' \<or> t = ''DATABASE'' then None else Some (po_name p))\<rparr>)"

definition ObjectPrivilegesPane ::
  "bool \<Rightarrow> pane_object \<Rightarrow> privilege_grant list async_data \<Rightarrow> wizard_prefill node option" where
  "ObjectPrivilegesPane canManage p res =
     (if ar_loading res \<and> ar_data res = None then Some Loader
      else PermissionMatrixView canManage (nullish (ar_data res) []) (po_objectType p) None (Some (pane_ref p)))"

section \<open>Lemmas\<close>

lemma GranteeName_sends [simp]: "\<not> can_send (GranteeName n gg) e"
  by (simp add: GranteeName_def Let_def)

lemma no_cell_sends [simp]: "\<not> can_send no_cell e"
  by (simp add: no_cell_def)

lemma public_row_sends [simp]: "\<not> can_send (public_row cols ps l) e"
  by (auto simp: public_row_def split: if_splits)

lemma cell_grant_some: "cell_grant gg col = Some g \<Longrightarrow> g \<in> set gg \<and> to_upper (pg_privilege_type g) = to_upper col"
  by (auto simp: cell_grant_def find_Some_iff)

lemma set_upper_types [simp]: "set (upper_types gg) = (\<lambda>g. to_upper (pg_privilege_type g)) ` set gg"
  by (auto simp: upper_types_def)

lemma matrix_cell_sends:
  "can_send (matrix_cell canManage ref t n gg col) e \<longleftrightarrow>
     (\<exists>g. revocable_grant canManage ref t gg col = Some g \<and> e = revokeFromCell ref g)"
proof (cases "revocable_grant canManage ref t gg col")
  case (Some g)
  then have "cell_grant gg col = Some g" by (auto simp: revocable_grant_def split: option.splits if_splits)
  from cell_grant_some [OF this] have "to_upper col \<in> set (upper_types gg)" by force
  then show ?thesis using Some by (simp add: matrix_cell_def Let_def obj_get_Cons)
qed (simp add: matrix_cell_def Let_def)

lemma granteeMap_bucket:
  assumes "granteeMap grants = Some m"
  shows "obj_bucket m n = filter (\<lambda>g. pg_grantee g = n) grants"
  using assms js_groups.bucket_fold [of pg_grantee "\<lambda>g. g" "[]" grants]
  by (auto simp: granteeMap_def split: if_splits)

lemma matrix_row_sends:
  assumes "granteeMap grants = Some m"
  shows "can_send (matrix_row canManage ref t m k) e \<longleftrightarrow> (\<exists>col \<in> set (columns_of t). \<exists>g.
    revocable_grant canManage ref t (filter (\<lambda>g. pg_grantee g = k) grants) col = Some g \<and> e = revokeFromCell ref g)"
  by (simp add: matrix_row_def Let_def matrix_cell_sends granteeMap_bucket [OF assms] bex_Un)

lemma matrix_sends:
  assumes "PermissionMatrixView canManage grants t fs ref = Some n" and m: "granteeMap grants = Some m"
  shows "can_send n e \<longleftrightarrow> (\<exists>k \<in> set (shown_grantees m fs). can_send (matrix_row canManage ref t m k) e)"
proof -
  have "\<not> can_send x e" if "x \<in> set (show_if b [public_row c ps l, public_row c ps l'])" for x b c ps l l'
    using that by auto
  then show ?thesis using assms(1)
    by (auto simp: PermissionMatrixView_def m Let_def bex_Un split: if_splits)
qed

lemma revocable_grant_some:
  assumes "revocable_grant canManage (Some ref) t (filter (\<lambda>g. pg_grantee g = k) grants) col = Some g"
  shows "canManage \<and> g \<in> set grants \<and> pg_source g = ''direct'' \<and> pg_object_type g = go_object_type ref
    \<and> to_upper (pg_privilege_type g) = to_upper col \<and> pg_grantee g = k
    \<and> to_upper (go_object_type ref) \<in> set REVOCABLE_TYPES"
  using assms cell_grant_some [of "filter (\<lambda>g. pg_grantee g = k) grants" col g]
  by (auto simp: revocable_grant_def revokeSupported_def split: option.splits if_splits)

lemma revoke_request:
  assumes "object_ok ref" and "clean (pg_grantee g)"
  shows "buildRequest (initial_form (Some (revokeFromCell (Some ref) g))) = Some \<lparr>gq_action = Revoke, gq_type = Privilege,
    gq_grantee = \<lparr>ge_name = pg_grantee g, ge_type = (if pg_grantee_type g = ''ROLE'' then GRole else GUser)\<rparr>,
    gq_object = Some ref, gq_privileges = Some [pg_privilege_type g], gq_role = None, gq_with_grant_option = Some False\<rparr>"
proof -
  obtain t c d n where ref: "ref = \<lparr>go_object_type = t, go_catalog = c, go_database = d, go_name = n\<rparr>" by (cases ref)
  have form: "initial_form (Some (revokeFromCell (Some ref) g)) = \<lparr>gf_action = Revoke, gf_grantType = Privilege,
     gf_granteeName = pg_grantee g, gf_granteeType = (if pg_grantee_type g = ''ROLE'' then GRole else GUser),
     gf_objectType = t, gf_catalog = nullish c ''default_catalog'', gf_database = nullish d [], gf_objName = nullish n [],
     gf_privileges = [pg_privilege_type g], gf_withGrantOption = False, gf_role = [], gf_keepOpen = False\<rparr>"
    by (simp add: initial_form_def revokeFromCell_def obj_field_def ref dedup_def set_add_def)
  show ?thesis unfolding form using assms
    by (cases c; cases d; cases n)
      (auto simp: buildRequest_def Let_def object_ok_def clean_def ref needsDb_def needsName_def)
qed

text \<open>What can be clicked, with the text that a hover shows.\<close>

fun titled :: "'e node \<Rightarrow> (string option \<times> 'e) list" where
  "titled (Txt t) = []"
| "titled (Field tid v ro f opts) = map (\<lambda>e. (None, e)) (map snd opts)"
| "titled (El tg as es ns) =
     (if obj_get as ''disabled'' = Some ''true'' then [] else map (Pair (obj_get as ''title'')) es) @ concat (map titled ns)"

lemma map_snd_titled: "map snd (titled n) = offered n"
  by (induction n) (auto simp: comp_def map_concat cong: map_cong)

lemma titled_box [simp]: "titled (box ns) = concat (map titled ns)"
  by (simp add: box_def)

lemma GranteeName_titled [simp]: "titled (GranteeName n gg) = []" "typed (GranteeName n gg) = []"
  by (simp_all add: GranteeName_def Let_def box_def InlineIcon_def)

lemma no_cell_titled [simp]: "titled no_cell = []" "typed no_cell = []"
  by (simp_all add: no_cell_def)

lemma public_row_titled [simp]: "titled (public_row cols ps l) = []" "typed (public_row cols ps l) = []"
  by (auto simp: public_row_def)

lemma matrix_cell_titled:
  "titled (matrix_cell canManage ref t k gg col) = (case revocable_grant canManage ref t gg col of
     None \<Rightarrow> [] | Some g \<Rightarrow> [(Some (''Revoke '' @ col @ '' from '' @ k), revokeFromCell ref g)])"
  "typed (matrix_cell canManage ref t k gg col) = []"
proof -
  have "to_upper col \<in> set (upper_types gg)" if "revocable_grant canManage ref t gg col = Some g" for g
  proof -
    from that have "cell_grant gg col = Some g" by (auto simp: revocable_grant_def split: option.splits if_splits)
    from cell_grant_some [OF this] show ?thesis by force
  qed
  then show "titled (matrix_cell canManage ref t k gg col) = (case revocable_grant canManage ref t gg col of
     None \<Rightarrow> [] | Some g \<Rightarrow> [(Some (''Revoke '' @ col @ '' from '' @ k), revokeFromCell ref g)])"
    by (auto simp: matrix_cell_def Let_def obj_get_Cons split: option.splits)
  show "typed (matrix_cell canManage ref t k gg col) = []"
    by (auto simp: matrix_cell_def Let_def split: option.splits)
qed

text \<open>The grant behind a cell: the first of the list with its grantee and its privilege.\<close>

lemma find_filter: "find P (filter Q xs) = find (\<lambda>x. Q x \<and> P x) xs"
  by (induction xs) auto

lemma revocable_grant_raw:
  "revocable_grant canManage (Some ref) t (filter (\<lambda>g. pg_grantee g = k) grants) col =
     (case find (\<lambda>g. pg_grantee g = k \<and> to_upper (pg_privilege_type g) = to_upper col) grants of
        None \<Rightarrow> None
      | Some g \<Rightarrow> if canManage \<and> pg_source g = ''direct'' \<and> pg_object_type g = go_object_type ref
            \<and> to_upper (go_object_type ref) \<in> set REVOCABLE_TYPES then Some g else None)"
  by (auto simp: revocable_grant_def cell_grant_def find_filter revokeSupported_def split: option.splits)

lemma matrix_row_titled:
  assumes "granteeMap grants = Some m"
  shows "titled (matrix_row canManage ref t m k) = concat (map (\<lambda>col.
      case revocable_grant canManage ref t (filter (\<lambda>g. pg_grantee g = k) grants) col of
        None \<Rightarrow> [] | Some g \<Rightarrow> [(Some (''Revoke '' @ col @ '' from '' @ k), revokeFromCell ref g)]) (columns_of t))"
    and "typed (matrix_row canManage ref t m k) = []"
  by (auto simp: matrix_row_def Let_def matrix_cell_titled granteeMap_bucket [OF assms] comp_def)

lemma matrix_titled:
  assumes "PermissionMatrixView canManage grants t fs ref = Some n" and m: "granteeMap grants = Some m"
  shows "titled n = concat (map (\<lambda>k. titled (matrix_row canManage ref t m k)) (shown_grantees m fs))"
    and "typed n = []"
  using assms(1) by (auto simp: PermissionMatrixView_def m Let_def show_if_def comp_def matrix_row_titled(2) [OF m])

text \<open>The rows, from the list of grants alone.\<close>

lemma shown_grantees_raw:
  assumes m: "granteeMap grants = Some m"
  shows "distinct (shown_grantees m fs)"
    and "set (shown_grantees m fs) = {k. k \<noteq> ''public''
      \<and> (\<exists>g \<in> set grants. pg_grantee g = k \<and> (\<forall>h \<in> set grants. pg_grantee h = ''public'' \<longrightarrow>
            to_upper (pg_privilege_type h) \<noteq> to_upper (pg_privilege_type g)))
      \<and> (case fs of None \<Rightarrow> True | Some f \<Rightarrow> k \<in> set f)}"
proof -
  have m': "m = foldl (\<lambda>m g. obj_push (pg_grantee g) g m) [] grants"
    using m by (auto simp: granteeMap_def split: if_splits)
  have "distinct (obj_keys m)" unfolding m'
    using distinct_fold_obj_push_guarded [of "[]" "\<lambda>_. True" pg_grantee "\<lambda>g. g" grants] by simp
  then show "distinct (shown_grantees m fs)"
    by (auto simp: shown_grantees_def Let_def split: option.splits)
  have keys: "set (obj_keys m) = pg_grantee ` set grants"
    unfolding m' using dom_fold_obj_push [of pg_grantee "\<lambda>g. g" "[]" grants] by simp
  have pub: "u \<in> set (publicPrivs m) \<longleftrightarrow>
      (\<exists>h \<in> set grants. pg_grantee h = ''public'' \<and> to_upper (pg_privilege_type h) = u)" for u
    by (auto simp: publicPrivs_def granteeMap_bucket [OF m])
  have some: "list_ex (\<lambda>g. to_upper (pg_privilege_type g) \<notin> set (publicPrivs m)) (obj_bucket m k)
      \<longleftrightarrow> (\<exists>g \<in> set grants. pg_grantee g = k \<and> (\<forall>h \<in> set grants. pg_grantee h = ''public'' \<longrightarrow>
            to_upper (pg_privilege_type h) \<noteq> to_upper (pg_privilege_type g)))" for k
    unfolding pub granteeMap_bucket [OF m] list_ex_iff by simp blast
  show "set (shown_grantees m fs) = {k. k \<noteq> ''public''
      \<and> (\<exists>g \<in> set grants. pg_grantee g = k \<and> (\<forall>h \<in> set grants. pg_grantee h = ''public'' \<longrightarrow>
            to_upper (pg_privilege_type h) \<noteq> to_upper (pg_privilege_type g)))
      \<and> (case fs of None \<Rightarrow> True | Some f \<Rightarrow> k \<in> set f)}"
    unfolding shown_grantees_def Let_def some
    by (cases fs) (simp_all only: option.case set_filter keys, blast+)
qed

section \<open>Properties\<close>

text \<open>
  C13. The whole matrix, from its cells to their requests. Its rows are the grantees other than \<open>public\<close>
  who hold something that \<open>public\<close> does not, within the filter. The cell in the row of \<open>k\<close> under the
  privilege \<open>col\<close> can be clicked exactly when the user may manage grants, the first grant of the list that
  gives \<open>col\<close> to \<open>k\<close> is a direct one made on the type of the matrix's object, and this type can be
  revoked on. A hover then says what is revoked from whom, and the wizard it opens is complete: its
  request revokes exactly this privilege from exactly this grantee, on the object the matrix is shown for
  (the grant's own object is not looked at), without a grant option. Nothing else can be clicked or typed.
\<close>

theorem matrix_cell_revokes:
  assumes "PermissionMatrixView canManage grants t fs (Some ref) = Some n"
    and "object_ok ref" and "list_all (\<lambda>g. clean (pg_grantee g)) grants"
  shows "typed n = [] \<and> (\<exists>ks. distinct ks
    \<and> set ks = {k. k \<noteq> ''public''
        \<and> (\<exists>g \<in> set grants. pg_grantee g = k \<and> (\<forall>h \<in> set grants. pg_grantee h = ''public'' \<longrightarrow>
              to_upper (pg_privilege_type h) \<noteq> to_upper (pg_privilege_type g)))
        \<and> (case fs of None \<Rightarrow> True | Some f \<Rightarrow> k \<in> set f)}
    \<and> map (\<lambda>(title, p). (title, buildRequest (initial_form (Some p)))) (titled n)
        = concat (map (\<lambda>k. concat (map (\<lambda>col.
            case find (\<lambda>g. pg_grantee g = k \<and> to_upper (pg_privilege_type g) = to_upper col) grants of
              None \<Rightarrow> []
            | Some g \<Rightarrow> if canManage \<and> pg_source g = ''direct'' \<and> pg_object_type g = go_object_type ref
                  \<and> to_upper (go_object_type ref) \<in> set REVOCABLE_TYPES
                then [(Some (''Revoke '' @ col @ '' from '' @ k), Some \<lparr>gq_action = Revoke, gq_type = Privilege,
                  gq_grantee = \<lparr>ge_name = k, ge_type = (if pg_grantee_type g = ''ROLE'' then GRole else GUser)\<rparr>,
                  gq_object = Some ref, gq_privileges = Some [pg_privilege_type g], gq_role = None,
                  gq_with_grant_option = Some False\<rparr>)]
                else []) (columns_of t))) ks))"
proof -
  obtain m where m: "granteeMap grants = Some m"
    using assms(1) by (auto simp: PermissionMatrixView_def)
  have cell: "map (\<lambda>(title, p). (title, buildRequest (initial_form (Some p))))
        (case revocable_grant canManage (Some ref) t (filter (\<lambda>g. pg_grantee g = k) grants) col of
          None \<Rightarrow> [] | Some g \<Rightarrow> [(Some (''Revoke '' @ col @ '' from '' @ k), revokeFromCell (Some ref) g)])
      = (case find (\<lambda>g. pg_grantee g = k \<and> to_upper (pg_privilege_type g) = to_upper col) grants of
          None \<Rightarrow> []
        | Some g \<Rightarrow> if canManage \<and> pg_source g = ''direct'' \<and> pg_object_type g = go_object_type ref
              \<and> to_upper (go_object_type ref) \<in> set REVOCABLE_TYPES
            then [(Some (''Revoke '' @ col @ '' from '' @ k), Some \<lparr>gq_action = Revoke, gq_type = Privilege,
              gq_grantee = \<lparr>ge_name = k, ge_type = (if pg_grantee_type g = ''ROLE'' then GRole else GUser)\<rparr>,
              gq_object = Some ref, gq_privileges = Some [pg_privilege_type g], gq_role = None,
              gq_with_grant_option = Some False\<rparr>)]
            else [])" for k col
  proof (cases "find (\<lambda>g. pg_grantee g = k \<and> to_upper (pg_privilege_type g) = to_upper col) grants")
    case (Some g)
    then have "g \<in> set grants \<and> pg_grantee g = k" by (auto simp: find_Some_iff)
    with assms(3) have "clean (pg_grantee g)" "pg_grantee g = k" by (auto simp: list_all_iff)
    with Some show ?thesis by (simp add: revocable_grant_raw revoke_request [OF assms(2)])
  qed (simp add: revocable_grant_raw)
  show ?thesis
    by (intro conjI exI [of _ "shown_grantees m fs"])
      (simp_all only: matrix_titled [OF assms(1) m] matrix_row_titled [OF m] shown_grantees_raw [OF m]
        map_concat map_map comp_def cell)
qed

definition matrix_sample :: "string \<Rightarrow> string \<Rightarrow> privilege_grant" where
  "matrix_sample n src = \<lparr>pg_grantee = n, pg_grantee_type = ''ROLE'', pg_object_catalog = Some ''c'',
     pg_object_database = Some ''d'', pg_object_name = Some ''t'', pg_object_type = ''TABLE'',
     pg_privilege_type = ''SELECT'', pg_is_grantable = False, pg_source = src\<rparr>"

definition sample_ref :: grant_object_ref where
  "sample_ref = \<lparr>go_object_type = ''TABLE'', go_catalog = Some ''c'', go_database = Some ''d'', go_name = Some ''t''\<rparr>"

lemma singleton_rows: "distinct ks \<Longrightarrow> set ks = {k} \<Longrightarrow> ks = [k]"
  by (cases ks rule: list.exhaust; cases "tl ks") auto

lemma matrix_cell_revokes_witness:
  "map_option (\<lambda>n. map (\<lambda>(title, p). (title, buildRequest (initial_form (Some p)))) (titled n))
     (PermissionMatrixView True [matrix_sample ''analyst'' ''direct''] ''TABLE'' None (Some sample_ref))
   = Some [(Some ''Revoke SELECT from analyst'', Some \<lparr>gq_action = Revoke, gq_type = Privilege,
       gq_grantee = \<lparr>ge_name = ''analyst'', ge_type = GRole\<rparr>, gq_object = Some sample_ref,
       gq_privileges = Some [''SELECT''], gq_role = None, gq_with_grant_option = Some False\<rparr>)]"
proof -
  let ?g = "matrix_sample ''analyst'' ''direct''"
  have g: "pg_grantee ?g = ''analyst''" "pg_source ?g = ''direct''" "pg_object_type ?g = go_object_type sample_ref"
    "pg_grantee_type ?g = ''ROLE''" "pg_privilege_type ?g = ''SELECT''"
    by (simp_all add: matrix_sample_def sample_ref_def)
  have "PermissionMatrixView True [?g] ''TABLE'' None (Some sample_ref) \<noteq> None" by code_simp
  then obtain n where n: "PermissionMatrixView True [?g] ''TABLE'' None (Some sample_ref) = Some n" by auto
  have "object_ok sample_ref" "list_all (\<lambda>g. clean (pg_grantee g)) [?g]"
    by (simp_all add: object_ok_def clean_def sample_ref_def matrix_sample_def trim_def is_ws_def)
  note all = matrix_cell_revokes [OF n this]
  let ?revoke = "\<lambda>k col. case find (\<lambda>g. pg_grantee g = k \<and> to_upper (pg_privilege_type g) = to_upper col) [?g] of
              None \<Rightarrow> []
            | Some g \<Rightarrow> if True \<and> pg_source g = ''direct'' \<and> pg_object_type g = go_object_type sample_ref
                  \<and> to_upper (go_object_type sample_ref) \<in> set REVOCABLE_TYPES
                then [(Some (''Revoke '' @ col @ '' from '' @ k), Some \<lparr>gq_action = Revoke, gq_type = Privilege,
                  gq_grantee = \<lparr>ge_name = k, ge_type = (if pg_grantee_type g = ''ROLE'' then GRole else GUser)\<rparr>,
                  gq_object = Some sample_ref, gq_privileges = Some [pg_privilege_type g], gq_role = None,
                  gq_with_grant_option = Some False\<rparr>)]
                else []"
  from all obtain ks where ks: "distinct ks" and rows: "set ks = {k. k \<noteq> ''public''
        \<and> (\<exists>g \<in> set [?g]. pg_grantee g = k \<and> (\<forall>h \<in> set [?g]. pg_grantee h = ''public'' \<longrightarrow>
              to_upper (pg_privilege_type h) \<noteq> to_upper (pg_privilege_type g)))
        \<and> (case None of None \<Rightarrow> True | Some f \<Rightarrow> k \<in> set f)}"
    and eq: "map (\<lambda>(title, p). (title, buildRequest (initial_form (Some p)))) (titled n)
        = concat (map (\<lambda>k. concat (map (?revoke k) (columns_of ''TABLE''))) ks)"
    by (elim conjE exE) iprover
  from rows have "set ks = {''analyst''}" by (auto simp: g)
  with ks have "ks = [''analyst'']"
    by (rule singleton_rows)
  moreover have "concat (map (?revoke ''analyst'') (columns_of ''TABLE''))
      = [(Some ''Revoke SELECT from analyst'', Some \<lparr>gq_action = Revoke, gq_type = Privilege,
       gq_grantee = \<lparr>ge_name = ''analyst'', ge_type = GRole\<rparr>, gq_object = Some sample_ref,
       gq_privileges = Some [''SELECT''], gq_role = None, gq_with_grant_option = Some False\<rparr>)]"
    by code_simp
  ultimately show ?thesis unfolding n option.map eq by simp
qed

text \<open>
  A cell looks at the first grant of a privilege only: a direct grant listed after an inherited one
  cannot be revoked here, and a grantee all of whose privileges \<open>public\<close> has as well is not shown.
\<close>

lemma direct_grant_hidden:
  "map_option offered (PermissionMatrixView True [matrix_sample ''a'' ''inherited'', matrix_sample ''a'' ''direct'']
     ''TABLE'' None (Some sample_ref)) = Some []"
  "map_option offered (PermissionMatrixView True [matrix_sample ''public'' ''direct'', matrix_sample ''a'' ''direct'']
     ''TABLE'' None (Some sample_ref)) = Some []"
  by code_simp+

lemma inherited_name_crashes: "PermissionMatrixView True [matrix_sample ''constructor'' ''direct''] ''TABLE'' fs ref = None"
  by (simp add: PermissionMatrixView_def granteeMap_def PROTO_MEMBERS_def matrix_sample_def)

text \<open>
  While the answer for another object is awaited the pane keeps the previous grants, but names the new
  object: the cell of a grant on the old object opens a revoke on the new one.
\<close>

lemma stale_grants_new_object:
  "map_option offered (ObjectPrivilegesPane True
      \<lparr>po_catalog = Some ''c'', po_database = Some ''d'', po_name = ''new'', po_objectType = ''TABLE''\<rparr>
      (async_result True (async_render True (1 :: nat) (async_settle 0 (Inr [matrix_sample ''a'' ''direct'']) (async_mount True 0)))))
   = Some [revokeFromCell (Some (sample_ref\<lparr>go_name := Some ''new''\<rparr>)) (matrix_sample ''a'' ''direct'')]"
  by code_simp

end
