(* ===== verification/Detail_Panes.thy ===== *)
theory Detail_Panes
  imports Permission_Matrix Grant_Display Query_Utils
begin

text \<open>
  The detail panel of the inventory: \<open>components/tabs/InventoryDetailPanel.tsx\<close>, the panes of
  \<open>components/tabs/panes\<close> and \<open>components/common/GrantTreeView.tsx\<close>, as views of what their data
  hooks give them. The locale's rendering of a number and the SQL formatter are parameters.
\<close>

section \<open>Grant trees (GrantTreeView.tsx)\<close>

definition priv_tag :: "string \<Rightarrow> 'e node" where
  "priv_tag p = El ''span'' [(''color'', tc_fg (getPrivColor p))] [] [Txt p]"

definition item_node :: "display_item \<Rightarrow> 'e node" where
  "item_node it = box (Txt (di_displayName it) # show_if (di_context it \<noteq> []) [Txt (di_context it)]
     @ [box (map priv_tag (di_privs it))])"

definition scope_node :: "display_group \<Rightarrow> 'e node" where
  "scope_node g = box (InlineIcon (dg_icon g) # Txt (dg_scope g)
     # Txt (''('' @ nat_str (length (dg_items g)) @ '')'') # map item_node (dg_items g))"

definition GrantTreeView ::
  "display_group list \<Rightarrow> string option \<Rightarrow> nat option \<Rightarrow> string list option \<Rightarrow> 'e node" where
  "GrantTreeView groups title totalGrants sourceRoles = box (
     (if truthy title then [Txt (the title @ (case totalGrants of None \<Rightarrow> []
        | Some n \<Rightarrow> '' ('' @ nat_str n @ '' grants)''))] else [])
     @ (case sourceRoles of None \<Rightarrow> [] | Some rs \<Rightarrow> show_if (rs \<noteq> []) (Txt ''Inherited from'' # map Txt rs))
     @ show_if (groups = []) [Txt ''No grants found'']
     @ map scope_node groups)"

section \<open>Object panes (objectPanes.tsx)\<close>

datatype pane_event = OpenWizard wizard_prefill | SetDetailTab string | ClosePanel | SetRulePage nat

text \<open>\<open>loading && data == null\<close>\<close>

definition awaiting :: "'d async_data \<Rightarrow> bool" where
  "awaiting res \<longleftrightarrow> ar_loading res \<and> ar_data res = None"

definition meta_if ::
  "(string \<Rightarrow> string option) \<Rightarrow> string \<Rightarrow> string option \<Rightarrow> 'e node list" where
  "meta_if sqlFormat label v = (if truthy v then MetaItem sqlFormat label (the v) else [])"

definition distInfo :: "table_detail \<Rightarrow> string option" where
  "distInfo d = (if truthy (td_distribution_type d) then Some (the (td_distribution_type d) @ ''(''
       @ join '', '' (nullish (td_bucket_keys d) []) @ '') '' @ times_sign @ '' ''
       @ (case td_bucket_count d of None \<Rightarrow> ''?'' | Some n \<Rightarrow> int_str n) @ '' buckets'')
     else None)"

definition partInfo :: "table_detail \<Rightarrow> string option" where
  "partInfo d = (if truthy (td_partition_method d) then Some (the (td_partition_method d) @ ''(''
       @ or_else (td_partition_key d) ''?'' @ '') '' @ em_dash @ '' ''
       @ (case td_partition_count d of None \<Rightarrow> ''?'' | Some n \<Rightarrow> int_str n) @ '' partitions'')
     else None)"

definition column_row :: "column_info \<Rightarrow> 'e node" where
  "column_row c = El ''tr'' [] [] [TD [Txt (co_name c)], TD [Txt (co_column_type c)],
     TD [Txt (or_else (co_column_key c) ''-'')], TD [Txt (co_is_nullable c)],
     TD [Txt (nullish (co_column_default c) ''-'')]]"

definition ObjectDetailsPane ::
  "(string \<Rightarrow> string option) \<Rightarrow> (int \<Rightarrow> string) \<Rightarrow> table_detail async_data \<Rightarrow> 'e node" where
  "ObjectDetailsPane sqlFormat locale_int res =
     (if awaiting res then Loader
      else case ar_data res of
        None \<Rightarrow> box [Txt ''Unable to load details'']
      | Some d \<Rightarrow> box (
          [SectionLabel [Txt ''General''],
           box (meta_if sqlFormat ''Type'' (Some (td_table_type d)) @ meta_if sqlFormat ''Engine'' (td_engine d)
             @ meta_if sqlFormat ''Key Type'' (td_key_type d) @ meta_if sqlFormat ''Comment'' (td_comment d)),
           SectionLabel [Txt ''Statistics''],
           box ((case td_row_count d of None \<Rightarrow> [] | Some n \<Rightarrow> MetaItem sqlFormat ''Row Count'' (locale_int n))
             @ (case td_data_size d of None \<Rightarrow> [] | Some n \<Rightarrow> MetaItem sqlFormat ''Data Size'' (formatBytes (of_int n)))
             @ meta_if sqlFormat ''Created'' (td_create_time d) @ meta_if sqlFormat ''Last Updated'' (td_update_time d))]
          @ show_if (distInfo d \<noteq> None \<or> partInfo d \<noteq> None \<or> td_replication_num d \<noteq> None \<or> truthy (td_compression d))
             [SectionLabel [Txt ''Storage''],
              box (meta_if sqlFormat ''Distribution'' (distInfo d) @ meta_if sqlFormat ''Partition'' (partInfo d)
                @ (case td_replication_num d of None \<Rightarrow> [] | Some n \<Rightarrow> MetaItem sqlFormat ''Replicas'' (int_str n))
                @ meta_if sqlFormat ''Medium'' (td_storage_medium d)
                @ meta_if sqlFormat ''Compression'' (td_compression d))]
          @ [SectionLabel [Txt (''Columns ('' @ nat_str (length (td_columns d)) @ '')'')],
             El ''table'' [] [] ([TH ''Name'', TH ''Type'', TH ''Key'', TH ''Nullable'', TH ''Default'']
               @ map column_row (td_columns d))]
          @ (if truthy (td_ddl d) then [SectionLabel [Txt ''DDL''], El ''pre'' [] [] [Txt (the (td_ddl d))]] else [])))"

definition find_function :: "selected_item \<Rightarrow> my_permissions option \<Rightarrow> accessible_object option" where
  "find_function item myData = (case myData of None \<Rightarrow> None
     | Some d \<Rightarrow> List.find (\<lambda>ob. ao_name ob = si_name item \<and> ao_type ob = ''FUNCTION''
         \<and> Some (ao_database ob) = si_database item) (mp_accessible_objects d))"

definition FunctionDetailsPane ::
  "(string \<Rightarrow> string option) \<Rightarrow> selected_item \<Rightarrow> my_permissions option \<Rightarrow> 'e node" where
  "FunctionDetailsPane sqlFormat item myData = (case find_function item myData of
      None \<Rightarrow> box [Txt ''No detail available'']
    | Some fn \<Rightarrow> box [SectionLabel [Txt ''Function Info''],
        box (MetaItem sqlFormat ''Name'' (ao_name fn) @ MetaItem sqlFormat ''Database'' (ao_database fn)
          @ meta_if sqlFormat ''Signature'' (ao_signature fn) @ meta_if sqlFormat ''Return Type'' (ao_return_type fn)
          @ meta_if sqlFormat ''Function Type'' (ao_function_type fn)
          @ meta_if sqlFormat ''Properties'' (ao_properties fn))])"

definition DatabaseObjectsPane :: "object_item list async_data \<Rightarrow> 'e node" where
  "DatabaseObjectsPane res =
     (let objects = nullish (ar_data res) [] in
      if awaiting res then Loader
      else if objects = [] then box [Txt ''No objects found'']
      else box [SectionLabel [Txt (''Objects ('' @ nat_str (length objects) @ '')'')],
        El ''table'' [] [] ([TH ''Name'', TH ''Type'']
          @ map (\<lambda>ob. El ''tr'' [] [] [TD [Txt (oi_name ob)], TD [Txt (oi_object_type ob)]]) objects)])"

definition CatalogDatabasesPane :: "database_item list async_data \<Rightarrow> 'e node" where
  "CatalogDatabasesPane res =
     (let dbs = nullish (ar_data res) [] in
      if awaiting res then Loader
      else if dbs = [] then box [Txt ''No databases found'']
      else box [SectionLabel [Txt (''Databases ('' @ nat_str (length dbs) @ '')'')],
        El ''table'' [] [] (TH ''Database''
          # map (\<lambda>db. El ''tr'' [] [] [TD [InlineIcon ''database'', Txt (di_name db)]]) dbs)])"

section \<open>Required privileges (RequiredPrivilegesTable.tsx)\<close>

definition RequiredPrivilegesTable :: "string \<Rightarrow> string \<Rightarrow> (string \<times> string) list \<Rightarrow> string \<Rightarrow> 'e node" where
  "RequiredPrivilegesTable banner intro rows note = box (
     [Txt banner, Txt intro,
      El ''table'' [] [] (El ''tr'' [] [] [El ''th'' [] [] [Txt ''Action''], El ''th'' [] [] [Txt ''Required Privilege'']]
        # map (\<lambda>(a, r). El ''tr'' [] [] [El ''td'' [] [] [Txt a], El ''td'' [] [] [Txt r]]) rows),
      Txt note])"

section \<open>System panes (systemPanes.tsx)\<close>

definition warning_sign :: string where "warning_sign = utf8 9888"

definition TASK_PRIV_ROWS :: "(string \<times> string) list" where
  "TASK_PRIV_ROWS = [(''SUBMIT TASK'', ''INSERT on target table (+ SELECT for source)''),
     (''Schedule Run'', ''Re-validated with creator'' @ [quote_ch] @ ''s current privileges''),
     (''DROP TASK'', warning_sign @ '' No privilege restriction '' @ em_dash @ '' use caution''),
     (''View Tasks'', ''All users via information_schema.tasks'')]"

definition PIPE_PRIV_ROWS :: "(string \<times> string) list" where
  "PIPE_PRIV_ROWS = [(''CREATE PIPE'', ''CREATE PIPE on the database + INSERT on target table''),
     (''ALTER / SUSPEND / RESUME'', ''Owner or ALTER privilege on the pipe''),
     (''DROP PIPE'', ''Owner or DROP privilege on the pipe''),
     (''View Pipes'', ''All users via information_schema.pipes'')]"

definition TaskPrivilegesPane :: "'e node" where
  "TaskPrivilegesPane = RequiredPrivilegesTable ''NO DIRECT PRIVILEGES''
     ''Task is not a grantable object in StarRocks. GRANT ... ON TASK does not exist.'' TASK_PRIV_ROWS
     (''Note: Scheduled tasks run under the creator'' @ [quote_ch]
       @ ''s privilege context. If privileges are revoked, the task will fail.'')"

definition PipePrivilegesPane :: "bool \<Rightarrow> privilege_grant list async_data \<Rightarrow> pane_event node option" where
  "PipePrivilegesPane canManage res =
     (let grants = nullish (ar_data res) [] in
      if awaiting res then Some Loader
      else if grants \<noteq> [] then map_option (map_node OpenWizard) (PermissionMatrixView canManage grants ''PIPE'' None None)
      else Some (RequiredPrivilegesTable ''NO PRIVILEGE GRANTS FOUND''
        ''This pipe is visible via information_schema.pipes, but no explicit GRANT ... ON PIPE was found for your roles.''
        PIPE_PRIV_ROWS
        (''Note: Pipes run under the creator'' @ [quote_ch] @ ''s privilege context. The pipe is visible to all users, ''
          @ ''but only the owner or users with explicit GRANT can manage it.'')))"

definition pipe_call :: "string \<Rightarrow> api_call" where
  "pipe_call name = getObjectPrivileges UserBase None None (Some name) (Some ''PIPE'')"

definition tab_of_key :: "string \<Rightarrow> sub_tab option" where
  "tab_of_key k = map_option fst (List.find (\<lambda>p. tab_key (fst p) = k) SUB_TAB_META)"

definition NON_SCOPED :: "string list" where
  "NON_SCOPED = [''RESOURCE GROUP'', ''WAREHOUSE'', ''STORAGE VOLUME'', ''RESOURCE'', ''GLOBAL FUNCTION'']"

definition sys_object :: "selected_item \<Rightarrow> pane_object" where
  "sys_object item =
     (let objType = (case tab_of_key (si_tab item) of Some t \<Rightarrow> OBJECT_TYPE_MAP t | None \<Rightarrow> to_upper (si_tab item));
          noScope = (objType \<in> set NON_SCOPED)
      in \<lparr>po_catalog = Some (if noScope then [] else or_else (si_catalog item) []),
          po_database = Some (if noScope then [] else or_else (si_database item) []),
          po_name = si_name item, po_objectType = objType\<rparr>)"

definition CLF_LABELS :: "string jsobj" where
  "CLF_LABELS = [(''user'', ''User''), (''role'', ''Role''), (''query_type'', ''Query Type''), (''source_ip'', ''Source IP''),
     (''db'', ''Database''), (''plan_cpu_cost_range'', ''CPU Cost''), (''plan_mem_cost_range'', ''Mem Cost'')]"

definition CLF_PAGE_SIZE :: nat where "CLF_PAGE_SIZE = 3"

definition page_count :: "nat \<Rightarrow> nat \<Rightarrow> nat" where
  "page_count k n = (n + k - 1) div k"

definition page_slice :: "nat \<Rightarrow> nat \<Rightarrow> 'a list \<Rightarrow> 'a list" where
  "page_slice k page xs = take k (drop (page * k) xs)"

definition isCurrentUser :: "string \<Rightarrow> string jsobj \<Rightarrow> bool" where
  "isCurrentUser currentUser clf \<longleftrightarrow> truthy (obj_get clf ''user'') \<and> starts_with (the (obj_get clf ''user'')) currentUser"

definition rule_node :: "(string \<Rightarrow> string option) \<Rightarrow> string \<Rightarrow> nat \<Rightarrow> string jsobj \<Rightarrow> pane_event node" where
  "rule_node sqlFormat currentUser globalIdx clf = box (
     Txt (''Rule '' @ nat_str globalIdx) # show_if (isCurrentUser currentUser clf) [Txt ''YOU'']
     @ [box (concat (map (\<lambda>(k, v). MetaItem sqlFormat (or_else (obj_get CLF_LABELS k) k) v)
          (filter (\<lambda>(k, v). k \<noteq> ''id'' \<and> k \<noteq> ''weight'') (obj_entries clf))))])"

definition RGAssignedTo ::
  "(string \<Rightarrow> string option) \<Rightarrow> string jsobj list \<Rightarrow> string \<Rightarrow> nat \<Rightarrow> pane_event node" where
  "RGAssignedTo sqlFormat clfs currentUser page =
     (let totalPages = page_count CLF_PAGE_SIZE (length clfs) in box (
       SectionLabel [Txt (''Assigned To ('' @ nat_str (length clfs) @ '')'')]
       # show_if (totalPages > 1)
          [button ''prev'' (page = 0) (SetRulePage (page - 1)) ''<'',
           Txt (nat_str (page + 1) @ ''/'' @ nat_str totalPages),
           button ''next'' (page = totalPages - 1) (SetRulePage (min (totalPages - 1) (page + 1))) ''>'']
       @ map (\<lambda>(idx, clf). rule_node sqlFormat currentUser (page * CLF_PAGE_SIZE + idx + 1) clf)
           (enumerate 0 (page_slice CLF_PAGE_SIZE page clfs))))"

definition find_sys_object :: "selected_item \<Rightarrow> my_permissions option \<Rightarrow> sys_object option" where
  "find_sys_object item myData = (case myData of None \<Rightarrow> None
     | Some d \<Rightarrow> List.find (\<lambda>ob. obj_get ob ''name'' = Some (si_name item)
         \<and> obj_get ob ''type'' = Some (replace_first '' '' ''_'' (case tab_of_key (si_tab item) of
              Some t \<Rightarrow> OBJECT_TYPE_MAP t | None \<Rightarrow> []))) (mp_system_objects d))"

definition SysObjectInfoPane ::
  "(string \<Rightarrow> string option) \<Rightarrow> (string \<Rightarrow> string) \<Rightarrow> selected_item \<Rightarrow> my_permissions option \<Rightarrow> nat
    \<Rightarrow> pane_event node" where
  "SysObjectInfoPane sqlFormat locale_number item myData page = (case find_sys_object item myData of
      None \<Rightarrow> box [Txt ''No detail available'']
    | Some ob \<Rightarrow>
        (let isGroup = (obj_get ob ''type'' = Some ''RESOURCE_GROUP'');
             r = (if isGroup then parseResourceGroupClassifiers (obj_get ob ''classifiers'') else no_classifiers);
             currentUser = (case myData of None \<Rightarrow> [] | Some d \<Rightarrow> mp_username d)
         in box ([SectionLabel [Txt ''Details''],
             box (concat (map (\<lambda>(label, v). MetaItem sqlFormat label (nullish v [])) (buildSysObjectFields locale_number ob)))]
           @ show_if (isGroup \<and> cr_classifiers r \<noteq> []) [RGAssignedTo sqlFormat (cr_classifiers r) currentUser page]
           @ show_if (isGroup \<and> cr_classifiers r = [])
              [SectionLabel [Txt ''Assigned To''],
               Txt (if cr_isSystemDefault r
                 then ''System default '' @ em_dash @ '' automatically assigned to unmatched queries''
                 else ''No assignments defined'')])))"

section \<open>Role and user panes (entityPanes.tsx)\<close>

record members =
  me_childRoles :: "string list"
  me_users :: "string list"

definition derived_members :: "string \<Rightarrow> my_permissions \<Rightarrow> members" where
  "derived_members roleName d =
     (let childRoles = map fst (filter (\<lambda>(n, r). n \<noteq> roleName \<and> roleName \<in> set (rt_parent_roles r))
            (obj_entries (mp_role_tree d)))
      in \<lparr>me_childRoles = childRoles,
          me_users = (if list_ex (\<lambda>r. r \<in> set (roleName # childRoles)) (mp_direct_roles d) then [mp_username d] else [])\<rparr>)"

definition dag_members :: "string \<Rightarrow> dag_graph \<Rightarrow> members" where
  "dag_members roleName dag =
     (let self = ''r_'' @ roleName;
          childRoleIds = dedup (map de_target (filter (\<lambda>e. de_source e = self \<and> de_edge_type e = ''inheritance'')
            (dg_edges dag)))
      in \<lparr>me_childRoles = map dn_label (filter (\<lambda>n. dn_id n \<in> set childRoleIds) (dg_nodes dag)),
          me_users = map dn_label (filter (\<lambda>n. dn_type n = ''user''
            \<and> list_ex (\<lambda>e. de_source e \<in> set (self # childRoleIds) \<and> de_target e = dn_id n) (dg_edges dag))
            (dg_nodes dag))\<rparr>)"

text \<open>
  The members that the server's graph gives, unless the ones derived from the own permissions are more;
  a failed request counts as no members. \<open>None\<close> is a request under way.
\<close>

definition no_members :: members where
  "no_members = \<lparr>me_childRoles = [], me_users = []\<rparr>"

definition member_count :: "members \<Rightarrow> nat" where
  "member_count m = length (me_childRoles m) + length (me_users m)"

definition shown_members :: "members option \<Rightarrow> members option \<Rightarrow> members" where
  "shown_members derived api = (case api of
      None \<Rightarrow> nullish derived no_members
    | Some a \<Rightarrow> if member_count a \<ge> (case derived of None \<Rightarrow> 0 | Some d \<Rightarrow> member_count d) then a else nullish derived a)"

definition members_answer :: "string \<Rightarrow> string + dag_graph \<Rightarrow> members" where
  "members_answer roleName res = (case res of Inl _ \<Rightarrow> no_members | Inr dag \<Rightarrow> dag_members roleName dag)"

definition icon_rows :: "string \<Rightarrow> string list \<Rightarrow> 'e node list" where
  "icon_rows icon ns = map (\<lambda>n. box [InlineIcon icon, Txt n]) ns"

definition RoleMembersPane :: "string \<Rightarrow> my_permissions option \<Rightarrow> members option \<Rightarrow> 'e node" where
  "RoleMembersPane roleName myData api =
     (let m = shown_members (map_option (derived_members roleName) myData) api in
      if member_count m = 0 then (if api = None then Loader else box [Txt ''No members found''])
      else box (
        show_if (me_childRoles m \<noteq> []) (SectionLabel [Txt (''Child Roles ('' @ nat_str (length (me_childRoles m)) @ '')'')]
          # icon_rows ''role'' (me_childRoles m))
        @ show_if (me_users m \<noteq> []) (SectionLabel [Txt (''Assigned Users ('' @ nat_str (length (me_users m)) @ '')'')]
          # icon_rows ''user'' (me_users m))))"

definition grants_pane :: "string \<Rightarrow> privilege_grant list async_data \<Rightarrow> 'e node" where
  "grants_pane title res = (if awaiting res then Loader
     else let grants = nullish (ar_data res) [] in
       GrantTreeView (buildGrantDisplay grants True []) (Some title) (Some (length grants)) (Some (extractSourceRoles grants)))"

definition RolePrivilegesPane :: "privilege_grant list async_data \<Rightarrow> 'e node" where
  "RolePrivilegesPane res = grants_pane ''Role Privileges'' res"

definition UserPrivilegesPane :: "privilege_grant list async_data \<Rightarrow> 'e node" where
  "UserPrivilegesPane res = grants_pane ''Effective Privileges'' res"

definition UserRolesPane :: "privilege_grant list async_data \<Rightarrow> 'e node" where
  "UserRolesPane res = (if awaiting res then Loader
     else let roles = extractSourceRoles (nullish (ar_data res) []) in
       box (SectionLabel [Txt (''Assigned Roles ('' @ nat_str (length roles) @ '')'')]
         # (if roles = [] then [Txt ''No roles assigned''] else icon_rows ''role'' roles)))"

section \<open>The router (InventoryDetailPanel.tsx)\<close>

definition OBJECT_TABS :: "string list" where
  "OBJECT_TABS = [''tables'', ''views'', ''mvs'', ''functions'']"

definition SYSTEM_TABS :: "string list" where
  "SYSTEM_TABS = [''warehouses'', ''rgroups'', ''svolumes'', ''resources'', ''gfunctions'', ''pipes'', ''tasks'']"

definition detail_tabs :: "string \<Rightarrow> (string \<times> string) list" where
  "detail_tabs t = (''privileges'', ''Privileges'') #
     (if t = ''roles'' \<or> t = ''users'' then [(''members'', if t = ''users'' then ''Roles'' else ''Members'')]
      else if t \<in> set SYSTEM_TABS then [(''info'', ''Info'')]
      else if t = ''databases'' \<or> t = ''catalogs'' then [(''objects'', ''Objects'')]
      else [(''details'', ''Details'')])"

definition iconType :: "selected_item \<Rightarrow> string" where
  "iconType item = (let t = si_tab item in
     if t = ''users'' then ''user'' else if t = ''roles'' then ''role'' else if t = ''catalogs'' then ''catalog''
     else if t = ''databases'' then ''database'' else if t \<in> set SYSTEM_TABS then ''system''
     else if si_objectType item = Some ''VIEW'' then ''view''
     else if si_objectType item = Some ''MATERIALIZED VIEW'' then ''mv''
     else if si_objectType item = Some ''FUNCTION'' then ''function'' else ''table'')"

definition pathParts :: "selected_item \<Rightarrow> string list" where
  "pathParts item = present [si_catalog item, si_database item, Some (si_name item)]"

text \<open>What the panes of the open item have fetched; only the mounted one is used.\<close>

record pane_data =
  pd_objectPrivileges :: "privilege_grant list async_data"
  pd_tableDetail :: "table_detail async_data"
  pd_databases :: "database_item list async_data"
  pd_tables :: "object_item list async_data"
  pd_grants :: "privilege_grant list async_data"
  pd_members :: "members option"
  pd_rulePage :: nat

text \<open>The object of the privilege matrix; \<open>item.objectType!\<close> without a type is an exception.\<close>

definition matrix_object :: "selected_item \<Rightarrow> pane_object option" where
  "matrix_object item =
     (if si_tab item \<in> set OBJECT_TABS then map_option (\<lambda>ot. \<lparr>po_catalog = si_catalog item,
         po_database = si_database item, po_name = si_name item, po_objectType = ot\<rparr>) (si_objectType item)
      else if si_tab item = ''catalogs'' then Some \<lparr>po_catalog = Some (si_name item), po_database = Some [],
         po_name = [], po_objectType = ''CATALOG''\<rparr>
      else if si_tab item = ''databases'' then Some \<lparr>po_catalog = si_catalog item, po_database = Some (si_name item),
         po_name = [], po_objectType = ''DATABASE''\<rparr>
      else Some (sys_object item))"

definition pane_content ::
  "(string \<Rightarrow> string option) \<Rightarrow> (int \<Rightarrow> string) \<Rightarrow> (string \<Rightarrow> string) \<Rightarrow> bool \<Rightarrow> selected_item \<Rightarrow> my_permissions option
    \<Rightarrow> pane_data \<Rightarrow> string \<Rightarrow> pane_event node list option" where
  "pane_content sqlFormat locale_int locale_number canManage item myData pd detailTab =
     (let t = si_tab item; one = map_option (\<lambda>n. [n]);
          matrix = Option.bind (matrix_object item) (\<lambda>ob. one (map_option (map_node OpenWizard)
            (ObjectPrivilegesPane canManage ob (pd_objectPrivileges pd))))
      in if t \<in> set OBJECT_TABS then
           (if detailTab = ''privileges'' then matrix
            else if detailTab = ''details'' then one (Some (if t = ''functions'' then FunctionDetailsPane sqlFormat item myData
              else ObjectDetailsPane sqlFormat locale_int (pd_tableDetail pd)))
            else Some [])
         else if t = ''catalogs'' then
           (if detailTab = ''privileges'' then matrix
            else if detailTab = ''objects'' then one (Some (CatalogDatabasesPane (pd_databases pd))) else Some [])
         else if t = ''databases'' then
           (if detailTab = ''privileges'' then matrix
            else if detailTab = ''objects'' then one (Some (DatabaseObjectsPane (pd_tables pd))) else Some [])
         else if t = ''roles'' then
           (if detailTab = ''privileges'' then one (Some (RolePrivilegesPane (pd_grants pd)))
            else if detailTab = ''members'' then one (Some (RoleMembersPane (si_name item) myData (pd_members pd))) else Some [])
         else if t = ''users'' then
           (if detailTab = ''privileges'' then one (Some (UserPrivilegesPane (pd_grants pd)))
            else if detailTab = ''members'' then one (Some (UserRolesPane (pd_grants pd))) else Some [])
         else if t \<in> set SYSTEM_TABS then
           (if detailTab = ''privileges'' then
              (if t = ''tasks'' then one (Some TaskPrivilegesPane)
               else if t = ''pipes'' then one (PipePrivilegesPane canManage (pd_objectPrivileges pd))
               else matrix)
            else if detailTab = ''info'' then one (Some (SysObjectInfoPane sqlFormat locale_number item myData (pd_rulePage pd)))
            else Some [])
         else Some [])"

definition DetailPanel ::
  "(string \<Rightarrow> string option) \<Rightarrow> (int \<Rightarrow> string) \<Rightarrow> (string \<Rightarrow> string) \<Rightarrow> bool \<Rightarrow> selected_item \<Rightarrow> my_permissions option
    \<Rightarrow> pane_data \<Rightarrow> string \<Rightarrow> pane_event node option" where
  "DetailPanel sqlFormat locale_int locale_number canManage item myData pd detailTab =
     map_option (\<lambda>content. box ([box (map Txt (pathParts item)),
         Txt (nullish (si_objectType item) (to_upper (iconType item))), click_text ClosePanel times_sign]
       @ map (\<lambda>(k, l). click_text (SetDetailTab k) l) (detail_tabs (si_tab item)) @ content))
     (pane_content sqlFormat locale_int locale_number canManage item myData pd detailTab)"

section \<open>What the panel offers\<close>

lemma offered_map_node [simp]: "offered (map_node f n) = map f (offered n)"
proof (induction n)
  case (El t as es ns)
  then have "map (\<lambda>x. offered (map_node f x)) ns = map (\<lambda>x. map f (offered x)) ns" by simp
  then show ?case by (simp add: map_concat comp_def del: map_eq_conv)
next
  case (Field i v ro g opts)
  then show ?case by (induction opts) auto
qed simp

lemma typed_map_node [simp]: "typed (map_node f n) = map (\<lambda>g. f \<circ> g) (typed n)"
proof (induction n)
  case (El t as es ns)
  then have "map (\<lambda>x. typed (map_node f x)) ns = map (\<lambda>x. map (\<lambda>g. f \<circ> g) (typed x)) ns" by (simp add: comp_def)
  then show ?case by (simp add: map_concat comp_def del: map_eq_conv)
qed (simp_all add: comp_def)

lemma can_send_map_node: "inj f \<Longrightarrow> can_send (map_node f n) (f e) \<longleftrightarrow> can_send n e"
  by (auto simp: can_send_def inj_image_mem_iff dest: injD)

lemma wizard_event_inj: "inj OpenWizard"
  by (simp add: inj_def)

text \<open>A node that sends nothing, and the parts of the panes that are such nodes.\<close>

definition silent :: "'e node \<Rightarrow> bool" where
  "silent n \<longleftrightarrow> (\<forall>e. \<not> can_send n e)"

lemma silent_simps [simp]:
  "silent (Txt t)" "silent (box ns) \<longleftrightarrow> list_all silent ns" "silent (El t as [] ns) \<longleftrightarrow> list_all silent ns"
  "silent (InlineIcon i)" "silent Loader" "silent (TH l)" "silent (SectionLabel ns) \<longleftrightarrow> list_all silent ns"
  "silent (TD ns) \<longleftrightarrow> list_all silent ns"
  by (auto simp: silent_def list_all_iff)

lemma list_all_show_if [simp]: "list_all P (show_if c xs) \<longleftrightarrow> (c \<longrightarrow> list_all P xs)"
  by (simp add: show_if_def)

lemma list_all_map_True [simp]: "(\<And>x. P (f x)) \<Longrightarrow> list_all P (map f xs)"
  by (simp add: list_all_iff)

lemma list_all_concat [simp]: "list_all P (concat xss) \<longleftrightarrow> list_all (list_all P) xss"
  by (auto simp: list_all_iff)

lemma MetaItem_silent [simp]: "list_all silent (MetaItem sqlFormat l v)"
  by (simp add: MetaItem_def Let_def split: option.split)

lemma meta_if_silent [simp]: "list_all silent (meta_if sqlFormat l v)"
  by (simp add: meta_if_def)

lemma GrantTreeView_silent [simp]: "silent (GrantTreeView gs t n rs)"
  by (simp add: GrantTreeView_def scope_node_def item_node_def priv_tag_def split: option.split)

lemma required_silent [simp]: "silent (RequiredPrivilegesTable b i rows n)"
  by (simp add: RequiredPrivilegesTable_def split_beta)

lemma panes_silent [simp]:
  "silent (ObjectDetailsPane sqlFormat locale_int res)" "silent (FunctionDetailsPane sqlFormat item myData)"
  "silent (CatalogDatabasesPane dbs)" "silent (DatabaseObjectsPane obs)" "silent (RolePrivilegesPane gs)"
  "silent (UserPrivilegesPane gs)" "silent (UserRolesPane gs)" "silent (RoleMembersPane r myData ms)"
  "silent TaskPrivilegesPane"
  by (simp_all add: ObjectDetailsPane_def column_row_def FunctionDetailsPane_def CatalogDatabasesPane_def
      DatabaseObjectsPane_def RolePrivilegesPane_def UserPrivilegesPane_def grants_pane_def UserRolesPane_def
      RoleMembersPane_def TaskPrivilegesPane_def icon_rows_def Let_def split: option.split)

lemma RGAssignedTo_sends: "can_send (RGAssignedTo sqlFormat clfs u page) e \<Longrightarrow> \<exists>n. e = SetRulePage n"
proof -
  have "silent (rule_node sqlFormat u i clf)" for i clf
    by (simp add: rule_node_def split_beta)
  then show "can_send (RGAssignedTo sqlFormat clfs u page) e \<Longrightarrow> \<exists>n. e = SetRulePage n"
    by (auto simp: RGAssignedTo_def Let_def silent_def split_beta split: if_splits)
qed

lemma SysObjectInfo_sends: "can_send (SysObjectInfoPane sqlFormat lnum item myData page) e \<Longrightarrow> \<exists>n. e = SetRulePage n"
proof -
  have "list_all silent (concat (map (\<lambda>(label, v). MetaItem sqlFormat label (nullish v [])) fs) :: pane_event node list)" for fs
    by (simp add: list_all_iff split_beta) (use MetaItem_silent in \<open>auto simp: list_all_iff\<close>)
  then show "can_send (SysObjectInfoPane sqlFormat lnum item myData page) e \<Longrightarrow> \<exists>n. e = SetRulePage n"
    unfolding SysObjectInfoPane_def Let_def
    by (auto simp: list_all_iff silent_def dest: RGAssignedTo_sends split: option.splits if_splits)
qed

lemma pane_content_cases:
  assumes "pane_content sqlFormat li lnum canManage item myData pd tab = Some ns" and "n \<in> set ns"
  shows "silent n \<or> n = SysObjectInfoPane sqlFormat lnum item myData (pd_rulePage pd)
    \<or> (tab = ''privileges'' \<and> si_tab item \<in> set OBJECT_TABS \<union> set SYSTEM_TABS \<union> {''catalogs'', ''databases''}
       \<and> (if si_tab item = ''pipes'' then PipePrivilegesPane canManage (pd_objectPrivileges pd) = Some n
          else \<exists>ob v. matrix_object item = Some ob
            \<and> ObjectPrivilegesPane canManage ob (pd_objectPrivileges pd) = Some v \<and> n = map_node OpenWizard v))"
  using assms unfolding pane_content_def Let_def
  by (auto simp: OBJECT_TABS_def SYSTEM_TABS_def bind_eq_Some_conv split: if_splits)

lemma pane_wizard:
  assumes "can_send (map_node OpenWizard v) (OpenWizard p)" and "ObjectPrivilegesPane canManage ob res = Some v"
  shows "\<exists>grants. PermissionMatrixView canManage grants (po_objectType ob) None (Some (pane_ref ob)) = Some v \<and> can_send v p"
  using assms by (auto simp: ObjectPrivilegesPane_def can_send_map_node [OF wizard_event_inj] split: if_splits)

lemma pipe_wizard:
  assumes "can_send n (OpenWizard p)" and "PipePrivilegesPane canManage res = Some n"
  shows "\<exists>grants v. PermissionMatrixView canManage grants ''PIPE'' None None = Some v \<and> can_send v p"
proof -
  have "\<not> can_send (RequiredPrivilegesTable a b c d :: pane_event node) e" for a b c d e
    by (rule required_silent [unfolded silent_def, rule_format])
  moreover have "\<not> can_send (Loader :: pane_event node) e" for e by simp
  ultimately obtain v where "PermissionMatrixView canManage (nullish (ar_data res) []) ''PIPE'' None None = Some v"
    "n = map_node OpenWizard v"
    using assms unfolding PipePrivilegesPane_def Let_def by (auto split: if_splits)
  moreover from this have "can_send v p" using assms(1) by (simp add: can_send_map_node [OF wizard_event_inj])
  ultimately show ?thesis by (intro exI conjI)
qed

lemma view_sends:
  assumes "PermissionMatrixView canManage grants t fs ref = Some n" and "can_send n p"
  shows "canManage \<and> revokeSupported ref t \<and> wp_action p = Some Revoke \<and> (ref \<noteq> None \<longrightarrow> wp_object p = ref)"
proof -
  obtain m where m: "granteeMap grants = Some m" using assms(1) by (auto simp: PermissionMatrixView_def)
  obtain k col g where g: "revocable_grant canManage ref t (filter (\<lambda>g. pg_grantee g = k) grants) col = Some g"
    and p: "p = revokeFromCell ref g"
    using assms(2) unfolding matrix_sends [OF assms(1) m] matrix_row_sends [OF m] by blast
  from g have "canManage \<and> revokeSupported ref t"
    unfolding revocable_grant_def by (cases "cell_grant (filter (\<lambda>g. pg_grantee g = k) grants) col") (simp_all split: if_splits)
  then show ?thesis by (cases ref) (simp_all add: p revokeFromCell_def)
qed

lemma pane_gate:
  assumes "can_send (map_node OpenWizard v) (OpenWizard p)" and "ObjectPrivilegesPane canManage ob res = Some v"
  shows "canManage \<and> revokeSupported (Some (pane_ref ob)) (po_objectType ob) \<and> wp_action p = Some Revoke"
  using pane_wizard [OF assms] view_sends by blast

lemma pipe_silent: "PipePrivilegesPane canManage res = Some n \<Longrightarrow> \<not> can_send n (OpenWizard p)"
proof
  assume "can_send n (OpenWizard p)" and "PipePrivilegesPane canManage res = Some n"
  from pipe_wizard [OF this] view_sends have "revokeSupported None ''PIPE''" by blast
  then show False by (simp add: revokeSupported_def REVOCABLE_TYPES_def to_upper_def ch_upper_def)
qed

lemma tab_of_key_tab [simp]: "tab_of_key (tab_key t) = Some t"
  by (cases t) (simp_all add: tab_of_key_def SUB_TAB_META_def)

lemma tab_of_key_some: "tab_of_key k = Some t \<Longrightarrow> k = tab_key t"
  unfolding tab_of_key_def find_Some_iff map_option_eq_Some by auto (metis fst_conv)

lemma sys_object_not_revocable:
  "k \<in> set SYSTEM_TABS \<Longrightarrow> si_tab item = k \<Longrightarrow> \<not> revokeSupported (Some (pane_ref (sys_object item))) t"
proof -
  assume "k \<in> set SYSTEM_TABS" and "si_tab item = k"
  then have "si_tab item \<in> set (map tab_key [TWarehouses, TRgroups, TSvolumes, TResources, TGfunctions, TPipes, TTasks])"
    by (simp add: SYSTEM_TABS_def)
  then obtain u where "si_tab item = tab_key u" "u \<in> set [TWarehouses, TRgroups, TSvolumes, TResources, TGfunctions, TPipes, TTasks]"
    unfolding set_map by blast
  then have "go_object_type (pane_ref (sys_object item)) = OBJECT_TYPE_MAP u"
      "to_upper (OBJECT_TYPE_MAP u) \<notin> set REVOCABLE_TYPES"
    by (auto simp: pane_ref_def sys_object_def Let_def REVOCABLE_TYPES_def to_upper_def ch_upper_def)
  then show ?thesis by (simp add: revokeSupported_def)
qed

text \<open>The panes with a matrix from which a revoke can be opened.\<close>

lemma matrix_pane:
  assumes "si_tab item \<in> set OBJECT_TABS \<union> {''catalogs'', ''databases''}"
  shows "pane_content sqlFormat li lnum canManage item myData pd ''privileges'' = Option.bind (matrix_object item)
    (\<lambda>ob. map_option (\<lambda>v. [map_node OpenWizard v]) (ObjectPrivilegesPane canManage ob (pd_objectPrivileges pd)))"
  using assms by (auto simp: pane_content_def Let_def option.map_comp comp_def)

lemma panel_wizard:
  assumes ns: "pane_content sqlFormat li lnum canManage item myData pd tab = Some ns"
    and m: "m \<in> set ns" "can_send m (OpenWizard p)"
  shows "tab = ''privileges'' \<and> si_tab item \<in> set OBJECT_TABS \<union> {''catalogs'', ''databases''}"
proof -
  have tabs: "tab = ''privileges''" "si_tab item \<in> set OBJECT_TABS \<union> set SYSTEM_TABS \<union> {''catalogs'', ''databases''}"
    and pane: "if si_tab item = ''pipes'' then PipePrivilegesPane canManage (pd_objectPrivileges pd) = Some m
        else \<exists>ob v. matrix_object item = Some ob
          \<and> ObjectPrivilegesPane canManage ob (pd_objectPrivileges pd) = Some v \<and> m = map_node OpenWizard v"
    using pane_content_cases [OF ns m(1)] m(2) by (auto simp: silent_def dest: SysObjectInfo_sends)
  have "si_tab item \<noteq> ''pipes''"
  proof
    assume "si_tab item = ''pipes''"
    then show False using pane pipe_silent m(2) by simp
  qed
  then obtain ob v where ob: "matrix_object item = Some ob"
    "ObjectPrivilegesPane canManage ob (pd_objectPrivileges pd) = Some v" "m = map_node OpenWizard v"
    using pane by auto
  have "si_tab item \<notin> set SYSTEM_TABS"
  proof
    assume sys: "si_tab item \<in> set SYSTEM_TABS"
    then have "ob = sys_object item" using ob(1) by (auto simp: matrix_object_def OBJECT_TABS_def SYSTEM_TABS_def)
    then show False using sys_object_not_revocable [OF sys refl] pane_gate m(2) ob(2,3) by blast
  qed
  with tabs show ?thesis by blast
qed

lemma panel_opens:
  assumes "DetailPanel sqlFormat li lnum canManage item myData pd tab = Some n"
  shows "can_send n (OpenWizard p) \<longleftrightarrow>
    tab = ''privileges'' \<and> si_tab item \<in> set OBJECT_TABS \<union> {''catalogs'', ''databases''}
    \<and> (\<exists>ob v. matrix_object item = Some ob
          \<and> ObjectPrivilegesPane canManage ob (pd_objectPrivileges pd) = Some v \<and> can_send v p)"
    (is "?sends \<longleftrightarrow> ?tabs \<and> ?places \<and> ?pane")
proof -
  obtain ns where ns: "pane_content sqlFormat li lnum canManage item myData pd tab = Some ns"
    and n: "?sends \<longleftrightarrow> (\<exists>m \<in> set ns. can_send m (OpenWizard p))"
    using assms by (auto simp: DetailPanel_def split_beta bex_Un)
  have "?sends \<Longrightarrow> ?tabs \<and> ?places" using panel_wizard [OF ns] n by blast
  moreover have "?sends \<longleftrightarrow> ?pane" if "?tabs" "?places"
  proof -
    from that obtain ob v where "matrix_object item = Some ob" "ns = [map_node OpenWizard v]"
      "ObjectPrivilegesPane canManage ob (pd_objectPrivileges pd) = Some v"
      using ns matrix_pane [of item] that by (auto simp: bind_eq_Some_conv)
    then show ?thesis unfolding n by (simp add: can_send_map_node [OF wizard_event_inj])
  qed
  ultimately show ?thesis by blast
qed

text \<open>What the matrix of an object offers on the grants fetched.\<close>

definition matrix_offers :: "bool \<Rightarrow> pane_data \<Rightarrow> wizard_prefill \<Rightarrow> grant_object_ref \<Rightarrow> bool" where
  "matrix_offers canManage pd p ref = (case ar_data (pd_objectPrivileges pd) of None \<Rightarrow> False | Some grants \<Rightarrow>
     (case PermissionMatrixView canManage grants (go_object_type ref) None (Some ref) of
        None \<Rightarrow> False | Some v \<Rightarrow> can_send v p))"

lemma pane_sends:
  assumes "ObjectPrivilegesPane canManage ob (pd_objectPrivileges pd) = Some v"
  shows "can_send v p \<longleftrightarrow> matrix_offers canManage pd p (pane_ref ob)"
proof -
  have type: "go_object_type (pane_ref ob) = po_objectType ob" by (simp add: pane_ref_def Let_def)
  have "\<not> can_send w p" if "PermissionMatrixView canManage [] t fs ref = Some w" for t fs ref w
    using that by (auto simp: PermissionMatrixView_def granteeMap_def shown_grantees_def publicPrivs_def
        upper_types_def obj_bucket_def dedup_def obj_keys_def split: option.splits if_splits)
  then show ?thesis unfolding matrix_offers_def type using assms
    by (cases "ar_data (pd_objectPrivileges pd)") (auto simp: ObjectPrivilegesPane_def split: if_splits)
qed

lemma matrix_offers_gate:
  assumes "matrix_offers canManage pd p ref"
  shows "canManage \<and> to_upper (go_object_type ref) \<in> set REVOCABLE_TYPES
    \<and> wp_action p = Some Revoke \<and> wp_object p = Some ref"
proof -
  from assms obtain grants v where "can_send v p"
    "PermissionMatrixView canManage grants (go_object_type ref) None (Some ref) = Some v"
    by (auto simp: matrix_offers_def split: option.splits)
  from view_sends [OF this(2,1)] show ?thesis by (simp add: revokeSupported_def)
qed

lemma panel_object:
  assumes panel: "DetailPanel sqlFormat li lnum canManage item myData pd tab = Some n"
    and ob: "matrix_object item = Some ob" and place: "si_tab item \<in> set OBJECT_TABS \<union> {''catalogs'', ''databases''}"
    and ref: "pane_ref ob = ref"
  shows "(can_send n (OpenWizard p) \<longleftrightarrow> tab = ''privileges'' \<and> matrix_offers canManage pd p ref)
    \<and> (if can_send n (OpenWizard p) then canManage \<and> to_upper (go_object_type ref) \<in> set REVOCABLE_TYPES
          \<and> wp_action p = Some Revoke \<and> wp_object p = Some ref else True)"
proof -
  have "tab = ''privileges'' \<Longrightarrow> \<exists>v. ObjectPrivilegesPane canManage ob (pd_objectPrivileges pd) = Some v"
    using panel matrix_pane [OF place] ob by (auto simp: DetailPanel_def)
  then have "can_send n (OpenWizard p) \<longleftrightarrow> tab = ''privileges'' \<and> matrix_offers canManage pd p ref"
    using panel_opens [OF panel, of p] pane_sends [of canManage ob pd] ob place ref by auto
  with matrix_offers_gate [of canManage pd p ref] show ?thesis by auto
qed

lemma object_ref:
  assumes "si_tab item \<in> set OBJECT_TABS" and "si_objectType item = Some t" and "t \<notin> {''CATALOG'', ''DATABASE''}"
  shows "\<exists>ob. matrix_object item = Some ob \<and> pane_ref ob = \<lparr>go_object_type = t,
    go_catalog = Some (or_else (si_catalog item) ''default_catalog''),
    go_database = si_database item, go_name = Some (si_name item)\<rparr>"
  using assms by (simp add: matrix_object_def pane_ref_def Let_def)

lemma scope_ref:
  "si_tab item = ''catalogs'' \<Longrightarrow> \<exists>ob. matrix_object item = Some ob \<and> pane_ref ob =
     \<lparr>go_object_type = ''CATALOG'', go_catalog = Some [], go_database = None, go_name = None\<rparr>"
  "si_tab item = ''databases'' \<Longrightarrow> \<exists>ob. matrix_object item = Some ob \<and> pane_ref ob =
     \<lparr>go_object_type = ''DATABASE'', go_catalog = Some (or_else (si_catalog item) ''default_catalog''),
       go_database = Some [], go_name = None\<rparr>"
  by (simp_all add: matrix_object_def pane_ref_def Let_def OBJECT_TABS_def)

lemma untyped_item:
  assumes panel: "DetailPanel sqlFormat li lnum canManage item myData pd tab = Some n"
    and "si_tab item \<in> set OBJECT_TABS" and "si_objectType item = None"
  shows "\<not> can_send n (OpenWizard p) \<and> tab \<noteq> ''privileges''"
  using panel_opens [OF panel, of p] panel assms(2,3) matrix_pane [of item]
  by (auto simp: matrix_object_def DetailPanel_def)

text \<open>
  C14. The detail panel offers the grant wizard from the matrix of its own item and from nowhere else.
  Only the privileges tab of a table, view, materialized view, function, catalog or database does, never
  the pane of a system object, a role or a user; what can be clicked there is exactly what the matrix
  offers on the grants fetched, for a user who may manage grants, and it is a revoke on exactly the
  selected item: its own type, catalog, database and name. For a catalog and a database the object is the
  one that the panel gives the pane, whose name is empty. (Items of an object tab are never of the types
  of a catalog or a database.)
\<close>

theorem detail_panel_gated:
  "case DetailPanel sqlFormat locale_int locale_number canManage item myData pd tab of
     None \<Rightarrow> True
   | Some n \<Rightarrow>
      (if si_tab item \<in> {''tables'', ''views'', ''mvs'', ''functions''}
          \<and> si_objectType item \<in> {Some ''CATALOG'', Some ''DATABASE''} then True
       else case (if si_tab item \<in> {''tables'', ''views'', ''mvs'', ''functions''} then
              Some \<lparr>go_object_type = nullish (si_objectType item) [],
                go_catalog = Some (or_else (si_catalog item) ''default_catalog''),
                go_database = si_database item, go_name = Some (si_name item)\<rparr>
            else if si_tab item = ''catalogs'' then
              Some \<lparr>go_object_type = ''CATALOG'', go_catalog = Some [], go_database = None, go_name = None\<rparr>
            else if si_tab item = ''databases'' then
              Some \<lparr>go_object_type = ''DATABASE'', go_catalog = Some (or_else (si_catalog item) ''default_catalog''),
                go_database = Some [], go_name = None\<rparr>
            else None) of
          None \<Rightarrow> \<not> can_send n (OpenWizard p)
        | Some ref \<Rightarrow>
            (can_send n (OpenWizard p) \<longleftrightarrow> tab = ''privileges''
              \<and> (case ar_data (pd_objectPrivileges pd) of None \<Rightarrow> False | Some grants \<Rightarrow>
                    (case PermissionMatrixView canManage grants (go_object_type ref) None (Some ref) of
                       None \<Rightarrow> False | Some v \<Rightarrow> can_send v p)))
            \<and> (if can_send n (OpenWizard p)
                then canManage \<and> to_upper (go_object_type ref) \<in> set REVOCABLE_TYPES
                  \<and> wp_action p = Some Revoke \<and> wp_object p = Some ref
                else True))"
proof (cases "DetailPanel sqlFormat locale_int locale_number canManage item myData pd tab")
  case (Some n)
  have places: "set OBJECT_TABS = {''tables'', ''views'', ''mvs'', ''functions''}"
    by (simp add: OBJECT_TABS_def)
  note panel = Some and offers = matrix_offers_def [symmetric]
  note object = panel_object [OF panel, of _ _ p]
  consider (object) "si_tab item \<in> {''tables'', ''views'', ''mvs'', ''functions''}" | (cats) "si_tab item = ''catalogs''"
    | (dbs) "si_tab item = ''databases''"
    | (other) "si_tab item \<notin> set OBJECT_TABS \<union> {''catalogs'', ''databases''}" unfolding places by blast
  then show ?thesis
  proof cases
    case object
    show ?thesis
    proof (cases "si_objectType item")
      case None
      with object show ?thesis using untyped_item [OF panel, of p] unfolding panel option.case offers
        by (simp add: places)
    next
      case (Some t)
      show ?thesis
      proof (cases "t \<in> {''CATALOG'', ''DATABASE''}")
        case False
        from object_ref [OF _ Some False] object obtain ob where ob: "matrix_object item = Some ob"
          "pane_ref ob = \<lparr>go_object_type = t, go_catalog = Some (or_else (si_catalog item) ''default_catalog''),
            go_database = si_database item, go_name = Some (si_name item)\<rparr>" unfolding places by blast
        with panel_object [OF panel ob(1) _ ob(2), of p] object False Some show ?thesis
          unfolding panel option.case offers by (auto simp: places)
      qed (use object Some in \<open>auto simp: panel\<close>)
    qed
  next
    case cats
    from scope_ref(1) [OF cats] obtain ob where ob: "matrix_object item = Some ob"
      "pane_ref ob = \<lparr>go_object_type = ''CATALOG'', go_catalog = Some [], go_database = None, go_name = None\<rparr>" by blast
    from object [OF ob(1) _ ob(2)] cats show ?thesis unfolding panel option.case offers by auto
  next
    case dbs
    from scope_ref(2) [OF dbs] obtain ob where ob: "matrix_object item = Some ob"
      "pane_ref ob = \<lparr>go_object_type = ''DATABASE'', go_catalog = Some (or_else (si_catalog item) ''default_catalog''),
        go_database = Some [], go_name = None\<rparr>" by blast
    from object [OF ob(1) _ ob(2)] dbs show ?thesis unfolding panel option.case offers by auto
  next
    case other
    then show ?thesis using panel_opens [OF panel, of p] unfolding panel places by auto
  qed
qed simp

text \<open>
  The pane of a catalog or a database is given an empty name: it asks for the privileges on all of them,
  and a revoke from its matrix has no object.
\<close>

lemma catalog_not_asked_for:
  "si_tab item = ''catalogs'' \<Longrightarrow>
     map_option (\<lambda>ob. ca_path (pane_call b ob)) (matrix_object item) = Some (''/'' @ base_str b @ ''/privileges/object?object_type=CATALOG'')"
  "si_tab item = ''databases'' \<Longrightarrow> si_catalog item = Some ''c'' \<Longrightarrow>
     map_option (\<lambda>ob. ca_path (pane_call b ob)) (matrix_object item)
       = Some (''/'' @ base_str b @ ''/privileges/object?catalog=c&object_type=DATABASE'')"
  by (simp_all add: matrix_object_def OBJECT_TABS_def pane_call_def Let_def getObjectPrivileges_def get_call_def
      set_truthy_def params_set_def obj_set_def params_str_def form_encode_def form_char_def form_plain_def is_alnum_def)

lemma scope_revoke_incomplete:
  assumes "si_tab item = ''catalogs'' \<or> si_tab item = ''databases''" and "matrix_object item = Some ob"
  shows "buildRequest (initial_form (Some (revokeFromCell (Some (pane_ref ob)) g))) = None"
  using assms by (auto simp: matrix_object_def OBJECT_TABS_def pane_ref_def Let_def revokeFromCell_def
      initial_form_def obj_field_def buildRequest_def needsDb_def)

text \<open>A rule for user \<open>al\<close> is marked as one's own for \<open>alice\<close>; after the rules change the page may be empty.\<close>

lemma prefix_is_not_you: "isCurrentUser ''alice'' [(''user'', ''al'')]"
  by (simp add: isCurrentUser_def obj_get_Cons starts_with_def)

end
