(* ===== verification/Inventory.thy ===== *)
theory Inventory
  imports Detail_Panes Js_Url Session
begin

text \<open>
  \<open>components/tabs/InventoryTab.tsx\<close>: the lists of everything one may see, with a filter, pages, a
  selected item and the address bar's hash that keeps tab and selection over a reload. The server's
  answers are events; \<open>localeCompare\<close> is the parameter \<open>collate\<close>, the locale's numbers are one too.
\<close>

section \<open>The address bar\<close>

text \<open>\<open>decodeURIComponent\<close>: an escape without two hexadecimal digits is an exception.\<close>

fun decodeURIComponent :: "string \<Rightarrow> string option" where
  "decodeURIComponent [] = Some []"
| "decodeURIComponent (c # cs) =
     (if c \<noteq> CHR ''%'' then map_option (Cons c) (decodeURIComponent cs)
      else (case map hex_value (take 2 cs) of
         [Some a, Some b] \<Rightarrow> map_option (Cons (char_of (16 * a + b))) (decodeURIComponent (drop 2 cs))
       | _ \<Rightarrow> None))"

definition hash_text :: "string \<Rightarrow> string" where
  "hash_text hash = replace_first ''#'' [] hash"

definition initial_subTab :: "string \<Rightarrow> string" where
  "initial_subTab hash = (case split_on CHR ''/'' (hash_text hash) of
      p0 # p1 # _ \<Rightarrow> if p0 = ''myperm'' \<and> p1 \<noteq> [] then p1 else ''roles''
    | _ \<Rightarrow> ''roles'')"

definition some_text :: "string option \<Rightarrow> string option" where
  "some_text a = (if truthy a then a else None)"

definition initial_selected :: "string \<Rightarrow> selected_item option option" where
  "initial_selected hash = (let h = hash_text hash in
     case split_on CHR ''/'' h of
       _ # tab # rest \<Rightarrow>
         (if tab = [] \<or> rest = [] then Some None
          else (case decodeURIComponent (hd (split_on CHR ''?'' (join ''/'' rest))) of
              None \<Rightarrow> None
            | Some name \<Rightarrow>
                (if name = [] then Some None
                 else (let sp = parse_query (if str_includes ''?'' h then split_on CHR ''?'' h ! 1 else [])
                   in Some (Some \<lparr>si_tab = tab, si_name = name, si_database = some_text (obj_get sp ''db''),
                        si_catalog = some_text (obj_get sp ''cat''), si_objectType = some_text (obj_get sp ''ot'')\<rparr>)))))
     | _ \<Rightarrow> Some None)"

definition tab_hash :: "string \<Rightarrow> string" where
  "tab_hash t = ''#myperm/'' @ t"

definition hash_params :: "selected_item \<Rightarrow> (string \<times> string) list" where
  "hash_params item = map (\<lambda>(k, v). (k, the v)) (filter (\<lambda>(k, v). truthy v)
     [(''db'', si_database item), (''cat'', si_catalog item), (''ot'', si_objectType item)])"

definition item_hash :: "selected_item \<Rightarrow> string" where
  "item_hash item = ''#myperm/'' @ si_tab item @ ''/'' @ encodeURIComponent (si_name item)
     @ (if hash_params item = [] then [] else ''?'' @ uri_query (hash_params item))"

section \<open>The lists\<close>

datatype inv_row =
    RoleItem role_row
  | UserItem string
  | CatalogItem accessible_catalog
  | DatabaseItem accessible_database
  | ObjectItem accessible_object
  | SystemItem "string jsobj"

fun row_name :: "inv_row \<Rightarrow> string" where
  "row_name (RoleItem r) = rr_name r"
| "row_name (UserItem u) = u"
| "row_name (CatalogItem c) = ac_name c"
| "row_name (DatabaseItem d) = ad_name d"
| "row_name (ObjectItem ob) = ao_name ob"
| "row_name (SystemItem ob) = nullish (obj_get ob ''name'') []"

fun row_database :: "inv_row \<Rightarrow> string option" where
  "row_database (ObjectItem ob) = Some (ao_database ob)"
| "row_database (SystemItem ob) = obj_get ob ''database''"
| "row_database _ = None"

fun row_catalog :: "inv_row \<Rightarrow> string option" where
  "row_catalog (ObjectItem ob) = ao_catalog ob"
| "row_catalog (DatabaseItem d) = Some (ad_catalog d)"
| "row_catalog (SystemItem ob) = obj_get ob ''catalog''"
| "row_catalog _ = None"

definition role_source :: "role_tree_entry jsobj \<Rightarrow> string \<Rightarrow> string" where
  "role_source tree n = (case List.find (\<lambda>(k, v). n \<in> set (rt_parent_roles v)) (obj_entries tree) of
      Some (k, _) \<Rightarrow> k | None \<Rightarrow> ''-'')"

definition role_rows :: "bool \<Rightarrow> role_item list \<Rightarrow> my_permissions option \<Rightarrow> role_row list" where
  "role_rows isAdmin allRoles d =
     (if isAdmin \<and> allRoles \<noteq> [] then map (\<lambda>r. \<lparr>rr_name = ri_name r,
         rr_kind = (if ri_is_builtin r then ''builtin'' else ''custom''), rr_source = ''-'', rr_grantsCount = 0\<rparr>) allRoles
      else (case d of None \<Rightarrow> []
        | Some d \<Rightarrow> map (\<lambda>r. \<lparr>rr_name = r, rr_kind = ''direct'', rr_source = ''-'',
              rr_grantsCount = (case obj_get (mp_role_tree d) r of None \<Rightarrow> 0 | Some e \<Rightarrow> int (length (rt_grants e)))\<rparr>)
              (mp_direct_roles d)
            @ map (\<lambda>(n, e). \<lparr>rr_name = n, rr_kind = ''inherited'', rr_source = role_source (mp_role_tree d) n,
                rr_grantsCount = int (length (rt_grants e))\<rparr>)
              (filter (\<lambda>(n, e). n \<notin> set (mp_direct_roles d)) (obj_entries (mp_role_tree d)))))"

record inv_state =
  iv_isAdmin :: bool
  iv_data :: "my_permissions option"
  iv_loading :: bool
  iv_error :: bool
  iv_allRoles :: "role_item list"
  iv_allUsers :: "string list"
  iv_page :: nat
  iv_pageSize :: nat
  iv_sortDir :: sort_dir
  iv_subTab :: string
  iv_filter :: string
  iv_selected :: "selected_item option"
  iv_hash :: string

definition objects_of_type :: "string \<Rightarrow> inv_state \<Rightarrow> inv_row list" where
  "objects_of_type t s = (case iv_data s of None \<Rightarrow> []
     | Some d \<Rightarrow> map ObjectItem (filter (\<lambda>ob. ao_type ob = t) (mp_accessible_objects d)))"

definition system_of_type :: "string \<Rightarrow> inv_state \<Rightarrow> inv_row list" where
  "system_of_type t s = (case iv_data s of None \<Rightarrow> []
     | Some d \<Rightarrow> map SystemItem (filter (\<lambda>ob. obj_get ob ''type'' = Some t) (mp_system_objects d)))"

fun tab_items :: "sub_tab \<Rightarrow> inv_state \<Rightarrow> inv_row list" where
  "tab_items TRoles s = map RoleItem (role_rows (iv_isAdmin s) (iv_allRoles s) (iv_data s))"
| "tab_items TUsers s = (if iv_isAdmin s then map UserItem (iv_allUsers s) else [])"
| "tab_items TCatalogs s = (case iv_data s of None \<Rightarrow> [] | Some d \<Rightarrow> map CatalogItem (mp_accessible_catalogs d))"
| "tab_items TDatabases s = (case iv_data s of None \<Rightarrow> [] | Some d \<Rightarrow> map DatabaseItem (mp_accessible_databases d))"
| "tab_items TTables s = objects_of_type ''BASE TABLE'' s"
| "tab_items TViews s = objects_of_type ''VIEW'' s"
| "tab_items TMvs s = objects_of_type ''MATERIALIZED VIEW'' s"
| "tab_items TFunctions s = objects_of_type ''FUNCTION'' s"
| "tab_items TGfunctions s = system_of_type ''GLOBAL_FUNCTION'' s"
| "tab_items TPipes s = system_of_type ''PIPE'' s"
| "tab_items TTasks s = system_of_type ''TASK'' s"
| "tab_items TWarehouses s = system_of_type ''WAREHOUSE'' s"
| "tab_items TRgroups s = system_of_type ''RESOURCE_GROUP'' s"
| "tab_items TSvolumes s = system_of_type ''STORAGE_VOLUME'' s"
| "tab_items TResources s = system_of_type ''RESOURCE'' s"

text \<open>The texts that the filter looks at: names, also databases of objects and rules of groups.\<close>

fun row_texts :: "sub_tab \<Rightarrow> inv_row \<Rightarrow> string list" where
  "row_texts t (ObjectItem ob) = [ao_name ob, ao_database ob]"
| "row_texts t (SystemItem ob) = row_name (SystemItem ob)
     # (if t = TRgroups then [or_else (obj_get ob ''classifiers'') []] else [])"
| "row_texts t r = [row_name r]"

definition row_matches :: "string \<Rightarrow> sub_tab \<Rightarrow> inv_row \<Rightarrow> bool" where
  "row_matches lf t r \<longleftrightarrow> lf = [] \<or> list_ex (\<lambda>x. str_includes lf (to_lower x)) (row_texts t r)"

definition row_cmp :: "(string \<Rightarrow> string \<Rightarrow> rat) \<Rightarrow> sort_dir \<Rightarrow> inv_row \<Rightarrow> inv_row \<Rightarrow> rat" where
  "row_cmp collate dir a b = (let c = collate (row_name a) (row_name b) in if dir = Asc then c else - c)"

definition filteredList :: "(string \<Rightarrow> string \<Rightarrow> rat) \<Rightarrow> inv_state \<Rightarrow> inv_row list" where
  "filteredList collate s = js_sort (row_cmp collate (iv_sortDir s))
     (case tab_of_key (iv_subTab s) of None \<Rightarrow> []
      | Some t \<Rightarrow> filter (row_matches (to_lower (iv_filter s)) t) (tab_items t s))"

section \<open>The table\<close>

definition tab_is :: "inv_state \<Rightarrow> sub_tab list \<Rightarrow> bool" where
  "tab_is s ts \<longleftrightarrow> iv_subTab s \<in> set (map tab_key ts)"

datatype inv_event =
    FilterText string
  | ChooseTab sub_tab
  | ChoosePageSize nat
  | PrevPage
  | NextPage
  | ToggleSort
  | RowClick inv_row
  | CloseDetail
  | Panel pane_event
  | PermissionsLoaded "api_error + my_permissions"
  | RolesLoaded "role_item list"
  | HierarchyLoaded dag_graph

definition table_headers :: "inv_state \<Rightarrow> string \<times> string list" where
  "table_headers s =
     (if tab_is s [TRoles] then (''Role'', [''Type'', ''Source'', ''Grants''])
      else if tab_is s [TUsers] then (''User'', [''Host''])
      else if tab_is s [TCatalogs] then (''Catalog'', [''Type''])
      else if tab_is s [TDatabases] then (''Database'', [''Catalog''])
      else if tab_is s [TRgroups] then (''Name'', [''CPU'', ''Memory'', ''Assigned''])
      else if iv_subTab s \<in> set SYSTEM_TABS then (''Name'', show_if (tab_is s [TPipes, TTasks]) [''Database'']
        @ show_if (tab_is s [TWarehouses, TPipes, TTasks]) [''State''] @ show_if (tab_is s [TResources]) [''Type''])
      else if tab_is s [TTables, TMvs] then (''Name'', [''Catalog'', ''Database'', ''Rows'', ''Size''])
      else (''Name'', [''Catalog'', ''Database'']))"

text \<open>\<open>/(?:user|role|db|source_ip|query_type)/\<close> on the strings of the rules' JSON array.\<close>

definition ASSIGNED_RE :: re where
  "ASSIGNED_RE = Alt (lits ''user'') (Alt (lits ''role'') (Alt (lits ''db'') (Alt (lits ''source_ip'') (lits ''query_type''))))"

definition assigned_count :: "string jsobj \<Rightarrow> nat" where
  "assigned_count ob = (case Option.bind (json_parse (or_else (obj_get ob ''classifiers'') ''[]'')) json_strings of
      None \<Rightarrow> 0 | Some cs \<Rightarrow> length (filter (re_test ASSIGNED_RE) cs))"

definition group_cpu :: "string jsobj \<Rightarrow> string" where
  "group_cpu ob = (if limit_set ''exclusive_cpu_cores'' ob then ''excl: '' @ the (obj_get ob ''exclusive_cpu_cores'')
     else if truthy (obj_get ob ''cpu_weight'') then ''wt: '' @ the (obj_get ob ''cpu_weight'') else ''-'')"

fun row_cells :: "(int \<Rightarrow> string) \<Rightarrow> inv_state \<Rightarrow> inv_row \<Rightarrow> 'e node list" where
  "row_cells locale_int s (RoleItem r) = [TD [Txt (rr_name r)],
     TD [Badge (rr_kind r) (palette (if rr_kind r = ''direct'' then ''green'' else ''accent''))],
     TD [Txt (rr_source r)], TD [Txt (int_str (rr_grantsCount r))]]"
| "row_cells locale_int s (UserItem u) = (let p = parseGrantee u in
     [TD [Txt (pa_uname p)], TD [Txt (nullish (pa_hostLabel p) ALL_HOSTS_LABEL)]])"
| "row_cells locale_int s (CatalogItem c) = [TD [Txt (ac_name c)], TD [Txt (ac_type c)]]"
| "row_cells locale_int s (DatabaseItem d) = [TD [Txt (ad_name d)],
     TD [Txt (or_else (Some (ad_catalog d)) ''default_catalog'')]]"
| "row_cells locale_int s (ObjectItem ob) = [TD [Txt (ao_name ob)],
     TD [Txt (or_else (ao_catalog ob) ''default_catalog'')], TD [Txt (ao_database ob)]]
     @ show_if (tab_is s [TTables, TMvs])
        [TD [Txt (case ao_rows ob of None \<Rightarrow> ''-'' | Some n \<Rightarrow> locale_int n)],
         TD [Txt (case ao_size ob of None \<Rightarrow> ''-'' | Some n \<Rightarrow> formatBytes (of_int n))]]"
| "row_cells locale_int s (SystemItem ob) = TD [Txt (row_name (SystemItem ob))] #
     (if tab_is s [TRgroups] then [TD [Txt (group_cpu ob)], TD [Txt (or_else (obj_get ob ''mem_limit'') ''-'')],
        TD [Txt (nat_str (assigned_count ob))]]
      else show_if (tab_is s [TPipes, TTasks]) [TD [Txt (or_else (obj_get ob ''database'') ''-'')]]
        @ show_if (tab_is s [TWarehouses, TPipes, TTasks]) [TD [Txt (or_else (obj_get ob ''state'') ''-'')]]
        @ show_if (tab_is s [TResources]) [TD [Txt (or_else (obj_get ob ''resource_type'') ''-'')]])"

definition row_active :: "inv_state \<Rightarrow> inv_row \<Rightarrow> bool" where
  "row_active s r = (case iv_selected s of None \<Rightarrow> False
     | Some it \<Rightarrow> si_name it = row_name r \<and> si_database it = some_text (row_database r))"

definition row_node :: "(int \<Rightarrow> string) \<Rightarrow> inv_state \<Rightarrow> inv_row \<Rightarrow> inv_event node" where
  "row_node locale_int s r = El ''tr'' (show_if (row_active s r) [(''data-active'', ''true'')]) [RowClick r]
     (row_cells locale_int s r)"

definition en_dash :: string where "en_dash = utf8 8211"

definition showing_label :: "inv_state \<Rightarrow> nat \<Rightarrow> string" where
  "showing_label s n = ''Showing '' @ nat_str (min (iv_page s * iv_pageSize s + 1) n) @ en_dash
     @ nat_str (min ((iv_page s + 1) * iv_pageSize s) n) @ '' of '' @ nat_str n"

definition pager :: "inv_state \<Rightarrow> nat \<Rightarrow> inv_event node list" where
  "pager s n = show_if (n > 0)
     [Field ''page-size'' (nat_str (iv_pageSize s)) True (\<lambda>_. ChoosePageSize (iv_pageSize s))
        (map (\<lambda>k. (nat_str k @ '' / page'', ChoosePageSize k)) [10, 25, 50, 100]),
      button ''prev'' (iv_page s = 0) PrevPage ''Prev'',
      Txt (nat_str (iv_page s + 1) @ '' / '' @ nat_str (max 1 (page_count (iv_pageSize s) n))),
      button ''next'' ((iv_page s + 1) * iv_pageSize s \<ge> n) NextPage ''Next'']"

definition chip :: "inv_state \<Rightarrow> sub_tab \<times> string \<Rightarrow> inv_event node" where
  "chip s m = Chip (snd m @ '' ('' @ nat_str (length (tab_items (fst m) s)) @ '')'')
     (iv_subTab s = tab_key (fst m)) (ChooseTab (fst m))"

definition InventoryTab ::
  "(string \<Rightarrow> string \<Rightarrow> rat) \<Rightarrow> (int \<Rightarrow> string) \<Rightarrow> (selected_item \<Rightarrow> my_permissions \<Rightarrow> pane_event node) \<Rightarrow> inv_state
    \<Rightarrow> inv_event node" where
  "InventoryTab collate locale_int detail s =
     (case (iv_loading s, iv_error s, iv_data s) of
        (False, False, Some d) \<Rightarrow>
          (let rows = filteredList collate s in box (
            [SearchInput (iv_filter s) FilterText] @ map (chip s) SUB_TAB_META
            @ [Txt (showing_label s (length rows))] @ pager s (length rows)
            @ [if rows = [] then box [Txt ''No items found'']
               else El ''table'' [] []
                 (El ''tr'' [] [] (SortTH (fst (table_headers s)) (iv_sortDir s = Asc) ToggleSort
                    # map TH (snd (table_headers s)))
                  # map (row_node locale_int s) (page_slice (iv_pageSize s) (iv_page s) rows))]
            @ (case iv_selected s of None \<Rightarrow> [] | Some it \<Rightarrow> [map_node Panel (detail it d)])))
      | _ \<Rightarrow> box [Txt (if iv_loading s then ''Loading inventory...'' else ''Failed to load data.'')])"

section \<open>The machine\<close>

definition inv_mount :: "bool \<Rightarrow> string \<Rightarrow> inv_state option" where
  "inv_mount isAdmin hash = map_option (\<lambda>sel. \<lparr>iv_isAdmin = isAdmin, iv_data = None, iv_loading = True,
     iv_error = False, iv_allRoles = [], iv_allUsers = [], iv_page = 0, iv_pageSize = 25, iv_sortDir = Asc,
     iv_subTab = initial_subTab hash, iv_filter = [], iv_selected = sel, iv_hash = hash\<rparr>) (initial_selected hash)"

definition setSubTab :: "string \<Rightarrow> inv_state \<Rightarrow> inv_state" where
  "setSubTab t s = s\<lparr>iv_subTab := t, iv_selected := None, iv_hash := tab_hash t\<rparr>"

text \<open>\<open>setSelected\<close> of a render with the sub-tab \<open>t\<close>.\<close>

definition setSelected :: "string \<Rightarrow> selected_item option \<Rightarrow> inv_state \<Rightarrow> inv_state" where
  "setSelected t sel s = s\<lparr>iv_selected := sel,
     iv_hash := (case sel of None \<Rightarrow> tab_hash t | Some it \<Rightarrow> item_hash it)\<rparr>"

definition clicked_item :: "string \<Rightarrow> inv_row \<Rightarrow> selected_item" where
  "clicked_item t r = \<lparr>si_tab = t, si_name = row_name r, si_database = some_text (row_database r),
     si_catalog = Some (or_else (row_catalog r) ''default_catalog''),
     si_objectType = Some (case tab_of_key t of Some u \<Rightarrow> OBJECT_TYPE_MAP u | None \<Rightarrow> ''TABLE'')\<rparr>"

fun inv_step :: "(string \<Rightarrow> string \<Rightarrow> rat) \<Rightarrow> inv_state \<Rightarrow> inv_event \<Rightarrow> inv_state" where
  "inv_step collate s (FilterText v) = s\<lparr>iv_filter := v, iv_page := 0\<rparr>"
| "inv_step collate s (ChooseTab t) =
     (setSelected (iv_subTab s) None (setSubTab (tab_key t) s))\<lparr>iv_page := 0\<rparr>"
| "inv_step collate s (ChoosePageSize k) = s\<lparr>iv_pageSize := k, iv_page := 0\<rparr>"
| "inv_step collate s PrevPage = s\<lparr>iv_page := iv_page s - 1\<rparr>"
| "inv_step collate s NextPage =
     s\<lparr>iv_page := min (page_count (iv_pageSize s) (length (filteredList collate s)) - 1) (iv_page s + 1)\<rparr>"
| "inv_step collate s ToggleSort = s\<lparr>iv_sortDir := (if iv_sortDir s = Asc then Desc else Asc)\<rparr>"
| "inv_step collate s (RowClick r) = setSelected (iv_subTab s) (Some (clicked_item (iv_subTab s) r)) s"
| "inv_step collate s CloseDetail = setSelected (iv_subTab s) None s"
| "inv_step collate s (Panel e) = (if e = ClosePanel then setSelected (iv_subTab s) None s else s)"
| "inv_step collate s (PermissionsLoaded res) = (case res of
      Inr d \<Rightarrow> s\<lparr>iv_data := Some d, iv_loading := False, iv_error := False\<rparr>
    | Inl e \<Rightarrow> if e = AbortError then s else s\<lparr>iv_data := None, iv_loading := False, iv_error := True\<rparr>)"
| "inv_step collate s (RolesLoaded rs) = s\<lparr>iv_allRoles := rs\<rparr>"
| "inv_step collate s (HierarchyLoaded dag) =
     (if iv_isAdmin s then s\<lparr>iv_allUsers := map dn_label (filter (\<lambda>n. dn_type n = ''user'') (dg_nodes dag))\<rparr> else s)"

section \<open>Reloading\<close>

lemma decode_component_append: "decodeURIComponent (encodeURIComponent s) = Some s"
proof (induction s)
  case (Cons c s)
  have IH: "decodeURIComponent (concat (map (\<lambda>c. if uri_plain c then [c] else pct c) s)) = Some s"
    using Cons unfolding encodeURIComponent_def .
  show ?case
  proof (cases "uri_plain c")
    case True
    then show ?thesis using IH uri_plain_other [of c] by (simp add: encodeURIComponent_def)
  next
    case False
    define n where "n = (of_char c :: nat)"
    have "n < 256" unfolding n_def by (rule of_char_less)
    then have "hex_value (hex_upper (n div 16)) = Some (n div 16)" "hex_value (hex_upper (n mod 16)) = Some (n mod 16)"
      by (auto intro: hex_value_upper)
    moreover have "char_of n = c" by (simp add: n_def)
    ultimately show ?thesis using False IH
      by (simp add: encodeURIComponent_def pct_def Let_def n_def [symmetric])
  qed
qed (simp add: encodeURIComponent_def)

lemma tab_key_plain: "CHR ''/'' \<notin> set (tab_key t)" "CHR ''?'' \<notin> set (tab_key t)" "CHR ''#'' \<notin> set (tab_key t)" "tab_key t \<noteq> []"
  by (cases t; simp)+

lemma join_no_char: "d \<notin> set sep \<Longrightarrow> list_all (\<lambda>x. d \<notin> set x) xs \<Longrightarrow> d \<notin> set (join sep xs)"
  by (induction sep xs rule: join.induct) auto

lemma uri_query_no_char:
  assumes "d = CHR ''/'' \<or> d = CHR ''?''" and "list_all (\<lambda>k. d \<notin> set k) (map fst ps)"
  shows "d \<notin> set (uri_query ps)"
  unfolding uri_query_def
  by (rule join_no_char) (use assms no_slash no_question in \<open>auto simp: list_all_iff\<close>)

lemma hash_params_keys:
  "list_all plain_name (map fst (hash_params item))" "list_all (\<lambda>k. CHR ''/'' \<notin> set k) (map fst (hash_params item))"
  "list_all (\<lambda>k. CHR ''?'' \<notin> set k) (map fst (hash_params item))"
  by (simp_all add: hash_params_def plain_name_def encodeURIComponent_def uri_plain_def is_alnum_def list_all_iff split_beta)

lemma truthy_the: "truthy x \<Longrightarrow> Some (the x) = x"
  by (cases x) simp_all

lemma hash_params_get:
  "some_text (obj_get (hash_params item) ''db'') = some_text (si_database item)"
  "some_text (obj_get (hash_params item) ''cat'') = some_text (si_catalog item)"
  "some_text (obj_get (hash_params item) ''ot'') = some_text (si_objectType item)"
  by (cases "truthy (si_database item)"; cases "truthy (si_catalog item)"; cases "truthy (si_objectType item)";
      simp add: hash_params_def some_text_def obj_get_Cons truthy_the)+

lemma item_hash_text: "hash_text (item_hash item) = ''myperm'' @ CHR ''/'' # si_tab item @ CHR ''/'' #
    (encodeURIComponent (si_name item) @ (if hash_params item = [] then [] else CHR ''?'' # uri_query (hash_params item)))"
  by (simp add: hash_text_def item_hash_def starts_with_def)

lemma item_hash_parts:
  assumes "si_tab item = tab_key t"
  defines "n \<equiv> encodeURIComponent (si_name item)"
    and "q \<equiv> (if hash_params item = [] then [] else CHR ''?'' # uri_query (hash_params item))"
  shows "split_on CHR ''/'' (hash_text (item_hash item)) = [''myperm'', tab_key t, n @ q]"
    and "hd (split_on CHR ''?'' (n @ q)) = n"
    and "parse_query (if str_includes ''?'' (hash_text (item_hash item)) then split_on CHR ''?'' (hash_text (item_hash item)) ! 1 else [])
      = hash_params item"
proof -
  have nq: "CHR ''/'' \<notin> set (n @ q)"
    using no_slash uri_query_no_char [OF _ hash_params_keys(2)] by (auto simp: n_def q_def)
  show "split_on CHR ''/'' (hash_text (item_hash item)) = [''myperm'', tab_key t, n @ q]"
    using split_on_append [of "CHR ''/''" "''myperm''" "tab_key t @ CHR ''/'' # n @ q"]
      split_on_append [OF tab_key_plain(1) [of t], of "n @ q"] split_on_no_sep [OF nq]
    by (simp add: item_hash_text assms(1) n_def q_def)
  show "hd (split_on CHR ''?'' (n @ q)) = n"
    using split_on_append [of "CHR ''?''" n "uri_query (hash_params item)"] split_on_no_sep [of "CHR ''?''" n] no_question
    by (simp add: n_def q_def)
  define p where "p = ''myperm'' @ CHR ''/'' # tab_key t @ CHR ''/'' # n"
  have h: "hash_text (item_hash item) = p @ q" by (simp add: item_hash_text assms(1) p_def n_def q_def)
  have p: "CHR ''?'' \<notin> set p" using tab_key_plain(2) no_question by (simp add: p_def n_def)
  show "parse_query (if str_includes ''?'' (hash_text (item_hash item)) then split_on CHR ''?'' (hash_text (item_hash item)) ! 1 else [])
      = hash_params item"
  proof (cases "hash_params item = []")
    case True
    then have "\<not> str_includes ''?'' p" using p by (auto simp: str_includes_iff)
    then show ?thesis using True by (simp add: h q_def parse_query_def)
  next
    case False
    have "str_includes ''?'' (p @ q)" using False by (auto simp: str_includes_iff q_def)
    moreover have "split_on CHR ''?'' (p @ q) = [p, uri_query (hash_params item)]"
      using False split_on_append [OF p] split_on_no_sep [OF uri_query_no_char [OF _ hash_params_keys(3)]]
      by (simp add: q_def)
    ultimately show ?thesis by (simp add: h parse_uri_query [OF hash_params_keys(1)])
  qed
qed

lemma read_item_hash:
  assumes "si_tab item = tab_key t" and "si_name item \<noteq> []"
  shows "initial_subTab (item_hash item) = tab_key t"
    and "initial_selected (item_hash item) = Some (Some \<lparr>si_tab = tab_key t, si_name = si_name item,
      si_database = some_text (si_database item), si_catalog = some_text (si_catalog item),
      si_objectType = some_text (si_objectType item)\<rparr>)"
proof -
  note parts = item_hash_parts [OF assms(1)]
  show "initial_subTab (item_hash item) = tab_key t"
    unfolding initial_subTab_def parts(1) using tab_key_plain by simp
  show "initial_selected (item_hash item) = Some (Some \<lparr>si_tab = tab_key t, si_name = si_name item,
      si_database = some_text (si_database item), si_catalog = some_text (si_catalog item),
      si_objectType = some_text (si_objectType item)\<rparr>)"
    unfolding initial_selected_def Let_def parts(1) list.case join.simps parts(2) parts(3) decode_component_append option.case
    using tab_key_plain assms(2) by (simp add: hash_params_get)
qed

lemma OBJECT_TYPE_nonempty: "OBJECT_TYPE_MAP t \<noteq> []"
  by (cases t) simp_all

text \<open>
  C17. The selection survives a reload: after a click on any row with a name, in any tab, the address bar's
  hash, read at the next start, gives the same tab and the same item with its database, catalog and type,
  whatever characters the names have.
\<close>

theorem selection_survives_reload:
  "if row_name r = [] then True
   else case inv_step collate (s\<lparr>iv_subTab := tab_key t\<rparr>) (RowClick r) of s' \<Rightarrow>
     (case inv_mount isAdmin (iv_hash s') of None \<Rightarrow> False
      | Some m \<Rightarrow> iv_selected m = iv_selected s' \<and> iv_subTab m = tab_key t)"
proof (cases "row_name r = []")
  case False
  let ?item = "clicked_item (tab_key t) r"
  have "or_else (row_catalog r) ''default_catalog'' \<noteq> []" by (cases "row_catalog r") auto
  then have "some_text (si_database ?item) = si_database ?item" "some_text (si_catalog ?item) = si_catalog ?item"
    "some_text (si_objectType ?item) = si_objectType ?item"
    using OBJECT_TYPE_nonempty by (simp_all add: clicked_item_def some_text_def)
  moreover have "si_tab ?item = tab_key t" "si_name ?item = row_name r" by (simp_all add: clicked_item_def)
  ultimately show ?thesis
    using read_item_hash [of ?item t] False by (simp add: inv_mount_def setSelected_def)
qed simp

text \<open>
  A click on a chip writes the new tab into the hash and then, with the handler of the render before, the
  old tab: a reload goes back to it.
\<close>

lemma chip_hash_is_stale: "iv_hash (inv_step collate s (ChooseTab t)) = tab_hash (iv_subTab s)"
  by (simp add: setSelected_def setSubTab_def)

section \<open>Pages\<close>

lemma pages_concat: "0 < k \<Longrightarrow> concat (map (\<lambda>p. page_slice k p xs) [0..<m]) = take (m * k) xs"
  by (induction m) (simp_all add: page_slice_def take_add [symmetric] add.commute)

lemma page_count_covers: "0 < k \<Longrightarrow> n \<le> page_count k n * k"
proof -
  assume k: "0 < k"
  have "(n + k - 1) div k * k + (n + k - 1) mod k = n + k - 1" by (rule div_mult_mod_eq)
  moreover have "(n + k - 1) mod k < k" using k by (rule mod_less_divisor)
  ultimately have "n \<le> (n + k - 1) div k * k" using k by linarith
  then show ?thesis by (simp only: page_count_def)
qed

text \<open>
  C18. The pages show every item exactly once: the pages of the list in order make up the list, which is a
  permutation of the items of the tab that match the filter, and no page is longer than the page size.
\<close>

theorem inventory_pages:
  "case filteredList collate s of rows \<Rightarrow>
     mset rows = mset (case tab_of_key (iv_subTab s) of None \<Rightarrow> []
       | Some t \<Rightarrow> filter (row_matches (to_lower (iv_filter s)) t) (tab_items t s))
     \<and> (if iv_pageSize s = 0 then True
        else concat (map (\<lambda>p. page_slice (iv_pageSize s) p rows) [0..<page_count (iv_pageSize s) (length rows)]) = rows
          \<and> length (page_slice (iv_pageSize s) (iv_page s) rows) \<le> iv_pageSize s)"
proof -
  define rows where "rows = filteredList collate s"
  have "concat (map (\<lambda>p. page_slice k p rows) [0..<page_count k (length rows)]) = rows" if "k > 0" for k
    using page_count_covers [OF that, of "length rows"] by (simp add: pages_concat [OF that])
  moreover have "length (page_slice k p rows) \<le> k" for k p by (simp add: page_slice_def)
  moreover have "mset rows = mset (case tab_of_key (iv_subTab s) of None \<Rightarrow> []
      | Some t \<Rightarrow> filter (row_matches (to_lower (iv_filter s)) t) (tab_items t s))"
    by (simp add: rows_def filteredList_def)
  ultimately show ?thesis unfolding rows_def [symmetric] by simp
qed

text \<open>
  The table counts the rules of a group by words, the detail panel by keys: a rule on the plan's cost is an
  assignment in one and none in the other.
\<close>

lemma assigned_counts_differ:
  "case [(''classifiers'', ''['' @ json_quote ''(id=1, plan_cpu_cost_range=9)'' @ '']'')] of ob \<Rightarrow>
     assigned_count ob = 0 \<and> length (cr_classifiers (parseResourceGroupClassifiers (obj_get ob ''classifiers''))) = 1"
  by code_simp

end
