(* ===== verification/Object_Panel.thy ===== *)
theory Object_Panel
  imports Detail_Panes Dag_Store Dag_Nodes
begin

text \<open>
  The side panel of the graph views: \<open>components/panels/ObjectDetailPanel.tsx\<close>,
  \<open>UserDetailPanel.tsx\<close> and \<open>GroupDetailPanel.tsx\<close>. The selected node is compared by reference
  in the dependency lists of the effects, so a selection is a node with the identity of its object.
  The requests for table details are not cancelled: they are kept with the node they were sent for and
  settle in any order.
\<close>

type_synonym selection = "(nat \<times> dag_node) option"

section \<open>The object of a node\<close>

definition meta_field :: "string \<Rightarrow> dag_node \<Rightarrow> string option" where
  "meta_field k n = Option.bind (dn_metadata n) (\<lambda>m. obj_get m k)"

definition node_kind :: "dag_node \<Rightarrow> string" where
  "node_kind n = to_lower (dn_type n)"

definition srObjectType :: "dag_node \<Rightarrow> string" where
  "srObjectType n = (if node_kind n = ''mv'' then ''MATERIALIZED VIEW'' else to_upper (node_kind n))"

definition panel_call :: "dag_node \<Rightarrow> api_call" where
  "panel_call n = (let nt = node_kind n; cat = meta_field ''catalog'' n; db = meta_field ''database'' n in
     if nt = ''role'' then getRolePrivileges UserBase (dn_label n)
     else if nt = ''database'' then getObjectPrivileges UserBase cat (Some (dn_label n)) None (Some (srObjectType n))
     else if nt = ''catalog'' then getObjectPrivileges UserBase (Some (dn_label n)) None None (Some (srObjectType n))
     else if nt = ''system'' then getObjectPrivileges UserBase None None None (Some (srObjectType n))
     else getObjectPrivileges UserBase cat db (Some (dn_label n)) (Some (srObjectType n)))"

definition panel_ref :: "dag_node \<Rightarrow> grant_object_ref" where
  "panel_ref n = (let nt = node_kind n in \<lparr>go_object_type = srObjectType n,
     go_catalog = Some (if nt = ''catalog'' then dn_label n else nullish (meta_field ''catalog'' n) ''default_catalog''),
     go_database = (if nt = ''catalog'' then None else if nt = ''database'' then Some (dn_label n)
       else meta_field ''database'' n),
     go_name = (if nt \<in> {''catalog'', ''database''} then None else Some (dn_label n))\<rparr>)"

definition panel_path :: "dag_node \<Rightarrow> string list" where
  "panel_path n = (let nt = node_kind n; cat = meta_field ''catalog'' n; db = meta_field ''database'' n;
       parts = (if nt = ''catalog'' then [Some (dn_label n)]
         else if nt = ''database'' then filter truthy [cat, Some (dn_label n)]
         else if nt = ''system'' then [Some ''SYSTEM'']
         else filter truthy [cat, db, Some (dn_label n)])
     in map the parts)"

definition GRANT_KINDS :: "string list" where
  "GRANT_KINDS = [''catalog'', ''database'', ''table'', ''view'', ''mv'', ''function'']"

text \<open>The table whose details the panel can ask for.\<close>

definition detail_key :: "dag_node \<Rightarrow> (string \<times> string \<times> string) option" where
  "detail_key n = (case (meta_field ''catalog'' n, meta_field ''database'' n) of
      (Some c, Some d) \<Rightarrow> (if c = [] \<or> d = [] \<or> dn_label n = [] then None else Some (c, d, dn_label n))
    | _ \<Rightarrow> None)"

section \<open>Its state\<close>

datatype obj_tab = PrivilegesTab | DetailsTab

record obj_panel =
  ob_sel :: selection
  ob_tab :: obj_tab
  ob_detail :: "table_detail option"
  ob_loading :: bool
  ob_requests :: "(nat \<times> dag_node) list"
  ob_privs :: "(selection, privilege_grant list) async_state"
  ob_ddl :: bool

datatype 'v obj_event =
    SelectNode selection
  | PickTab obj_tab
  | DetailAnswer nat "table_detail option"
  | PrivAnswer nat 'v
  | PanelWizard wizard_prefill
  | ToggleDdl

text \<open>
  The effect that asks for the details, with the tab and the details of the render it belongs to.
\<close>

definition detail_effect :: "obj_tab \<Rightarrow> table_detail option \<Rightarrow> obj_panel \<Rightarrow> obj_panel" where
  "detail_effect t d s = (case ob_sel s of
      None \<Rightarrow> s
    | Some (r, n) \<Rightarrow> (if t = DetailsTab \<and> d = None \<and> detail_key n \<noteq> None
        then s\<lparr>ob_loading := True, ob_requests := ob_requests s @ [(r, n)]\<rparr> else s))"

definition obj_mount :: "selection \<Rightarrow> obj_panel" where
  "obj_mount sel = \<lparr>ob_sel = sel, ob_tab = PrivilegesTab, ob_detail = None, ob_loading = False, ob_requests = [],
     ob_privs = async_mount (sel \<noteq> None) sel, ob_ddl = False\<rparr>"

text \<open>
  A new selection: the hook renders, the first effect goes back to the privileges and drops the
  details, the second one still sees the tab and the details of this render.
\<close>

definition reset_effect :: "obj_panel \<Rightarrow> obj_panel" where
  "reset_effect s = (if ob_sel s = None then s
     else s\<lparr>ob_tab := PrivilegesTab, ob_detail := None, ob_loading := False\<rparr>)"

definition select_node :: "selection \<Rightarrow> obj_panel \<Rightarrow> obj_panel" where
  "select_node sel s = (let s1 = s\<lparr>ob_sel := sel, ob_privs := async_render (sel \<noteq> None) sel (ob_privs s)\<rparr> in
     if map_option fst sel = map_option fst (ob_sel s) then s1
     else detail_effect (ob_tab s) (ob_detail s) (reset_effect s1))"

definition detail_answer :: "nat \<Rightarrow> table_detail option \<Rightarrow> obj_panel \<Rightarrow> obj_panel" where
  "detail_answer i res s = (if i < length (ob_requests s) then
     (let s1 = s\<lparr>ob_requests := take i (ob_requests s) @ drop (Suc i) (ob_requests s), ob_loading := False\<rparr>
      in case res of Some d \<Rightarrow> s1\<lparr>ob_detail := Some d\<rparr> | None \<Rightarrow> s1)
     else s)"

definition ddl_shown :: "obj_panel \<Rightarrow> bool" where
  "ddl_shown s \<longleftrightarrow> ob_tab s = DetailsTab \<and> \<not> ob_loading s
     \<and> (case ob_detail s of None \<Rightarrow> False | Some d \<Rightarrow> truthy (td_ddl d))"

definition keep_ddl :: "obj_panel \<Rightarrow> obj_panel" where
  "keep_ddl s = (if ddl_shown s then s else s\<lparr>ob_ddl := False\<rparr>)"

fun obj_step ::
  "('v \<Rightarrow> selection \<Rightarrow> string + privilege_grant list) \<Rightarrow> obj_panel \<Rightarrow> 'v obj_event \<Rightarrow> obj_panel" where
  "obj_step server s (SelectNode sel) = keep_ddl (select_node sel s)"
| "obj_step server s (PickTab t) =
     (if t = ob_tab s then s else keep_ddl (detail_effect t (ob_detail s) (s\<lparr>ob_tab := t\<rparr>)))"
| "obj_step server s (DetailAnswer i res) = keep_ddl (detail_answer i res s)"
| "obj_step server s (PrivAnswer i v) = s\<lparr>ob_privs := async_step server (ob_privs s) (Settled i v)\<rparr>"
| "obj_step server s (PanelWizard p) = s"
| "obj_step server s ToggleDdl = (if ddl_shown s then s\<lparr>ob_ddl := \<not> ob_ddl s\<rparr> else s)"

section \<open>Its view\<close>

definition InfoRow :: "string \<Rightarrow> string \<Rightarrow> 'e node" where
  "InfoRow label v = box [box [Txt label], box [Txt v]]"

definition info_if :: "string \<Rightarrow> string option \<Rightarrow> 'e node list" where
  "info_if label v = (if truthy v then [InfoRow label (the v)] else [])"

definition DDLBlock :: "bool \<Rightarrow> string \<Rightarrow> 'v obj_event node" where
  "DDLBlock op ddl = box (click_text ToggleDdl
     (if op then utf8 9660 @ '' Hide DDL'' else utf8 9654 @ '' Show DDL'')
     # show_if op [El ''pre'' [] [] [Txt ddl]])"

definition distribution_text :: "table_detail \<Rightarrow> string" where
  "distribution_text d = nullish (td_distribution_type d) [] @ ''(''
     @ (case td_bucket_keys d of None \<Rightarrow> ''undefined'' | Some ks \<Rightarrow> join '', '' ks) @ '') x ''
     @ (case td_bucket_count d of None \<Rightarrow> ''null'' | Some n \<Rightarrow> int_str n)"

definition partition_text :: "table_detail \<Rightarrow> string" where
  "partition_text d = nullish (td_partition_method d) [] @ ''('' @ nullish (td_partition_key d) ''null'' @ '')''
     @ (case td_partition_count d of None \<Rightarrow> [] | Some n \<Rightarrow> '' - '' @ int_str n @ '' partitions'')"

definition panel_column :: "column_info \<Rightarrow> 'e node" where
  "panel_column c = El ''tr'' [] [] [El ''td'' [] [] [Txt (co_name c)], El ''td'' [] [] [Txt (co_column_type c)],
     El ''td'' [] [] [Txt (or_else (co_column_key c) [])],
     El ''td'' [] [] [Txt (if co_is_nullable c = ''YES'' then ''Y'' else [])]]"

definition detail_view :: "(int \<Rightarrow> string) \<Rightarrow> bool \<Rightarrow> table_detail \<Rightarrow> 'v obj_event node" where
  "detail_view locale_int ddl_open d = box (
     info_if ''Key Type'' (td_key_type d) @ info_if ''Engine'' (td_engine d)
     @ (case td_row_count d of None \<Rightarrow> [] | Some n \<Rightarrow> [InfoRow ''Rows'' (locale_int n)])
     @ (case td_data_size d of None \<Rightarrow> [] | Some n \<Rightarrow> [InfoRow ''Data Size'' (formatBytes (of_int n))])
     @ show_if (truthy (td_distribution_type d)) [InfoRow ''Distribution'' (distribution_text d)]
     @ show_if (truthy (td_partition_method d)) [InfoRow ''Partition'' (partition_text d)]
     @ (case td_replication_num d of None \<Rightarrow> []
        | Some n \<Rightarrow> if n = 0 then [Txt ''0''] else [InfoRow ''Replicas'' (int_str n)])
     @ info_if ''Storage'' (td_storage_medium d) @ info_if ''Compression'' (td_compression d)
     @ info_if ''Created'' (td_create_time d) @ info_if ''Last Updated'' (td_update_time d)
     @ show_if (td_columns d \<noteq> []) [Txt (''Columns ('' @ nat_str (length (td_columns d)) @ '')''),
         El ''table'' [] [] (map (\<lambda>h. El ''th'' [] [] [Txt h]) [''Name'', ''Type'', ''Key'', ''Null'']
           @ map panel_column (td_columns d))]
     @ (if truthy (td_ddl d) then [DDLBlock ddl_open (the (td_ddl d))] else []))"

definition grant_button :: "bool \<Rightarrow> dag_node \<Rightarrow> 'v obj_event node list" where
  "grant_button canManage n = show_if (canManage \<and> node_kind n \<in> set GRANT_KINDS)
     [button ''panel-grant-btn'' False (PanelWizard (empty_prefill\<lparr>wp_object := Some (panel_ref n)\<rparr>))
       (utf8 9881 @ '' Grant'' @ ellipsis)]"

definition role_tree :: "privilege_grant list \<Rightarrow> 'e node" where
  "role_tree grants = GrantTreeView (buildGrantDisplay grants False []) (Some ''Role Privileges'')
     (Some (length grants)) (Some (extractSourceRoles grants))"

definition privileges_view ::
  "bool \<Rightarrow> dag_node \<Rightarrow> privilege_grant list async_data \<Rightarrow> 'v obj_event node option" where
  "privileges_view canManage n res = (let grants = nullish (ar_data res) [] in
     if ar_loading res then Some (box [Txt ''Loading...''])
     else if grants = [] then Some (box [Txt ''No grants found''])
     else if node_kind n = ''role'' then Some (role_tree grants)
     else map_option (map_node PanelWizard)
       (PermissionMatrixView canManage grants (srObjectType n) None (Some (panel_ref n))))"

definition ObjectDetailPanel :: "(int \<Rightarrow> string) \<Rightarrow> bool \<Rightarrow> obj_panel \<Rightarrow> 'v obj_event node option" where
  "ObjectDetailPanel locale_int canManage s = (case ob_sel s of
      None \<Rightarrow> Some (box [])
    | Some (r, n) \<Rightarrow> map_option (\<lambda>content. box ([
          box (map Txt (panel_path n)),
          box (Txt (to_upper (dn_type n)) # grant_button canManage n),
          click_text (PickTab PrivilegesTab) ''privileges'', click_text (PickTab DetailsTab) ''details'']
        @ [content]))
      (case ob_tab s of
         PrivilegesTab \<Rightarrow> privileges_view canManage n (async_result False (ob_privs s))
       | DetailsTab \<Rightarrow> Some (
           if ob_loading s then box [Txt ''Loading details...'']
           else case ob_detail s of
               None \<Rightarrow> box [Txt (if dn_label n \<noteq> [] then ''Could not load details'' else ''Select a table/view to see details'')]
             | Some d \<Rightarrow> detail_view locale_int (ob_ddl s) d)))"

section \<open>UserDetailPanel.tsx\<close>

definition user_panel_call :: "dag_node \<Rightarrow> api_call" where
  "user_panel_call n = getUserEffectivePrivileges UserBase (dn_label n)"

definition manage_prefill :: "dag_node \<Rightarrow> wizard_prefill" where
  "manage_prefill n = empty_prefill\<lparr>wp_grantee := Some \<lparr>ge_name = dn_label n,
     ge_type = (if to_upper (dn_type n) = ''ROLE'' then GRole else GUser)\<rparr>\<rparr>"

definition UserDetailPanel :: "bool \<Rightarrow> dag_node option \<Rightarrow> privilege_grant list async_data \<Rightarrow> wizard_prefill node" where
  "UserDetailPanel canManage sel res = (case sel of
      None \<Rightarrow> box []
    | Some n \<Rightarrow> (let grants = nullish (ar_data res) []; p = parseGrantee (dn_label n) in box (
        [box ([InlineIcon ''user'', Txt (dn_label n)]
           @ show_if canManage [button ''panel-manage-btn'' False (manage_prefill n) (utf8 9881 @ '' Manage'' @ ellipsis)]),
         (if truthy (pa_hostLabel p) then box [Txt (pa_uname p), box [Txt (''('' @ nullish (pa_hostLabel p) [] @ '')'')]]
          else box [Txt (dn_label n)])]
        @ [if ar_loading res then box [Txt ''Loading...'']
           else GrantTreeView (buildGrantDisplay grants False []) (Some ''Effective Privileges'')
             (Some (length grants)) (Some (extractSourceRoles grants))])))"

section \<open>GroupDetailPanel.tsx\<close>

definition PAGE_SIZE :: nat where "PAGE_SIZE = 20"

datatype group_event = ClickChild dag_node | SetGroupPage nat

definition PagerBtn :: "string \<Rightarrow> bool \<Rightarrow> 'e \<Rightarrow> 'e node" where
  "PagerBtn label dis e = El ''button'' (disabled_if dis) [e] [Txt label]"

definition clickChild :: "dag_node \<Rightarrow> dag_state \<Rightarrow> dag_state" where
  "clickChild child s = setPanelMode (Some (if dn_type child = ''user'' then PanelUser else PanelObject))
     (setSelectedNode (Some child) s)"

definition child_button :: "dag_node \<Rightarrow> group_event node" where
  "child_button child = El ''button'' [] [ClickChild child]
     [InlineIcon (dn_type child), Txt (dn_label child), Txt (utf8 9656)]"

definition GroupDetailPanel :: "dag_state \<Rightarrow> nat \<Rightarrow> group_event node" where
  "GroupDetailPanel s page = (case da_selectedNode s of
      None \<Rightarrow> box []
    | Some sel \<Rightarrow> (let total = length (da_groupChildren s); totalPages = page_count PAGE_SIZE total in box (
        [box [InlineIcon (dn_type sel), Txt (dn_label sel)],
         Badge (to_upper (dn_type sel) @ '' Group'')
           (or_else (dn_color sel) (or_else (obj_get NODE_COLORS (dn_type sel)) (palette ''text2''))),
         Txt (nat_str total @ '' Objects'')]
        @ show_if (totalPages > 1) [Txt ('' (page '' @ nat_str (page + 1) @ ''/'' @ nat_str totalPages @ '')'')]
        @ map child_button (page_slice PAGE_SIZE page (da_groupChildren s))
        @ show_if (totalPages > 1) [PagerBtn (utf8 9664) (page = 0) (SetGroupPage (page - 1)),
            Txt (nat_str (page + 1) @ '' / '' @ nat_str totalPages),
            PagerBtn (utf8 9654) (page + 1 \<ge> totalPages) (SetGroupPage (page + 1))])))"

fun group_step :: "dag_state \<times> nat \<Rightarrow> group_event \<Rightarrow> dag_state \<times> nat" where
  "group_step (s, page) (ClickChild child) = (clickChild child s, page)"
| "group_step (s, page) (SetGroupPage p) = (s, p)"

section \<open>Lemmas\<close>

definition obj_ok :: "('v \<Rightarrow> selection \<Rightarrow> string + privilege_grant list) \<Rightarrow> obj_panel \<Rightarrow> bool" where
  "obj_ok server s \<longleftrightarrow> as_deps (ob_privs s) = ob_sel s \<and> as_enabled (ob_privs s) = (ob_sel s \<noteq> None)
     \<and> async_ok server (ob_privs s)"

lemma detail_effect_frame [simp]:
  "ob_sel (detail_effect t d s) = ob_sel s" "ob_privs (detail_effect t d s) = ob_privs s"
  "ob_tab (detail_effect t d s) = ob_tab s" "ob_detail (detail_effect t d s) = ob_detail s"
  by (simp_all add: detail_effect_def split: option.split prod.split)

lemma reset_effect_frame [simp]:
  "ob_sel (reset_effect s) = ob_sel s" "ob_privs (reset_effect s) = ob_privs s"
  by (simp_all add: reset_effect_def)

lemma detail_answer_frame [simp]:
  "ob_sel (detail_answer i res s) = ob_sel s" "ob_privs (detail_answer i res s) = ob_privs s"
  by (simp_all add: detail_answer_def Let_def split: option.split)

lemma keep_ddl_frame [simp]:
  "ob_sel (keep_ddl s) = ob_sel s" "ob_privs (keep_ddl s) = ob_privs s" "ob_detail (keep_ddl s) = ob_detail s"
  "ob_requests (keep_ddl s) = ob_requests s" "ob_tab (keep_ddl s) = ob_tab s" "ob_loading (keep_ddl s) = ob_loading s"
  by (simp_all add: keep_ddl_def)

lemma select_node_frame [simp]:
  "ob_sel (select_node sel s) = sel" "ob_privs (select_node sel s) = async_render (sel \<noteq> None) sel (ob_privs s)"
  by (simp_all add: select_node_def Let_def)

lemma async_render_deps [simp]:
  "as_deps (async_render en deps s) = deps" "as_enabled (async_render en deps s) = en"
  by (auto simp: async_render_def Let_def)

lemma async_settle_deps [simp]:
  "as_deps (async_settle i res s) = as_deps s" "as_enabled (async_settle i res s) = as_enabled s"
  by (simp_all add: async_settle_def Let_def)

lemma obj_ok_step: "obj_ok server s \<Longrightarrow> obj_ok server (obj_step server s e)"
  by (cases e) (auto simp: obj_ok_def async_ok_render async_ok_settle)

interpretation obj: machine "obj_mount sel" "obj_step server" "obj_ok server"
  for sel server
  by unfold_locales (simp_all add: obj_ok_step, simp add: obj_ok_def obj_mount_def async_ok_mount,
      simp add: async_mount_def)

text \<open>What the parts of the panel send.\<close>

lemma PanelWizard_inj: "inj PanelWizard"
  by (simp add: inj_def)

lemma view_revokes:
  assumes "PermissionMatrixView canManage grants t fs (Some ref) = Some n" and "can_send n p"
  shows "canManage \<and> to_upper (go_object_type ref) \<in> set REVOCABLE_TYPES
    \<and> (\<exists>g \<in> set grants. pg_source g = ''direct'' \<and> pg_object_type g = go_object_type ref \<and> p = revokeFromCell (Some ref) g)"
proof -
  obtain m where m: "granteeMap grants = Some m" using assms(1) by (auto simp: PermissionMatrixView_def)
  obtain k col g where "revocable_grant canManage (Some ref) t (filter (\<lambda>g. pg_grantee g = k) grants) col = Some g"
    and "p = revokeFromCell (Some ref) g"
    using assms(2) unfolding matrix_sends [OF assms(1) m] matrix_row_sends [OF m] by blast
  with revocable_grant_some [of canManage ref t k grants col g] show ?thesis by blast
qed

lemma tree_sends [simp]: "\<not> can_send (GrantTreeView gs t n rs) e"
  by (rule GrantTreeView_silent [unfolded silent_def, rule_format])

lemma role_tree_sends [simp]: "\<not> can_send (role_tree gs) e"
  by (simp add: role_tree_def)

lemma panel_ref_type [simp]: "go_object_type (panel_ref n) = srObjectType n"
  by (simp add: panel_ref_def Let_def)

lemma privileges_view_sends:
  assumes "privileges_view canManage n res = Some v" and "can_send v (PanelWizard p)"
  shows "canManage \<and> to_upper (srObjectType n) \<in> set REVOCABLE_TYPES
    \<and> (\<exists>gs. ar_data res = Some gs \<and> (\<exists>g \<in> set gs. pg_source g = ''direct'' \<and> pg_object_type g = srObjectType n
        \<and> p = revokeFromCell (Some (panel_ref n)) g))"
proof -
  obtain gs where gs: "ar_data res = Some gs"
    using assms by (auto simp: privileges_view_def Let_def nullish_def split: option.splits if_splits)
  with assms obtain w where "PermissionMatrixView canManage gs (srObjectType n) None (Some (panel_ref n)) = Some w"
    and "v = map_node PanelWizard w"
    by (auto simp: privileges_view_def Let_def nullish_def split: if_splits)
  with assms(2) view_revokes [of canManage gs "srObjectType n" None "panel_ref n" w p] gs show ?thesis
    by (simp add: can_send_map_node [OF PanelWizard_inj])
qed

lemma info_sends [simp]:
  "m \<in> set (info_if l v) \<Longrightarrow> \<not> can_send m e" "\<not> can_send (InfoRow l t) e" "\<not> can_send (panel_column c) e"
  by (auto simp: info_if_def InfoRow_def panel_column_def split: if_splits)

lemma detail_view_sends [simp]: "\<not> can_send (detail_view locale_int b d) (PanelWizard p)"
  by (auto simp: detail_view_def DDLBlock_def split: option.splits if_splits)

lemma grant_button_sends:
  "v \<in> set (grant_button canManage n) \<Longrightarrow> can_send v (PanelWizard p) \<Longrightarrow>
    canManage \<and> node_kind n \<in> set GRANT_KINDS \<and> p = empty_prefill\<lparr>wp_object := Some (panel_ref n)\<rparr>"
  by (auto simp: grant_button_def)

lemma upper_kinds:
  "to_upper ''catalog'' = ''CATALOG''" "to_upper ''database'' = ''DATABASE''" "to_upper ''table'' = ''TABLE''"
  "to_upper ''view'' = ''VIEW''" "to_upper ''function'' = ''FUNCTION''"
  "to_upper ''MATERIALIZED VIEW'' = ''MATERIALIZED VIEW''"
  by code_simp+

lemma grant_kinds_revocable: "node_kind n \<in> set GRANT_KINDS \<Longrightarrow> srObjectType n \<in> set REVOCABLE_TYPES"
  by (auto simp: GRANT_KINDS_def srObjectType_def REVOCABLE_TYPES_def upper_kinds)

lemma upper_srObjectType [simp]: "to_upper (srObjectType n) = srObjectType n"
  by (simp add: srObjectType_def upper_kinds)

section \<open>Properties\<close>

text \<open>
  C15. The panel acts on the node that is selected now: in every interleaving of selections, tabs and
  answers, whatever opens the grant wizard from it is for a user who may manage grants and about exactly the
  object of the selected node, of a type that supports it; and it is either the empty grant of the button
  or the revoke of a direct grant that the server has listed for this very node.
\<close>

theorem object_panel_current:
  fixes server :: "'v \<Rightarrow> selection \<Rightarrow> string + privilege_grant list"
  shows "case foldl (obj_step server) (obj_mount sel) es of s \<Rightarrow>
     (case (ob_sel s, ObjectDetailPanel locale_int canManage s) of
        (Some (r, n), Some v) \<Rightarrow>
          (if can_send v (PanelWizard p :: 'v obj_event)
           then canManage \<and> srObjectType n \<in> set REVOCABLE_TYPES \<and> wp_object p = Some (panel_ref n)
             \<and> (p = empty_prefill\<lparr>wp_object := Some (panel_ref n)\<rparr>
               \<or> (\<exists>w gs g. server w (Some (r, n)) = Inr gs \<and> g \<in> set gs \<and> pg_source g = ''direct''
                   \<and> pg_object_type g = srObjectType n \<and> p = revokeFromCell (Some (panel_ref n)) g))
           else True)
      | _ \<Rightarrow> True)"
proof -
  define s where "s = foldl (obj_step server) (obj_mount sel) es"
  have ok: "obj_ok server s" unfolding s_def by (rule obj.inv_run)
  have "canManage \<and> srObjectType n \<in> set REVOCABLE_TYPES \<and> wp_object p = Some (panel_ref n)
      \<and> (p = empty_prefill\<lparr>wp_object := Some (panel_ref n)\<rparr>
        \<or> (\<exists>w gs g. server w (Some (r, n)) = Inr gs \<and> g \<in> set gs \<and> pg_source g = ''direct''
            \<and> pg_object_type g = srObjectType n \<and> p = revokeFromCell (Some (panel_ref n)) g))"
    if n: "ob_sel s = Some (r, n)" and v: "ObjectDetailPanel locale_int canManage s = Some v"
      and sends: "can_send v (PanelWizard p :: 'v obj_event)" for r n v
  proof -
    have "(\<exists>x \<in> set (grant_button canManage n). can_send x (PanelWizard p :: 'v obj_event))
        \<or> (\<exists>x. privileges_view canManage n (async_result False (ob_privs s)) = Some x \<and> can_send x (PanelWizard p :: 'v obj_event))"
      using v sends unfolding ObjectDetailPanel_def n
      by (cases "ob_tab s") (auto split: if_splits option.splits)
    then consider (grant) x where "x \<in> set (grant_button canManage n)" "can_send x (PanelWizard p :: 'v obj_event)"
      | (revoke) x where "privileges_view canManage n (async_result False (ob_privs s)) = Some x" "can_send x (PanelWizard p :: 'v obj_event)"
      by blast
    then show ?thesis
    proof cases
      case grant
      with grant_button_sends [of x canManage n p] grant_kinds_revocable [of n] show ?thesis by simp
    next
      case revoke
      with privileges_view_sends [of canManage n "async_result False (ob_privs s)" x p] obtain gs g where
        "canManage" "srObjectType n \<in> set REVOCABLE_TYPES" "ar_data (async_result False (ob_privs s)) = Some gs"
        and g: "g \<in> set gs" "pg_source g = ''direct''" "pg_object_type g = srObjectType n"
          "p = revokeFromCell (Some (panel_ref n)) g"
        by auto
      moreover from this have "ce_key (as_cell (ob_privs s)) = Some (Some (r, n))" "ce_data (as_cell (ob_privs s)) = Some gs"
        using ok n by (auto simp: async_result_def current_def obj_ok_def split: if_splits)
      moreover from this have "\<exists>w. server w (Some (r, n)) = Inr gs"
        using ok cell_ok_data [of server "as_cell (ob_privs s)" "Some (r, n)" gs] by (simp add: obj_ok_def async_ok_def)
      ultimately show ?thesis by (auto simp: revokeFromCell_def)
    qed
  qed
  then show ?thesis unfolding s_def [symmetric] by (simp split: option.split prod.split) blast
qed

text \<open>
  The details are the ones of the selected node when every request for them is answered before the
  selection changes.
\<close>

definition details_of :: "(nat \<Rightarrow> table_detail option) \<Rightarrow> obj_panel \<Rightarrow> bool" where
  "details_of server s \<longleftrightarrow> (\<forall>q \<in> set (ob_requests s). ob_sel s = Some q)
     \<and> (\<forall>d. ob_detail s = Some d \<longrightarrow> (\<exists>q. ob_sel s = Some q \<and> server (fst q) = Some d))"

fun quiet :: "(nat \<Rightarrow> table_detail option) \<Rightarrow> obj_panel \<Rightarrow> 'v obj_event \<Rightarrow> bool" where
  "quiet server s (SelectNode sel) \<longleftrightarrow> sel \<noteq> None \<and> (sel = ob_sel s \<or> ob_requests s = [] \<and> map_option fst sel \<noteq> map_option fst (ob_sel s))"
| "quiet server s (DetailAnswer i res) \<longleftrightarrow>
     (if i < length (ob_requests s) then res \<in> {None, server (fst (ob_requests s ! i))} else True)"
| "quiet server s e \<longleftrightarrow> True"

lemma details_of_effect: "details_of server s \<Longrightarrow> details_of server (detail_effect t d s)"
  by (auto simp: details_of_def detail_effect_def split: option.splits)

lemma details_of_answer:
  assumes "details_of server s" and "quiet server s (DetailAnswer i res)"
  shows "details_of server (detail_answer i res s)"
proof (cases "i < length (ob_requests s)")
  case True
  then have "ob_requests s ! i \<in> set (ob_requests s)" by simp
  moreover have "set (take i (ob_requests s) @ drop (Suc i) (ob_requests s)) \<subseteq> set (ob_requests s)"
    using set_take_subset set_drop_subset by fastforce
  moreover define t where "t = s\<lparr>ob_requests := take i (ob_requests s) @ drop (Suc i) (ob_requests s), ob_loading := False\<rparr>"
  ultimately have t: "details_of server t" "ob_sel s = Some (ob_requests s ! i)"
    using assms(1) unfolding details_of_def by (fastforce, blast)
  show ?thesis
  proof (cases res)
    case None
    then show ?thesis using t(1) True by (simp add: detail_answer_def t_def)
  next
    case (Some d)
    then have "server (fst (ob_requests s ! i)) = Some d" using assms(2) True by simp
    then have "details_of server (t\<lparr>ob_detail := Some d\<rparr>)" using t by (simp add: details_of_def t_def)
    then show ?thesis using True Some by (simp add: detail_answer_def t_def)
  qed
qed (use assms in \<open>simp add: detail_answer_def\<close>)

lemma details_of_step:
  assumes "details_of server s" and "quiet server s e"
  shows "details_of server (obj_step privs s e)"
proof -
  have keep: "details_of server (keep_ddl t) = details_of server t" for t by (simp add: details_of_def)
  show ?thesis
  proof (cases e)
    case (SelectNode sel)
    have "details_of server (select_node sel s)"
    proof (cases "map_option fst sel = map_option fst (ob_sel s)")
      case True
      with assms(2) SelectNode have "sel = ob_sel s" by auto
      then show ?thesis using assms(1) by (simp add: select_node_def details_of_def)
    next
      case False
      with assms(2) SelectNode obtain q where "ob_requests s = []" "sel = Some q" by auto
      moreover define t where "t = reset_effect (s\<lparr>ob_sel := sel, ob_privs := async_render (sel \<noteq> None) sel (ob_privs s)\<rparr>)"
      ultimately have "details_of server t" by (simp add: reset_effect_def details_of_def)
      then show ?thesis using False
        unfolding select_node_def Let_def t_def [symmetric] by (simp add: details_of_effect)
    qed
    then show ?thesis by (simp add: SelectNode keep)
  next
    case (PickTab t)
    have "details_of server (s\<lparr>ob_tab := t\<rparr>)" using assms(1) by (simp add: details_of_def)
    then show ?thesis using assms(1) by (simp add: PickTab keep details_of_effect)
  next
    case (DetailAnswer i res)
    then show ?thesis using details_of_answer assms by (simp add: keep del: quiet.simps)
  qed (use assms(1) in \<open>auto simp: details_of_def\<close>)
qed

text \<open>
  Otherwise they need not be: the details of \<open>a\<close> are still on their way when \<open>b\<close> is selected, and
  arrive after those of \<open>b\<close>. The details tab then shows the table of \<open>a\<close> and does not ask again.
\<close>

lemma details_of_another_table:
  assumes "detail_key a \<noteq> None" and "detail_key b \<noteq> None" and "i \<noteq> j"
  shows "case foldl (obj_step privs) (obj_mount (Some (i, a))) [PickTab DetailsTab, SelectNode (Some (j, b)),
       DetailAnswer 1 (Some table_b), DetailAnswer 0 (Some table_a), PickTab DetailsTab] of
     s \<Rightarrow> ob_sel s = Some (j, b) \<and> ob_tab s = DetailsTab \<and> ob_detail s = Some table_a \<and> ob_requests s = []"
  using assms
  by (simp add: obj_mount_def detail_effect_def select_node_def Let_def reset_effect_def detail_answer_def keep_ddl_def
      ddl_shown_def)

text \<open>
  The page of the group panel is not reset with the group: on the second page, the next group with at most
  twenty children shows none of them and no way back.
\<close>

lemma stale_page_is_empty:
  assumes "length (da_groupChildren s) \<le> 20" and "page > 0"
  shows "offered (GroupDetailPanel s page) = []"
proof -
  have "page_slice PAGE_SIZE page (da_groupChildren s) = []"
    using assms by (simp add: page_slice_def PAGE_SIZE_def)
  moreover have "\<not> page_count PAGE_SIZE (length (da_groupChildren s)) > 1"
    using assms by (simp add: page_count_def PAGE_SIZE_def div_less_iff_less_mult)
  ultimately show ?thesis by (simp add: GroupDetailPanel_def Let_def split: option.split)
qed

end
