(* ===== verification/Graph_View.thy ===== *)
theory Graph_View
  imports Object_Panel Dag_Highlight Dag_Clusters
begin

text \<open>
  The graph view: \<open>components/dag/DAGView.tsx\<close>, its layout hook \<open>useDagLayoutSync.ts\<close>, its context
  menu \<open>useNodeContextMenu.ts\<close> and \<open>DagControls.tsx\<close>. React Flow is an external library: it keeps the
  nodes and edges it is given and reports clicks on them; zooming, fitting and dragging are its own and
  left out. A selection is compared by value: the nodes of one graph have distinct ids, and each
  selection from outside counts as a new object.
\<close>

section \<open>The context menu (useNodeContextMenu.ts)\<close>

record ctx_menu =
  cm_x :: int
  cm_y :: int
  cm_nodeId :: string

definition ctx_prefill :: "dag_node \<Rightarrow> wizard_prefill option" where
  "ctx_prefill n = (let t = to_lower (dn_type n) in
     if t = ''user'' \<or> t = ''role'' then Some (empty_prefill\<lparr>wp_grantee :=
         Some \<lparr>ge_name = dn_label n, ge_type = (if t = ''role'' then GRole else GUser)\<rparr>\<rparr>)
     else if t \<in> {''catalog'', ''database'', ''table'', ''view'', ''mv'', ''function''} then Some (empty_prefill\<lparr>wp_object :=
         Some \<lparr>go_object_type = (if t = ''mv'' then ''MATERIALIZED VIEW'' else to_upper t),
           go_catalog = Some (if t = ''catalog'' then dn_label n else nullish (meta_get n ''catalog'') ''default_catalog''),
           go_database = (if t = ''catalog'' then None else if t = ''database'' then Some (dn_label n)
             else meta_get n ''database''),
           go_name = (if t \<in> {''catalog'', ''database''} then None else Some (dn_label n))\<rparr>\<rparr>)
     else None)"

definition find_node :: "dag_graph option \<Rightarrow> string \<Rightarrow> dag_node option" where
  "find_node data i = (case data of None \<Rightarrow> None | Some d \<Rightarrow> List.find (\<lambda>n. dn_id n = i) (dg_nodes d))"

section \<open>State\<close>

record graph_view =
  gv_data :: "dag_graph option"
  gv_types :: "bool jsobj"
  gv_groupsOnly :: bool
  gv_hidden :: "string list"
  gv_loading :: bool
  gv_canManage :: bool
  gv_nodes :: "rf_node list"
  gv_edges :: "rf_edge list"
  gv_clicked :: "string option"
  gv_menu :: "ctx_menu option"
  gv_store :: dag_state
  gv_grants :: grant_store

datatype graph_event =
    NodeClick string
  | PaneClick
  | NodeMenu string int int
  | CtxManage
  | Relayout
  | NewData "dag_graph option" bool
  | NewFilters "bool jsobj" bool "string list"
  | SelectOutside "dag_node option"
  | SetCanManage bool

section \<open>Effects and handlers\<close>

definition layout_effect :: "layout_fn \<Rightarrow> graph_view \<Rightarrow> graph_view" where
  "layout_effect dagre s =
     (case buildDagLayout dagre (gv_data s) ''TB'' (gv_types s) (gv_groupsOnly s) (gv_hidden s) of
        None \<Rightarrow> s
      | Some (ns, es) \<Rightarrow> s\<lparr>gv_nodes := ns, gv_edges := es\<rparr>)"

definition sync_effect :: "graph_view \<Rightarrow> graph_view" where
  "sync_effect s = s\<lparr>gv_clicked := sync_clicked (da_selectedNode (gv_store s)) (gv_data s) (gv_clicked s)\<rparr>"

text \<open>The children of a group, by the edges of the data.\<close>

definition group_children :: "dag_graph \<Rightarrow> string \<Rightarrow> dag_node list" where
  "group_children d i = (let childIds = map de_target (filter (\<lambda>e. de_source e = i) (dg_edges d))
     in filter (\<lambda>n. dn_id n \<in> set childIds) (dg_nodes d))"

definition open_panel :: "rf_node \<Rightarrow> dag_graph \<Rightarrow> dag_state \<Rightarrow> dag_state" where
  "open_panel r d st =
     (if rn_nodeRole r = Some ''group''
      then setPanelMode (Some PanelGroup) (setGroupChildren (group_children d (rn_id r)) st)
      else if rn_nodeType r = ''user'' then setPanelMode (Some PanelUser) st
      else setPanelMode (Some PanelObject) st)"

definition onNodeClick :: "rf_node \<Rightarrow> graph_view \<Rightarrow> graph_view" where
  "onNodeClick r s = (case (gv_data s, find_node (gv_data s) (rn_id r)) of
      (Some d, Some n) \<Rightarrow>
        (let s' = s\<lparr>gv_clicked := Some (rn_id r), gv_store := open_panel r d (setSelectedNode (Some n) (gv_store s))\<rparr>
         in if da_selectedNode (gv_store s) = Some n then s' else sync_effect s')
    | _ \<Rightarrow> s)"

definition onNodeContextMenu :: "string \<Rightarrow> int \<Rightarrow> int \<Rightarrow> graph_view \<Rightarrow> graph_view" where
  "onNodeContextMenu i x y s =
     (if \<not> gv_canManage s then s else s\<lparr>gv_menu := Some \<lparr>cm_x = x, cm_y = y, cm_nodeId = i\<rparr>\<rparr>)"

definition handleCtxManage :: "graph_view \<Rightarrow> graph_view" where
  "handleCtxManage s = (let s' = s\<lparr>gv_menu := None\<rparr> in
     case Option.bind (gv_menu s) (\<lambda>m. find_node (gv_data s) (cm_nodeId m)) of
       None \<Rightarrow> s'
     | Some n \<Rightarrow> s'\<lparr>gv_grants := openWizard (ctx_prefill n) (gv_grants s)\<rparr>)"

definition onPaneClick :: "graph_view \<Rightarrow> graph_view" where
  "onPaneClick s = s\<lparr>gv_clicked := None, gv_menu := None\<rparr>"

definition shown_nodes :: "graph_view \<Rightarrow> rf_node list" where
  "shown_nodes s = filteredNodes (gv_clicked s) (connectedIds (gv_clicked s) (gv_data s)) (gv_nodes s)"

definition shown_edges :: "graph_view \<Rightarrow> rf_edge list" where
  "shown_edges s = filteredEdges (gv_clicked s) (connectedIds (gv_clicked s) (gv_data s)) (gv_edges s)"

text \<open>While the graph is loading, or before there is one, only a text is shown and nothing can be clicked.\<close>

definition graph_blank :: "graph_view \<Rightarrow> bool" where
  "graph_blank s \<longleftrightarrow> gv_loading s \<or> gv_data s = None \<and> gv_nodes s = []"

definition DagControls :: "graph_event node" where
  "DagControls = box [El ''button'' [(''title'', ''Zoom In'')] [] [], El ''button'' [(''title'', ''Zoom Out'')] [] [],
     El ''button'' [(''title'', ''Fit View'')] [] [], El ''button'' [(''title'', ''Re-layout'')] [Relayout] []]"

definition flow_node :: "rf_node \<Rightarrow> graph_event node" where
  "flow_node r = El ''node'' [(''id'', rn_id r)] [NodeClick (rn_id r)] [Txt (rn_label r)]"

definition DAGView :: "graph_view \<Rightarrow> graph_event node" where
  "DAGView s = (if graph_blank s then box [Txt ''Loading DAG...'']
     else box (show_if (gv_menu s \<noteq> None)
         [El ''div'' [(''data-testid'', ''dag-context-menu'')] []
           [click_text CtxManage (utf8 9881 @ '' Manage privileges'' @ ellipsis)]]
       @ [El ''div'' [] [PaneClick] (map flow_node (shown_nodes s)), DagControls]))"

fun graph_step :: "layout_fn \<Rightarrow> graph_view \<Rightarrow> graph_event \<Rightarrow> graph_view" where
  "graph_step dagre s (NodeClick i) = (if graph_blank s then s
     else case List.find (\<lambda>r. rn_id r = i) (gv_nodes s) of None \<Rightarrow> s | Some r \<Rightarrow> onNodeClick r s)"
| "graph_step dagre s PaneClick = (if graph_blank s then s else onPaneClick s)"
| "graph_step dagre s (NodeMenu i x y) = (if graph_blank s \<or> i \<notin> rn_id ` set (gv_nodes s) then s
     else onNodeContextMenu i x y s)"
| "graph_step dagre s CtxManage = (if graph_blank s \<or> gv_menu s = None then s else handleCtxManage s)"
| "graph_step dagre s Relayout = (if graph_blank s then s else layout_effect dagre s)"
| "graph_step dagre s (NewData d l) = (let s' = s\<lparr>gv_data := d, gv_loading := l\<rparr> in
     if d = gv_data s then s' else sync_effect (layout_effect dagre s'))"
| "graph_step dagre s (NewFilters ts g hs) = layout_effect dagre (s\<lparr>gv_types := ts, gv_groupsOnly := g, gv_hidden := hs\<rparr>)"
| "graph_step dagre s (SelectOutside sel) = sync_effect (s\<lparr>gv_store := setSelectedNode sel (gv_store s)\<rparr>)"
| "graph_step dagre s (SetCanManage b) = s\<lparr>gv_canManage := b\<rparr>"

definition graph_mount ::
  "layout_fn \<Rightarrow> dag_graph option \<Rightarrow> bool \<Rightarrow> bool \<Rightarrow> dag_state \<Rightarrow> grant_store \<Rightarrow> graph_view" where
  "graph_mount dagre d l canManage st gs = sync_effect (layout_effect dagre
     \<lparr>gv_data = d, gv_types = da_visibleTypes st, gv_groupsOnly = da_groupsOnly st, gv_hidden = da_hiddenNodes st,
      gv_loading = l, gv_canManage = canManage, gv_nodes = [], gv_edges = [], gv_clicked = None, gv_menu = None,
      gv_store = st, gv_grants = gs\<rparr>)"

section \<open>Lemmas\<close>

lemma ch_lower_upper [simp]: "ch_lower (ch_upper c) = ch_lower c"
  by (auto simp: ch_upper_def ch_lower_def)

lemma ch_upper_lower [simp]: "ch_upper (ch_lower c) = ch_upper c"
proof (cases "65 \<le> (of_char c :: nat) \<and> (of_char c :: nat) \<le> 90")
  case True
  then have "(of_char c :: nat) + 32 < 256" by simp
  then show ?thesis using True by (simp add: ch_lower_def) (auto simp: ch_upper_def)
qed (auto simp: ch_lower_def)

lemma upper_eq_lower: "to_upper s = to_upper t \<longleftrightarrow> to_lower s = to_lower t"
proof
  assume "to_upper s = to_upper t"
  then have "map ch_lower (to_upper s) = map ch_lower (to_upper t)" by simp
  then show "to_lower s = to_lower t" by (simp add: to_upper_def to_lower_def comp_def)
next
  assume "to_lower s = to_lower t"
  then have "map ch_upper (to_lower s) = map ch_upper (to_lower t)" by simp
  then show "to_upper s = to_upper t" by (simp add: to_upper_def to_lower_def comp_def)
qed

lemma is_role: "to_upper s = ''ROLE'' \<longleftrightarrow> to_lower s = ''role''"
proof -
  have "to_upper ''role'' = ''ROLE''" "to_lower ''role'' = ''role''" by code_simp+
  then show ?thesis using upper_eq_lower [of s "''role''"] by simp
qed

lemma meta_get_field: "meta_get n k = meta_field k n"
  by (simp add: meta_get_def meta_field_def)

text \<open>
  The context menu, the button of the object panel and the one of the user panel open the wizard with the
  same prefill for the same node.
\<close>

lemma entry_points_agree:
  "node_kind n \<in> set GRANT_KINDS \<Longrightarrow> ctx_prefill n = Some (empty_prefill\<lparr>wp_object := Some (panel_ref n)\<rparr>)"
  "node_kind n \<in> {''user'', ''role''} \<Longrightarrow> ctx_prefill n = Some (manage_prefill n)"
  by (auto simp: ctx_prefill_def Let_def node_kind_def [symmetric] GRANT_KINDS_def panel_ref_def srObjectType_def
      meta_get_field)
    (simp_all add: manage_prefill_def node_kind_def is_role)

text \<open>The menu is opened for grant managers only, and only it opens the wizard, once.\<close>

lemma sync_frame [simp]:
  "gv_menu (sync_effect s) = gv_menu s" "gv_grants (sync_effect s) = gv_grants s" "gv_data (sync_effect s) = gv_data s"
  "gv_store (sync_effect s) = gv_store s" "gv_nodes (sync_effect s) = gv_nodes s"
  by (simp_all add: sync_effect_def)

lemma layout_frame [simp]:
  "gv_menu (layout_effect dagre s) = gv_menu s" "gv_grants (layout_effect dagre s) = gv_grants s"
  "gv_store (layout_effect dagre s) = gv_store s" "gv_clicked (layout_effect dagre s) = gv_clicked s"
  by (simp_all add: layout_effect_def split: option.split)

lemma click_frame [simp]:
  "gv_menu (onNodeClick r s) = gv_menu s" "gv_grants (onNodeClick r s) = gv_grants s"
  by (simp_all add: onNodeClick_def Let_def split: option.split)

lemma menu_opens_wizard:
  assumes "gv_grants (graph_step dagre s e) \<noteq> gv_grants s"
  shows "e = CtxManage \<and> (\<exists>m n. gv_menu s = Some m \<and> find_node (gv_data s) (cm_nodeId m) = Some n
    \<and> gv_grants (graph_step dagre s e) = openWizard (ctx_prefill n) (gv_grants s))
    \<and> gv_menu (graph_step dagre s e) = None"
  using assms
  by (cases e) (auto simp: onPaneClick_def onNodeContextMenu_def handleCtxManage_def Let_def
      split: option.splits if_splits bind_splits)

lemma menu_for_managers:
  assumes "gv_menu (graph_step dagre s e) \<noteq> gv_menu s" and "gv_menu (graph_step dagre s e) \<noteq> None"
  shows "gv_canManage s"
  using assms
  by (cases e) (auto simp: onPaneClick_def onNodeContextMenu_def handleCtxManage_def Let_def
      split: option.splits if_splits bind_splits)

text \<open>
  A click selects the node, opens the panel of its kind and, on a group, lists exactly the nodes that an
  edge from it leads to.
\<close>

lemma sync_selected:
  assumes "da_selectedNode (gv_store s) = Some n" and "gv_data s = Some d" and "n \<in> set (dg_nodes d)"
  shows "\<exists>m \<in> set (dg_nodes d). dn_label m = dn_label n \<and> dn_type m = dn_type n
    \<and> gv_clicked (sync_effect s) = Some (dn_id m)"
proof -
  obtain m where "List.find (\<lambda>m. dn_label m = dn_label n \<and> dn_type m = dn_type n) (dg_nodes d) = Some m"
    using assms(3) by (cases "List.find (\<lambda>m. dn_label m = dn_label n \<and> dn_type m = dn_type n) (dg_nodes d)")
      (auto simp: find_None_iff)
  moreover from this have "m \<in> set (dg_nodes d)" "dn_label m = dn_label n \<and> dn_type m = dn_type n"
    by (auto simp: find_Some_iff)
  ultimately show ?thesis using assms(1,2) by (auto simp: sync_effect_def sync_clicked_def)
qed

lemma find_node_some: "find_node (Some d) i = Some n \<Longrightarrow> n \<in> set (dg_nodes d) \<and> dn_id n = i"
  by (auto simp: find_node_def find_Some_iff)

lemma store_frame [simp]:
  "da_selectedNode (open_panel r d st) = da_selectedNode st"
  "da_panelMode (open_panel r d st) = Some (if rn_nodeRole r = Some ''group'' then PanelGroup
     else if rn_nodeType r = ''user'' then PanelUser else PanelObject)"
  "rn_nodeRole r = Some ''group'' \<Longrightarrow> da_groupChildren (open_panel r d st) = group_children d (rn_id r)"
  by (simp_all add: open_panel_def setPanelMode_def setGroupChildren_def)

text \<open>
  A click on a node that React Flow shows: the node of the data with its id is selected, its panel opens
  with the children of a group, and the highlighted node has its label and type.
\<close>

lemma set_group_children:
  "set (group_children d i)
     = {m \<in> set (dg_nodes d). \<exists>e \<in> set (dg_edges d). de_source e = i \<and> de_target e = dn_id m}"
  by (force simp: group_children_def)

lemma click_opens_panel:
  assumes "gv_data s = Some d" and "find_node (Some d) (rn_id r) = Some n" and "da_selectedNode (gv_store s) \<noteq> Some n"
  shows "da_selectedNode (gv_store (onNodeClick r s)) = Some n
    \<and> da_panelMode (gv_store (onNodeClick r s)) = Some (if rn_nodeRole r = Some ''group'' then PanelGroup
        else if rn_nodeType r = ''user'' then PanelUser else PanelObject)
    \<and> (rn_nodeRole r = Some ''group'' \<longrightarrow> set (da_groupChildren (gv_store (onNodeClick r s)))
        = {m \<in> set (dg_nodes d). \<exists>e \<in> set (dg_edges d). de_source e = dn_id n \<and> de_target e = dn_id m})
    \<and> (\<exists>m \<in> set (dg_nodes d). dn_label m = dn_label n \<and> dn_type m = dn_type n
        \<and> gv_clicked (onNodeClick r s) = Some (dn_id m))"
proof -
  define s' where "s' = s\<lparr>gv_clicked := Some (rn_id r), gv_store := open_panel r d (setSelectedNode (Some n) (gv_store s))\<rparr>"
  have s': "onNodeClick r s = sync_effect s'"
    using assms by (simp add: onNodeClick_def s'_def)
  have store: "gv_store s' = open_panel r d (setSelectedNode (Some n) (gv_store s))" "gv_data s' = Some d"
    by (simp_all add: s'_def assms(1))
  have sel: "da_selectedNode (gv_store s') = Some n" by (simp add: store setSelectedNode_def)
  have n: "n \<in> set (dg_nodes d)" "dn_id n = rn_id r" using find_node_some [OF assms(2)] by simp_all
  have "rn_nodeRole r = Some ''group'' \<Longrightarrow> da_groupChildren (gv_store s') = group_children d (dn_id n)"
    by (simp add: store n)
  then show ?thesis
    using sync_selected [OF sel store(2) n(1)] by (simp add: s' sel store setSelectedNode_def n set_group_children)
qed

text \<open>
  The effect that follows the selection looks for the first node with the label and the type: a click on
  the second of two tables with one name highlights the first.
\<close>

definition two_tables :: dag_graph where
  "two_tables = \<lparr>dg_nodes = map (\<lambda>i. \<lparr>dn_id = i, dn_label = ''orders'', dn_type = ''table'', dn_color = None,
     dn_node_role = None, dn_metadata = None\<rparr>) [''t1'', ''t2''], dg_edges = []\<rparr>"

lemma namesake_highlighted:
  assumes "gv_data s = Some two_tables" and "rn_id r = ''t2''" and "da_selectedNode (gv_store s) = None"
  shows "gv_clicked (onNodeClick r s) = Some ''t1''"
  using assms by (simp add: onNodeClick_def find_node_def two_tables_def sync_effect_def sync_clicked_def
      setSelectedNode_def)

text \<open>
  The server gives the node of a group the type of its members, so the menu of a group of tables
  prefills the wizard with a table named like the group.
\<close>

lemma group_is_prefilled:
  assumes "dn_type g = ''table''" and "dn_label g = ''Tables (2)''" and "dn_node_role g = Some ''group''"
  shows "\<exists>p ob. ctx_prefill g = Some p \<and> wp_object p = Some ob \<and> go_name ob = Some ''Tables (2)''"
proof -
  have "to_lower ''table'' = ''table''" by code_simp
  then show ?thesis using assms by (simp add: ctx_prefill_def)
qed

end
