(* ===== verification/Sidebar.thy ===== *)
theory Sidebar
  imports Graph_View
begin

text \<open>
  \<open>components/layout/Sidebar.tsx\<close> with \<open>sidebarParts.tsx\<close>: the search results or the tree of
  catalogs, databases and objects, and the roles, over the graph store, the object tree and the debounced
  search. A click on the eye of an entry stops there, it does not reach the entry.
\<close>

section \<open>Parts (sidebarParts.tsx)\<close>

definition side_icon :: "(string \<Rightarrow> string) \<Rightarrow> string \<Rightarrow> nat \<Rightarrow> string option" where
  "side_icon svgs t sz = (let svg = snd (colorizedSvg svgs [] t None) in
     if svg = [] then None else Some (resize_svg (nat_str sz) svg))"

definition EyeToggle :: "string \<Rightarrow> bool \<Rightarrow> 'e \<Rightarrow> 'e node" where
  "EyeToggle label hidden e = El ''span'' [(''title'', (if hidden then ''Show '' else ''Hide '') @ label)] [e] []"

section \<open>State\<close>

record sidebar =
  sb_catalogs :: "catalog_item list"
  sb_roles :: "role_item list"
  sb_tree :: tree_state
  sb_search :: "search_result search_state"
  sb_store :: dag_state
  sb_isAdmin :: bool

datatype side_event =
    TypeSearch string
  | ClearSearch
  | ClickResult search_result
  | ClickCatalog string
  | ClickDb string string
  | ClickObject string string
  | ClickRole string
  | ClickEye string
  | SideSearch "search_result search_event"
  | SideTree tree_event
  | CatalogsAnswer "catalog_item list option"
  | RolesAnswer "role_item list option"

definition side_mount :: "bool \<Rightarrow> dag_state \<Rightarrow> sidebar" where
  "side_mount isAdmin st = \<lparr>sb_catalogs = [], sb_roles = [], sb_tree = tree_init,
     sb_search = search_mount 2 (da_searchQuery st), sb_store = st, sb_isAdmin = isAdmin\<rparr>"

section \<open>Handlers\<close>

definition go_tab :: "string \<Rightarrow> dag_state \<Rightarrow> dag_state" where
  "go_tab t st = fst (setActiveTab t st)"

definition selectItem :: "string \<Rightarrow> string \<Rightarrow> string jsobj option \<Rightarrow> dag_state \<Rightarrow> dag_state" where
  "selectItem t label meta st =
     (let st1 = setSelectedNode (Some \<lparr>dn_id = [], dn_label = label, dn_type = t, dn_color = obj_get NODE_COLORS t,
            dn_node_role = None, dn_metadata = meta\<rparr>) st in
      if t = ''user'' \<or> t = ''role''
      then setPanelMode (Some (if t = ''user'' then PanelUser else PanelObject)) (go_tab ''role'' st1)
      else setPanelMode (Some PanelObject) (go_tab ''obj'' st1))"

definition go_obj :: "dag_state \<Rightarrow> dag_state" where
  "go_obj st = (if da_activeTab st \<noteq> ''obj'' then go_tab ''obj'' st else st)"

definition result_click :: "search_result \<Rightarrow> dag_state \<Rightarrow> dag_state" where
  "result_click r st = selectItem (sr_type r) (sr_name r)
     (Some [(''catalog'', sr_catalog r), (''database'', sr_database r)])
     (if sr_catalog r \<noteq> [] then setActiveCatalog (sr_catalog r) st else st)"

text \<open>A change of the query re-renders the sidebar with it, and the search hook runs its effect.\<close>

definition set_query :: "string \<Rightarrow> sidebar \<Rightarrow> sidebar" where
  "set_query q s = s\<lparr>sb_store := setSearchQuery q (sb_store s), sb_search := search_step 2 (sb_search s) (QueryChanged q)\<rparr>"

fun side_step :: "sidebar \<Rightarrow> side_event \<Rightarrow> sidebar" where
  "side_step s (TypeSearch q) = set_query q s"
| "side_step s ClearSearch =
     set_query [] (s\<lparr>sb_search := search_step 2 (sb_search s) ResetSearch\<rparr>)"
| "side_step s (ClickResult r) = s\<lparr>sb_store := result_click r (sb_store s)\<rparr>"
| "side_step s (ClickCatalog c) = s\<lparr>sb_store := setActiveCatalog c (go_obj (sb_store s)),
     sb_tree := tree_step (sb_tree s) (ToggleCat c)\<rparr>"
| "side_step s (ClickDb c d) = s\<lparr>sb_store := go_obj (sb_store s), sb_tree := tree_step (sb_tree s) (ToggleDb c d)\<rparr>"
| "side_step s (ClickObject g n) = s\<lparr>sb_store := selectItem g n None (sb_store s)\<rparr>"
| "side_step s (ClickRole n) = s\<lparr>sb_store := selectItem ''role'' n None (sb_store s)\<rparr>"
| "side_step s (ClickEye l) = s\<lparr>sb_store := toggleNodeVisibility l (sb_store s)\<rparr>"
| "side_step s (SideSearch e) = (case e of
      SearchTimer \<Rightarrow> s\<lparr>sb_search := search_step 2 (sb_search s) e\<rparr>
    | SearchAnswer i r \<Rightarrow> s\<lparr>sb_search := search_step 2 (sb_search s) e\<rparr>
    | _ \<Rightarrow> s)"
| "side_step s (SideTree e) = (case e of
      DbsAnswer i r \<Rightarrow> s\<lparr>sb_tree := tree_step (sb_tree s) e\<rparr>
    | ObjsAnswer i r \<Rightarrow> s\<lparr>sb_tree := tree_step (sb_tree s) e\<rparr>
    | _ \<Rightarrow> s)"
| "side_step s (CatalogsAnswer r) = (case r of None \<Rightarrow> s | Some cs \<Rightarrow> s\<lparr>sb_catalogs := cs\<rparr>)"
| "side_step s (RolesAnswer r) = (case r of None \<Rightarrow> s | Some rs \<Rightarrow> s\<lparr>sb_roles := rs\<rparr>)"

section \<open>View\<close>

definition side_match :: "string \<Rightarrow> string \<Rightarrow> bool" where
  "side_match query name \<longleftrightarrow> to_lower query = [] \<or> str_includes (to_lower query) (to_lower name)"

definition result_place :: "search_result \<Rightarrow> string" where
  "result_place r = (if sr_catalog r \<noteq> [] \<and> sr_database r \<noteq> [] then sr_catalog r @ ''.'' @ sr_database r else sr_catalog r)"

definition result_row :: "search_result \<Rightarrow> side_event node" where
  "result_row r = El ''button'' [] [ClickResult r] [InlineIcon (sr_type r), Txt (sr_name r), Txt (result_place r)]"

definition search_view :: "search_result search_state \<Rightarrow> side_event node list" where
  "search_view q = Txt (''Search Results '' @ (if se_searching q then [] else ''('' @ nat_str (length (nullish (se_results q) [])) @ '')''))
     # show_if (se_searching q) [Txt ''Searching...'']
     @ show_if (\<not> se_searching q \<and> se_results q = Some []) [Txt ''No results found'']
     @ map result_row (nullish (se_results q) [])"

definition object_group :: "object_item \<Rightarrow> string" where
  "object_group ob = (if oi_object_type ob = ''MATERIALIZED VIEW'' then ''mv'' else to_lower (oi_object_type ob))"

definition group_title :: "string \<Rightarrow> string" where
  "group_title g = (if g = ''mv'' then ''Materialized Views''
     else (case g of [] \<Rightarrow> [] | c # cs \<Rightarrow> to_upper [c] @ cs) @ ''s'')"

definition object_groups :: "string \<Rightarrow> object_item list \<Rightarrow> (string \<times> object_item list) list" where
  "object_groups query obs =
     obj_entries (foldl (\<lambda>m ob. obj_push (object_group ob) ob m) [] (filter (\<lambda>ob. side_match query (oi_name ob)) obs))"

definition arrow :: "bool \<Rightarrow> string" where
  "arrow b = (if b then utf8 9660 else utf8 9654)"

definition eye :: "dag_state \<Rightarrow> string \<Rightarrow> side_event node" where
  "eye st l = EyeToggle l (l \<in> set (da_hiddenNodes st)) (ClickEye l)"

definition group_node :: "dag_state \<Rightarrow> string \<times> object_item list \<Rightarrow> side_event node" where
  "group_node st gi = (case gi of (g, obs) \<Rightarrow> box (
     box [Txt (arrow True), InlineIcon g, Txt (group_title g), Txt (nat_str (length obs))]
     # map (\<lambda>ob. El ''button'' [] [ClickObject g (oi_name ob)]
         [InlineIcon g, Txt (oi_name ob), eye st (oi_name ob)]) obs))"

definition db_node :: "dag_state \<Rightarrow> tree_state \<Rightarrow> string \<Rightarrow> database_item \<Rightarrow> side_event node" where
  "db_node st tr c db = (let key = db_key c (di_name db); isOpen = (key \<in> set (tr_expandedDbs tr)) in box (
     El ''button'' [] [ClickDb c (di_name db)]
       [Txt (arrow isOpen), InlineIcon ''database'', Txt (di_name db), eye st (di_name db)]
     # show_if isOpen (map (group_node st) (object_groups (da_searchQuery st) (nullish (obj_get (tr_objMap tr) key) [])))))"

definition catalog_node :: "dag_state \<Rightarrow> tree_state \<Rightarrow> catalog_item \<Rightarrow> side_event node" where
  "catalog_node st tr cat = (let c = ci_name cat; isOpen = (c \<in> set (tr_expandedCats tr)) in box (
     El ''button'' (show_if (da_activeCatalog st = c) [(''data-active'', ''1'')]) [ClickCatalog c]
       [Txt (arrow isOpen), InlineIcon ''catalog'', Txt c, Txt (replace_first ''Catalog'' [] (ci_catalog_type cat))]
     # show_if isOpen (map (db_node st tr c)
         (filter (\<lambda>d. side_match (da_searchQuery st) (di_name d)) (nullish (obj_get (tr_dbMap tr) c) [])))))"

definition role_button :: "dag_state \<Rightarrow> role_item \<Rightarrow> side_event node" where
  "role_button st r = El ''button'' [] [ClickRole (ri_name r)] ([InlineIcon ''role'', Txt (ri_name r)]
     @ show_if (ri_is_builtin r) [Txt ''built-in''] @ [eye st (ri_name r)])"

definition tree_view :: "sidebar \<Rightarrow> side_event node list" where
  "tree_view s = (let st = sb_store s; q = da_searchQuery st in
     Txt ''Catalogs'' # map (catalog_node st (sb_tree s)) (filter (\<lambda>c. side_match q (ci_name c)) (sb_catalogs s))
     @ show_if (sb_isAdmin s) [Txt ''Users'', Txt ''Loaded from role hierarchy'']
     @ Txt ''Roles'' # map (role_button st) (filter (\<lambda>r. side_match q (ri_name r)) (sb_roles s)))"

text \<open>
  A catalog named like a member that plain objects inherit counts as loaded, and what is under its name is no
  list: its children are an exception of the render.
\<close>

definition side_crash :: "sidebar \<Rightarrow> bool" where
  "side_crash s \<longleftrightarrow> (\<exists>c \<in> set (sb_catalogs s). side_match (da_searchQuery (sb_store s)) (ci_name c)
     \<and> ci_name c \<in> set (tr_expandedCats (sb_tree s)) \<and> obj_get (tr_dbMap (sb_tree s)) (ci_name c) = None
     \<and> ci_name c \<in> set PROTO_MEMBERS)"

definition side_searching :: "sidebar \<Rightarrow> bool" where
  "side_searching s \<longleftrightarrow> se_results (sb_search s) \<noteq> None \<or> se_searching (sb_search s)"

definition Sidebar :: "sidebar \<Rightarrow> side_event node option" where
  "Sidebar s = (let q = da_searchQuery (sb_store s) in
     if \<not> side_searching s \<and> side_crash s then None
     else Some (box (Field ''Search objects, users, roles...'' q False TypeSearch []
       # show_if (q \<noteq> []) [click_text ClearSearch times_sign]
       @ (if side_searching s then search_view (sb_search s) else tree_view s))))"

section \<open>Lemmas\<close>

lemma go_tab_frame [simp]:
  "da_selectedNode (go_tab t st) = da_selectedNode st" "da_activeTab (go_tab t st) = t"
  "da_searchQuery (go_tab t st) = da_searchQuery st" "da_dagCache (go_tab t st) = da_dagCache st"
  by (simp_all add: go_tab_def setActiveTab_def)

lemma selectItem_simps [simp]:
  "da_activeTab (selectItem t l m st) = (if t = ''user'' \<or> t = ''role'' then ''role'' else ''obj'')"
  "da_panelMode (selectItem t l m st) = Some (if t = ''user'' then PanelUser else PanelObject)"
  "da_selectedNode (selectItem t l m st) = Some \<lparr>dn_id = [], dn_label = l, dn_type = t,
     dn_color = obj_get NODE_COLORS t, dn_node_role = None, dn_metadata = m\<rparr>"
  by (simp_all add: selectItem_def Let_def setPanelMode_def setSelectedNode_def go_tab_def setActiveTab_def)

definition side_ok :: "sidebar \<Rightarrow> bool" where
  "side_ok s \<longleftrightarrow> tree_ok (sb_tree s) \<and> search_ok 2 (sb_search s)"

lemma set_query_frame [simp]:
  "sb_tree (set_query q s) = sb_tree s" "sb_search (set_query q s) = search_step 2 (sb_search s) (QueryChanged q)"
  by (simp_all add: set_query_def)

lemma side_ok_step: "side_ok s \<Longrightarrow> side_ok (side_step s e)"
proof (cases e)
  case (SideTree e')
  assume "side_ok s"
  with SideTree show ?thesis by (cases e') (auto simp: side_ok_def tree_ok_step simp del: tree_step.simps)
next
  case (SideSearch e')
  assume "side_ok s"
  with SideSearch show ?thesis by (cases e') (auto simp: side_ok_def search_ok_step simp del: search_step.simps)
qed (auto simp: side_ok_def tree_ok_step search_ok_step simp del: tree_step.simps search_step.simps split: option.split)

interpretation side: machine "side_mount isAdmin st" side_step side_ok for isAdmin st
  by unfold_locales (simp_all add: side_ok_step, simp add: side_ok_def side_mount_def search_ok_mount tree_ok_def tree_init_def)

text \<open>
  The objects listed under an open database are exactly the loaded ones that match the query, each in the
  group of its type.
\<close>

lemma object_groups_complete:
  "(\<exists>obs'. (g, obs') \<in> set (object_groups q obs) \<and> ob \<in> set obs')
     \<longleftrightarrow> ob \<in> set obs \<and> side_match q (oi_name ob) \<and> g = object_group ob"
proof -
  define m where "m = foldl (\<lambda>m ob. obj_push (object_group ob) ob m) [] (filter (\<lambda>ob. side_match q (oi_name ob)) obs)"
  have "obj_bucket m g = filter (\<lambda>ob. object_group ob = g) (filter (\<lambda>ob. side_match q (oi_name ob)) obs)"
    using js_groups.bucket_fold [of object_group "\<lambda>ob. ob" "[]" "filter (\<lambda>ob. side_match q (oi_name ob)) obs" g]
    by (simp add: m_def)
  moreover have "(\<exists>obs'. (g, obs') \<in> set (object_groups q obs) \<and> ob \<in> set obs') \<longleftrightarrow> ob \<in> set (obj_bucket m g)"
    by (cases "obj_get m g") (simp_all add: object_groups_def m_def [symmetric] in_obj_entries obj_bucket_def nullish_def)
  ultimately show ?thesis by auto
qed

lemma lower_kinds:
  "to_lower ''table'' = ''table''" "to_lower ''view'' = ''view''" "to_lower ''mv'' = ''mv''"
  "to_lower ''function'' = ''function''"
  by code_simp+

text \<open>
  An entry of the tree selects its object without the catalog and the database that the tree knows: the
  details of the panel cannot be asked for, and the prefill of its grant button has no database.
\<close>

lemma tree_object_has_no_path:
  assumes "g \<in> {''table'', ''view'', ''mv'', ''function''}"
  shows "case da_selectedNode (sb_store (side_step s (ClickObject g n))) of
      None \<Rightarrow> False
    | Some d \<Rightarrow> detail_key d = None \<and> go_database (panel_ref d) = None
        \<and> buildRequest (initial_form (Some (empty_prefill\<lparr>wp_object := Some (panel_ref d),
            wp_grantee := Some gt, wp_privileges := Some ps\<rparr>))) = None"
proof -
  define d where "d = \<lparr>dn_id = [], dn_label = n, dn_type = g, dn_color = obj_get NODE_COLORS g,
     dn_node_role = None, dn_metadata = None\<rparr>"
  have low: "node_kind d = g" using assms lower_kinds by (auto simp: d_def node_kind_def)
  have meta: "meta_field k d = None" for k by (simp add: meta_field_def d_def)
  have "srObjectType d \<in> {''TABLE'', ''VIEW'', ''MATERIALIZED VIEW'', ''FUNCTION''}"
    using assms by (auto simp: srObjectType_def low upper_kinds)
  then have "needsDb (go_object_type (panel_ref d))" by (auto simp: needsDb_def)
  moreover have "go_database (panel_ref d) = None" using assms by (auto simp: panel_ref_def Let_def low meta)
  moreover have "detail_key d = None" by (simp add: detail_key_def meta)
  ultimately show ?thesis
    by (simp add: d_def [symmetric] buildRequest_def Let_def initial_form_def obj_field_def empty_prefill_def)
qed

end
