(* ===== verification/Entity_Tabs.thy ===== *)
theory Entity_Tabs
  imports Object_Panel
begin

text \<open>
  The tabs about users and roles: \<open>components/tabs/PermissionDetailTab.tsx\<close> and
  \<open>components/tabs/AuditTab.tsx\<close>, and the input with a list of options,
  \<open>components/common/ComboInput.tsx\<close>. The selected entity is an object that every selection makes anew, so
  it carries a number; the node selected in the graph carries the identity of its object.
\<close>

section \<open>ComboInput.tsx\<close>

record combo_option =
  op_value :: string
  op_badge :: "(string \<times> string \<times> string) option"
  op_meta :: "string option"

record combo_props =
  cp_value :: string
  cp_options :: "combo_option list"
  cp_testId :: string
  cp_selectOnly :: bool
  cp_localFilter :: bool

record combo =
  cb_open :: bool
  cb_query :: "string option"
  cb_highlight :: int

definition combo_init :: combo where
  "combo_init = \<lparr>cb_open = False, cb_query = None, cb_highlight = -1\<rparr>"

definition combo_filtered :: "combo_props \<Rightarrow> combo \<Rightarrow> combo_option list" where
  "combo_filtered p s = (case cb_query s of
      None \<Rightarrow> cp_options p
    | Some query \<Rightarrow> (if cp_selectOnly p \<or> \<not> cp_localFilter p then cp_options p
        else let q = to_lower (trim query) in
          if q = [] then cp_options p else filter (\<lambda>x. str_includes q (to_lower (op_value x))) (cp_options p)))"

definition openAll :: "combo \<Rightarrow> combo" where
  "openAll s = \<lparr>cb_open = True, cb_query = None, cb_highlight = -1\<rparr>"

definition combo_close :: "combo \<Rightarrow> combo" where
  "combo_close s = \<lparr>cb_open = False, cb_query = None, cb_highlight = -1\<rparr>"

datatype combo_key = ArrowDown | ArrowUp | EnterKey | EscapeKey | OtherKey

datatype combo_event =
    ComboType string
  | ComboFocus
  | ComboClick
  | ComboBlurTimer
  | ComboKey combo_key
  | Chevron
  | PickOption combo_option
  | HoverOption nat
  | LeaveList

text \<open>What a step calls: \<open>onChange\<close> with a text, or the pick of an option.\<close>

datatype combo_call = Typed string | Picked combo_option

definition nth_option :: "combo_option list \<Rightarrow> int \<Rightarrow> combo_option option" where
  "nth_option xs i = (if 0 \<le> i \<and> nat i < length xs then Some (xs ! nat i) else None)"

definition arrow_key :: "combo_props \<Rightarrow> combo \<Rightarrow> bool \<Rightarrow> combo" where
  "arrow_key p s down = (if \<not> cb_open s then openAll s
     else s\<lparr>cb_highlight := (if down then min (cb_highlight s + 1) (int (length (combo_filtered p s)) - 1)
       else max (cb_highlight s - 1) 0)\<rparr>)"

fun combo_step :: "combo_props \<Rightarrow> combo \<Rightarrow> combo_event \<Rightarrow> combo \<times> combo_call list" where
  "combo_step p s (ComboType t) = (if cp_selectOnly p then (s, [])
     else (\<lparr>cb_open = True, cb_query = Some t, cb_highlight = -1\<rparr>, [Typed t]))"
| "combo_step p s ComboFocus = (if cp_selectOnly p then s else openAll s, [])"
| "combo_step p s ComboClick =
     (if cp_selectOnly p then (if cb_open s then combo_close s else openAll s) else s, [])"
| "combo_step p s ComboBlurTimer = (combo_close s, [])"
| "combo_step p s (ComboKey k) = (case k of
      ArrowDown \<Rightarrow> (arrow_key p s True, [])
    | ArrowUp \<Rightarrow> (arrow_key p s False, [])
    | EnterKey \<Rightarrow> (case nth_option (combo_filtered p s) (cb_highlight s) of
          Some x \<Rightarrow> (if cb_open s then (combo_close s, [Picked x]) else (s, []))
        | None \<Rightarrow> (s, []))
    | EscapeKey \<Rightarrow> (if cb_open s then combo_close s else s, [])
    | OtherKey \<Rightarrow> (s, []))"
| "combo_step p s Chevron = (if cb_open s then combo_close s else openAll s, [])"
| "combo_step p s (PickOption x) = (if cb_open s \<and> x \<in> set (combo_filtered p s) then (combo_close s, [Picked x]) else (s, []))"
| "combo_step p s (HoverOption i) =
     (if cb_open s \<and> i < length (combo_filtered p s) then s\<lparr>cb_highlight := int i\<rparr> else s, [])"
| "combo_step p s LeaveList = (s\<lparr>cb_highlight := -1\<rparr>, [])"

definition combo_row :: "combo_option \<Rightarrow> combo_event node" where
  "combo_row x = El ''div'' [] [PickOption x]
     ((case op_badge x of None \<Rightarrow> [] | Some (t, bg, fg) \<Rightarrow> [El ''span'' [(''color'', fg)] [] [Txt t]]) @ [Txt (op_value x)])"

definition ComboInput :: "combo_props \<Rightarrow> combo \<Rightarrow> combo_event node" where
  "ComboInput p s = box (
     [Field (cp_testId p) (cp_value p) (cp_selectOnly p) ComboType [], click_text Chevron (utf8 9662)]
     @ show_if (cb_open s \<and> combo_filtered p s \<noteq> []) [box (map combo_row (combo_filtered p s))])"

section \<open>AuditTab.tsx\<close>

record audit_request =
  aq_tick :: nat
  aq_actor :: string
  aq_action :: string
  aq_live :: bool

record audit_tab =
  ad_entries :: "audit_entry list option"
  ad_error :: string
  ad_actor :: string
  ad_action :: string
  ad_failuresOnly :: bool
  ad_tick :: nat
  ad_requests :: "audit_request list"

datatype audit_event =
    ActorFilter string
  | ActionFilter string
  | FailuresOnly bool
  | RefreshTick nat
  | AuditAnswer nat "string + audit_entry list"
  | CopySql string

definition audit_call :: "audit_request \<Rightarrow> api_call" where
  "audit_call q = getAuditLog 200 (if aq_actor q = [] then None else Some (aq_actor q))
     (if aq_action q = [] then None else Some (aq_action q))"

definition audit_effect :: "audit_tab \<Rightarrow> audit_tab" where
  "audit_effect s = s\<lparr>ad_requests := map (\<lambda>q. q\<lparr>aq_live := False\<rparr>) (ad_requests s)
     @ [\<lparr>aq_tick = ad_tick s, aq_actor = ad_actor s, aq_action = ad_action s, aq_live = True\<rparr>]\<rparr>"

definition audit_mount :: "nat \<Rightarrow> audit_tab" where
  "audit_mount tick = audit_effect \<lparr>ad_entries = None, ad_error = [], ad_actor = [], ad_action = [],
     ad_failuresOnly = False, ad_tick = tick, ad_requests = []\<rparr>"

fun audit_step :: "audit_tab \<Rightarrow> audit_event \<Rightarrow> audit_tab" where
  "audit_step s (ActorFilter t) = (if t = ad_actor s then s else audit_effect (s\<lparr>ad_actor := t\<rparr>))"
| "audit_step s (ActionFilter t) = (if t = ad_action s then s else audit_effect (s\<lparr>ad_action := t\<rparr>))"
| "audit_step s (FailuresOnly b) = s\<lparr>ad_failuresOnly := b\<rparr>"
| "audit_step s (RefreshTick n) = (if n = ad_tick s then s else audit_effect (s\<lparr>ad_tick := n\<rparr>))"
| "audit_step s (AuditAnswer i res) =
     (if i < length (ad_requests s) then
        (let q = ad_requests s ! i; s' = s\<lparr>ad_requests := take i (ad_requests s) @ drop (Suc i) (ad_requests s)\<rparr> in
         if \<not> aq_live q then s'
         else case res of Inr es \<Rightarrow> s'\<lparr>ad_entries := Some es, ad_error := []\<rparr>
            | Inl e \<Rightarrow> s'\<lparr>ad_entries := Some [], ad_error := e\<rparr>)
      else s)"
| "audit_step s (CopySql t) = s"

definition audit_visible :: "audit_tab \<Rightarrow> audit_entry list option" where
  "audit_visible s = map_option (\<lambda>es. if ad_failuresOnly s then filter (\<lambda>e. au_result e \<noteq> ''ok'') es else es) (ad_entries s)"

definition audit_row :: "audit_entry \<Rightarrow> audit_event node" where
  "audit_row e = El ''tr'' [(''data-testid'', ''audit-row'')] [] (
     [El ''td'' [] [] [Txt (au_log_time e)], El ''td'' [] [] [Txt (au_actor e)],
      El ''td'' [(''color'', if au_action e = ''GRANT'' then ''#4ade80'' else ''#f87171'')] [] [Txt (au_action e)],
      El ''td'' [] [] [Txt (au_grant_type e)],
      El ''td'' [] [] ([Txt (au_sql_text e), button ''audit-copy-sql'' False (CopySql (au_sql_text e)) ''copy'']
        @ (if truthy (au_error_msg e) then [box [Txt (the (au_error_msg e))]] else [])),
      El ''td'' [(''color'', if au_result e = ''ok'' then ''#4ade80'' else ''#f87171'')] [] [Txt (au_result e)]])"

definition AuditTab :: "audit_tab \<Rightarrow> audit_event node" where
  "AuditTab s = box (
     [Field ''audit-actor-filter'' (ad_actor s) False ActorFilter [],
      Field ''audit-action-filter'' (ad_action s) True ActionFilter
        [([], ActionFilter []), (''GRANT'', ActionFilter ''GRANT''), (''REVOKE'', ActionFilter ''REVOKE'')],
      El ''input'' [(''data-testid'', ''audit-failures-only'')] [FailuresOnly (\<not> ad_failuresOnly s)] [],
      Txt (case audit_visible s of None \<Rightarrow> [] | Some es \<Rightarrow> nat_str (length es) @ '' entries'')]
     @ [case audit_visible s of
          None \<Rightarrow> Loader
        | Some es \<Rightarrow> (if ad_error s \<noteq> [] then box [Txt (''Could not load the audit log: '' @ ad_error s),
              Txt ''Make sure the srpm_audit.grant_log table exists and your account can SELECT it (see operator setup docs).'']
            else El ''table'' [] [] (map (\<lambda>h. El ''th'' [] [] [Txt h]) [''Time'', ''Actor'', ''Action'', ''Kind'', ''SQL'', ''Result'']
              @ (if es = [] then [Txt ''No audit entries.''] else map audit_row es)))])"

section \<open>PermissionDetailTab.tsx\<close>

record entity =
  en_name :: string
  en_type :: string

type_synonym picked = "(nat \<times> entity) option"

record perm_tab =
  pt_selected :: picked
  pt_next :: nat
  pt_searchText :: string
  pt_filterText :: string
  pt_search :: "search_result search_state"
  pt_dag :: "(picked, dag_graph) async_state"
  pt_grants :: "(picked, privilege_grant list) async_state"
  pt_node :: selection
  pt_clicked :: selection
  pt_clickedGrants :: "(selection \<times> picked, privilege_grant list) async_state"

definition dag_call :: "entity \<Rightarrow> api_call" where
  "dag_call e = getInheritanceDag AdminBase (en_name e) (if en_type e = ''user'' then GUser else GRole)"

definition entity_call :: "entity \<Rightarrow> api_call" where
  "entity_call e = (if en_type e = ''user'' then getUserEffectivePrivileges AdminBase (en_name e)
     else getRolePrivileges AdminBase (en_name e))"

definition clicked_call :: "dag_node \<Rightarrow> api_call" where
  "clicked_call n = (if to_lower (dn_type n) = ''user'' then getUserEffectivePrivileges AdminBase (dn_label n)
     else getRolePrivileges AdminBase (dn_label n))"

definition perm_render :: "perm_tab \<Rightarrow> perm_tab" where
  "perm_render s = s\<lparr>pt_dag := async_render (pt_selected s \<noteq> None) (pt_selected s) (pt_dag s),
     pt_grants := async_render (pt_selected s \<noteq> None) (pt_selected s) (pt_grants s),
     pt_clickedGrants := async_render (pt_clicked s \<noteq> None) (pt_clicked s, pt_selected s) (pt_clickedGrants s)\<rparr>"

definition entity_node :: "dag_node \<Rightarrow> bool" where
  "entity_node n \<longleftrightarrow> to_lower (dn_type n) \<in> {''user'', ''role''}"

definition clicked_effect :: "perm_tab \<Rightarrow> perm_tab" where
  "clicked_effect s = s\<lparr>pt_clicked := (case (pt_node s, pt_selected s) of
      (Some (r, n), Some e) \<Rightarrow> (if entity_node n then Some (r, n) else None)
    | _ \<Rightarrow> None)\<rparr>"

text \<open>A render whose effects set the clicked node is followed by another one.\<close>

definition perm_commit :: "perm_tab \<Rightarrow> perm_tab" where
  "perm_commit s = perm_render (clicked_effect (perm_render s))"

definition perm_mount :: "selection \<Rightarrow> perm_tab" where
  "perm_mount sel = \<lparr>pt_selected = None, pt_next = 0, pt_searchText = [], pt_filterText = [], pt_search = search_mount 2 [],
     pt_dag = async_mount False None, pt_grants = async_mount False None, pt_node = sel, pt_clicked = None,
     pt_clickedGrants = async_mount False (None, None)\<rparr>"

datatype ('d, 'g, 'c) perm_event =
    PermSearchText string
  | ClearPermSearch
  | PickEntity string string
  | PermFilter string
  | CloseClicked
  | GraphNode selection
  | PermSearch "search_result search_event"
  | DagReply nat 'd
  | GrantsReply nat 'g
  | ClickedReply nat 'c

definition perm_query :: "string \<Rightarrow> perm_tab \<Rightarrow> perm_tab" where
  "perm_query t s = s\<lparr>pt_searchText := t, pt_search := search_step 2 (pt_search s) (QueryChanged t)\<rparr>"

definition reset_search :: "perm_tab \<Rightarrow> perm_tab" where
  "reset_search s = s\<lparr>pt_search := search_step 2 (pt_search s) ResetSearch\<rparr>"

definition handleSelect :: "string \<Rightarrow> string \<Rightarrow> perm_tab \<Rightarrow> perm_tab" where
  "handleSelect name t s = perm_commit ((perm_query [] (reset_search s))
     \<lparr>pt_selected := Some (pt_next s, \<lparr>en_name = name, en_type = t\<rparr>), pt_next := pt_next s + 1, pt_filterText := []\<rparr>)"

fun perm_step ::
  "('d \<Rightarrow> picked \<Rightarrow> string + dag_graph) \<Rightarrow> ('g \<Rightarrow> picked \<Rightarrow> string + privilege_grant list)
    \<Rightarrow> ('c \<Rightarrow> selection \<times> picked \<Rightarrow> string + privilege_grant list) \<Rightarrow> perm_tab \<Rightarrow> ('d, 'g, 'c) perm_event \<Rightarrow> perm_tab" where
  "perm_step dags grants nodes s (PermSearchText t) = perm_query t s"
| "perm_step dags grants nodes s ClearPermSearch = perm_query [] (reset_search s)"
| "perm_step dags grants nodes s (PickEntity name t) = handleSelect name t s"
| "perm_step dags grants nodes s (PermFilter t) = s\<lparr>pt_filterText := t\<rparr>"
| "perm_step dags grants nodes s CloseClicked = perm_render (s\<lparr>pt_clicked := None\<rparr>)"
| "perm_step dags grants nodes s (GraphNode sel) =
     (if map_option fst sel = map_option fst (pt_node s) then s else perm_commit (s\<lparr>pt_node := sel\<rparr>))"
| "perm_step dags grants nodes s (PermSearch e) = (case e of
      SearchTimer \<Rightarrow> s\<lparr>pt_search := search_step 2 (pt_search s) e\<rparr>
    | SearchAnswer i r \<Rightarrow> s\<lparr>pt_search := search_step 2 (pt_search s) e\<rparr>
    | _ \<Rightarrow> s)"
| "perm_step dags grants nodes s (DagReply i v) = s\<lparr>pt_dag := async_step dags (pt_dag s) (Settled i v)\<rparr>"
| "perm_step dags grants nodes s (GrantsReply i v) = s\<lparr>pt_grants := async_step grants (pt_grants s) (Settled i v)\<rparr>"
| "perm_step dags grants nodes s (ClickedReply i v) =
     s\<lparr>pt_clickedGrants := async_step nodes (pt_clickedGrants s) (Settled i v)\<rparr>"

definition FormattedName :: "string \<Rightarrow> 'e node list" where
  "FormattedName name = (let p = parseGrantee name in
     if truthy (pa_hostLabel p) then [Txt (pa_uname p), Txt (''('' @ nullish (pa_hostLabel p) [] @ '')'')]
     else [Txt name])"

text \<open>\<open>ENTITY_BADGE[type].bg\<close> of another type is an exception of the render.\<close>

definition entity_badge :: "string \<Rightarrow> 'e node option" where
  "entity_badge t = map_option (\<lambda>c. Badge (to_upper t) (tc_fg c)) (obj_get ENTITY_BADGE t)"

definition entity_header :: "string \<Rightarrow> string \<Rightarrow> 'e node option" where
  "entity_header t name = map_option (\<lambda>b. box (InlineIcon t # FormattedName name @ [b])) (entity_badge t)"

definition result_button :: "search_result \<Rightarrow> ('d, 'g, 'c) perm_event node" where
  "result_button r = El ''button'' [] [PickEntity (sr_name r) (sr_type r)]
     [InlineIcon (sr_type r), Txt (sr_name r), Txt (to_upper (sr_type r))]"

definition perm_left :: "perm_tab \<Rightarrow> ('d, 'g, 'c) perm_event node option" where
  "perm_left s = (let res = async_result False (pt_grants s);
       search = [Field ''Search user or role...'' (pt_searchText s) False PermSearchText []]
         @ show_if (pt_searchText s \<noteq> []) [click_text ClearPermSearch times_sign]
         @ show_if (se_searching (pt_search s)) [Txt ''Searching...'']
         @ map result_button (nullish (se_results (pt_search s)) [])
     in case pt_selected s of
       None \<Rightarrow> Some (box (search @ [Txt ''Search and select a user or role to view permissions'']))
     | Some (k, e) \<Rightarrow> map_option (\<lambda>h. box (search @ [h,
           Field ''Filter privileges...'' (pt_filterText s) False PermFilter [],
           if ar_loading res then Txt ''Loading privileges...''
           else GrantTreeView (buildGrantDisplay (nullish (ar_data res) []) False (pt_filterText s)) None None None]))
         (entity_header (en_type e) (en_name e)))"

text \<open>The graph in the middle: nothing selected, loading, or the view with the data it is given.\<close>

datatype perm_middle = NothingSelected | LoadingGraph | ShowGraph "dag_graph option"

definition perm_center :: "perm_tab \<Rightarrow> perm_middle" where
  "perm_center s = (let res = async_result False (pt_dag s) in
     if pt_selected s = None then NothingSelected
     else if ar_loading res then LoadingGraph else ShowGraph (ar_data res))"

definition perm_right :: "perm_tab \<Rightarrow> ('d, 'g, 'c) perm_event node option" where
  "perm_right s = (let res = async_result False (pt_clickedGrants s) in
     case pt_clicked s of
       None \<Rightarrow> Some (box [])
     | Some (r, n) \<Rightarrow> map_option (\<lambda>h. box [h, click_text CloseClicked times_sign,
           if ar_loading res then Txt ''Loading privileges...''
           else GrantTreeView (buildGrantDisplay (nullish (ar_data res) []) False []) None None None])
         (entity_header (dn_type n) (dn_label n)))"

definition PermissionDetailTab :: "perm_tab \<Rightarrow> (('d, 'g, 'c) perm_event node \<times> perm_middle \<times> ('d, 'g, 'c) perm_event node) option" where
  "PermissionDetailTab s = (case (perm_left s, perm_right s) of
      (Some l, Some r) \<Rightarrow> Some (l, perm_center s, r) | _ \<Rightarrow> None)"

section \<open>Lemmas\<close>

text \<open>
  The combo box picks only options that it shows, calls back a text only where one can be typed, and the
  arrow keys stay in the list.
\<close>

lemma nth_option_some: "nth_option xs i = Some x \<Longrightarrow> x \<in> set xs"
  by (auto simp: nth_option_def split: if_splits)

lemma combo_filtered_options: "set (combo_filtered p s) \<subseteq> set (cp_options p)"
  by (auto simp: combo_filtered_def Let_def split: option.splits)

lemma combo_picks_shown:
  assumes "Picked x \<in> set (snd (combo_step p s e))"
  shows "cb_open s \<and> x \<in> set (combo_filtered p s) \<and> x \<in> set (cp_options p) \<and> fst (combo_step p s e) = combo_close s"
  using assms combo_filtered_options
  by (cases e) (auto dest: nth_option_some split: combo_key.splits option.splits if_splits)

lemma combo_types:
  "Typed t \<in> set (snd (combo_step p s e)) \<Longrightarrow> e = ComboType t \<and> \<not> cp_selectOnly p"
  by (cases e) (auto split: combo_key.splits option.splits if_splits)

lemma combo_arrows:
  assumes "cb_open s" and "-1 \<le> cb_highlight s" and "combo_filtered p s \<noteq> []"
  shows "case cb_highlight (arrow_key p s d) of h \<Rightarrow> 0 \<le> h \<and> (h < int (length (combo_filtered p s))
      \<or> \<not> d \<and> h < cb_highlight s)"
proof -
  have "0 < length (combo_filtered p s)" using assms(3) by simp
  then show ?thesis using assms(1,2) by (auto simp: arrow_key_def)
qed

text \<open>The audit tab has one live request, for its current filters, and shows only answers to live requests.\<close>

definition audit_ok :: "audit_tab \<Rightarrow> bool" where
  "audit_ok s \<longleftrightarrow> (\<forall>q \<in> set (ad_requests s). aq_live q \<longrightarrow>
       aq_tick q = ad_tick s \<and> aq_actor q = ad_actor s \<and> aq_action q = ad_action s)
     \<and> (ad_entries s = None \<longrightarrow> (\<exists>q \<in> set (ad_requests s). aq_live q))"

lemma audit_ok_effect: "audit_ok (audit_effect s)"
  by (auto simp: audit_ok_def audit_effect_def)

lemma audit_ok_answer:
  assumes "audit_ok s"
  shows "audit_ok (audit_step s (AuditAnswer i res))"
proof (cases "i < length (ad_requests s)")
  case True
  define t where "t = s\<lparr>ad_requests := take i (ad_requests s) @ drop (Suc i) (ad_requests s)\<rparr>"
  have sub: "set (ad_requests t) \<subseteq> set (ad_requests s)"
    using set_take_subset [of i "ad_requests s"] set_drop_subset [of "Suc i" "ad_requests s"] by (auto simp: t_def)
  have keep: "q \<in> set (ad_requests t)" if "q \<in> set (ad_requests s)" "q \<noteq> ad_requests s ! i" for q
    using in_remove_nth [OF that True] by (simp add: t_def)
  have same: "ad_tick t = ad_tick s" "ad_actor t = ad_actor s" "ad_action t = ad_action s" "ad_entries t = ad_entries s"
    by (simp_all add: t_def)
  show ?thesis
  proof (cases "aq_live (ad_requests s ! i)")
    case False
    then have "audit_step s (AuditAnswer i res) = t" using True by (simp add: t_def Let_def)
    moreover have "audit_ok t" using assms sub keep False unfolding audit_ok_def same by blast
    ultimately show ?thesis by simp
  next
    case live: True
    have "audit_ok (t\<lparr>ad_entries := Some es, ad_error := e\<rparr>)" for es e
      using assms sub by (auto simp: audit_ok_def same)
    then show ?thesis using True live by (cases res) (simp_all add: t_def Let_def)
  qed
qed (use assms in simp)

lemma audit_ok_step: "audit_ok s \<Longrightarrow> audit_ok (audit_step s e)"
proof (cases e)
  case (AuditAnswer i res)
  assume "audit_ok s"
  then show ?thesis unfolding AuditAnswer by (rule audit_ok_answer)
qed (auto simp: audit_ok_effect, auto simp: audit_ok_def)

interpretation audit: machine "audit_mount tick" audit_step audit_ok for tick
  by unfold_locales (simp_all add: audit_mount_def audit_ok_effect audit_ok_step)

text \<open>The permission tab shows what the server answered for the entity and the node selected now.\<close>

definition perm_async ::
  "('d \<Rightarrow> picked \<Rightarrow> string + dag_graph) \<Rightarrow> ('g \<Rightarrow> picked \<Rightarrow> string + privilege_grant list)
    \<Rightarrow> ('c \<Rightarrow> selection \<times> picked \<Rightarrow> string + privilege_grant list) \<Rightarrow> perm_tab \<Rightarrow> bool" where
  "perm_async dags grants nodes s \<longleftrightarrow>
     async_ok dags (pt_dag s) \<and> async_ok grants (pt_grants s) \<and> async_ok nodes (pt_clickedGrants s)"

definition perm_deps :: "perm_tab \<Rightarrow> bool" where
  "perm_deps s \<longleftrightarrow> as_deps (pt_dag s) = pt_selected s \<and> as_deps (pt_grants s) = pt_selected s
     \<and> as_deps (pt_clickedGrants s) = (pt_clicked s, pt_selected s)"

definition clicked_ok :: "perm_tab \<Rightarrow> bool" where
  "clicked_ok s \<longleftrightarrow> pt_clicked s = None \<or> pt_selected s \<noteq> None \<and> pt_node s = pt_clicked s
     \<and> entity_node (snd (the (pt_clicked s)))"

definition perm_ok ::
  "('d \<Rightarrow> picked \<Rightarrow> string + dag_graph) \<Rightarrow> ('g \<Rightarrow> picked \<Rightarrow> string + privilege_grant list)
    \<Rightarrow> ('c \<Rightarrow> selection \<times> picked \<Rightarrow> string + privilege_grant list) \<Rightarrow> perm_tab \<Rightarrow> bool" where
  "perm_ok dags grants nodes s \<longleftrightarrow> perm_async dags grants nodes s \<and> perm_deps s \<and> clicked_ok s"

lemma perm_render_frame [simp]:
  "pt_selected (perm_render s) = pt_selected s" "pt_clicked (perm_render s) = pt_clicked s"
  "pt_node (perm_render s) = pt_node s" "pt_next (perm_render s) = pt_next s"
  by (simp_all add: perm_render_def)

lemma perm_deps_render [simp]: "perm_deps (perm_render s)"
  by (simp add: perm_deps_def perm_render_def)

lemma perm_async_render: "perm_async dags grants nodes s \<Longrightarrow> perm_async dags grants nodes (perm_render s)"
  by (simp add: perm_async_def perm_render_def async_ok_render)

lemma perm_async_clicked [simp]:
  "perm_async dags grants nodes (clicked_effect s) = perm_async dags grants nodes s"
  by (simp add: perm_async_def clicked_effect_def)

lemma clicked_ok_effect: "clicked_ok (clicked_effect s)"
  by (auto simp: clicked_ok_def clicked_effect_def split: option.split prod.split)

lemma clicked_ok_render [simp]: "clicked_ok (perm_render s) = clicked_ok s"
  by (simp add: clicked_ok_def)

lemma perm_ok_commit: "perm_async dags grants nodes s \<Longrightarrow> perm_ok dags grants nodes (perm_commit s)"
  by (simp add: perm_ok_def perm_commit_def perm_async_render clicked_ok_effect)

lemma perm_query_frame [simp]:
  "perm_async dags grants nodes (perm_query t s) = perm_async dags grants nodes s"
  "perm_async dags grants nodes (reset_search s) = perm_async dags grants nodes s"
  "perm_deps (perm_query t s) = perm_deps s" "perm_deps (reset_search s) = perm_deps s"
  "clicked_ok (perm_query t s) = clicked_ok s" "clicked_ok (reset_search s) = clicked_ok s"
  by (simp_all add: perm_async_def perm_deps_def clicked_ok_def perm_query_def reset_search_def)

lemma perm_async_select:
  "perm_async dags grants nodes (s\<lparr>pt_selected := x, pt_next := k, pt_filterText := t\<rparr>) = perm_async dags grants nodes s"
  by (simp add: perm_async_def)

lemma perm_ok_select: "perm_ok dags grants nodes s \<Longrightarrow> perm_ok dags grants nodes (handleSelect name t s)"
  unfolding handleSelect_def by (rule perm_ok_commit) (simp add: perm_async_select perm_ok_def)

lemma perm_ok_step: "perm_ok dags grants nodes s \<Longrightarrow> perm_ok dags grants nodes (perm_step dags grants nodes s e)"
proof (cases e)
  case (PickEntity name t)
  assume "perm_ok dags grants nodes s"
  then show ?thesis by (simp add: PickEntity perm_ok_select)
next
  case CloseClicked
  assume ok: "perm_ok dags grants nodes s"
  have "perm_async dags grants nodes (s\<lparr>pt_clicked := None\<rparr>)" using ok by (simp add: perm_ok_def perm_async_def)
  then show ?thesis by (simp add: CloseClicked perm_ok_def perm_async_render, simp add: clicked_ok_def)
next
  case (GraphNode sel)
  assume ok: "perm_ok dags grants nodes s"
  have "perm_async dags grants nodes (s\<lparr>pt_node := sel\<rparr>)" using ok by (simp add: perm_ok_def perm_async_def)
  then show ?thesis using ok by (simp add: GraphNode perm_ok_commit)
next
  case (PermSearch x)
  assume ok: "perm_ok dags grants nodes s"
  have "perm_ok dags grants nodes (s\<lparr>pt_search := q\<rparr>)" for q
    using ok by (simp add: perm_ok_def perm_async_def perm_deps_def clicked_ok_def)
  then show ?thesis using ok by (cases x) (simp_all add: PermSearch)
next
  case (DagReply i v)
  assume "perm_ok dags grants nodes s"
  then show ?thesis by (simp add: DagReply perm_ok_def perm_async_def perm_deps_def clicked_ok_def async_ok_settle)
next
  case (GrantsReply i v)
  assume "perm_ok dags grants nodes s"
  then show ?thesis by (simp add: GrantsReply perm_ok_def perm_async_def perm_deps_def clicked_ok_def async_ok_settle)
next
  case (ClickedReply i v)
  assume "perm_ok dags grants nodes s"
  then show ?thesis by (simp add: ClickedReply perm_ok_def perm_async_def perm_deps_def clicked_ok_def async_ok_settle)
next
  case (PermFilter t)
  assume "perm_ok dags grants nodes s"
  then show ?thesis by (simp add: PermFilter perm_ok_def perm_async_def perm_deps_def clicked_ok_def)
qed (auto simp: perm_ok_def)

lemma perm_ok_mount: "perm_ok dags grants nodes (perm_mount sel)"
  by (simp add: perm_ok_def perm_async_def perm_deps_def clicked_ok_def perm_mount_def async_ok_mount)
    (simp add: async_mount_def)

interpretation perm: machine "perm_mount sel" "perm_step dags grants nodes" "perm_ok dags grants nodes"
  for sel dags grants nodes
  by unfold_locales (simp_all add: perm_ok_mount perm_ok_step)

text \<open>
  The first selection of an entity opens the right panel for whatever user or role was selected last in
  another tab, although nothing in this graph was clicked.
\<close>

lemma stale_selection_opens_panel:
  assumes "entity_node n"
  shows "pt_clicked (handleSelect name t (perm_mount (Some (r, n)))) = Some (r, n)"
  using assms by (simp add: handleSelect_def perm_commit_def clicked_effect_def perm_query_def reset_search_def perm_mount_def)

end
