(* ===== verification/Cluster_Cards.thy ===== *)
theory Cluster_Cards
  imports Inventory_Ui Session Relative_Time Query_Hooks
begin

text \<open>
  The cards and summaries of the cluster: \<open>components/cluster/NodeCards.tsx\<close> and
  \<open>components/cluster/ClusterSummary.tsx\<close>, as views for any type of events. A percentage is a rational; the
  locale's rendering of a number is a parameter.
\<close>

section \<open>Gauges (NodeCards.tsx)\<close>

datatype bar_variant = Pressure | Info

definition red :: string where "red = ''#ef4444''"

text \<open>The colour of a load: full is bad.\<close>

definition load_color :: "rat \<Rightarrow> string" where
  "load_color pct = (if pct > 85 then red else if pct > 70 then palette ''warning'' else palette ''green'')"

definition UtilBar :: "rat \<Rightarrow> bar_variant \<Rightarrow> 'e node" where
  "UtilBar pct variant = El ''div'' [(''width'', num_str (min pct 100) @ ''%''),
     (''background'', if variant = Info then palette ''accent'' else load_color pct)] [] []"

definition spark_max :: "rat list \<Rightarrow> rat" where
  "spark_max vs = fold max vs 100"

definition spark_point :: "nat \<Rightarrow> rat \<Rightarrow> nat \<times> rat \<Rightarrow> string" where
  "spark_point n mx iv = (case iv of (i, v) \<Rightarrow>
     to_fixed 1 (of_nat i * (56 / of_nat (n - 1))) @ '','' @ to_fixed 1 (16 - min v mx / mx * 16))"

definition Sparkline :: "rat list \<Rightarrow> 'e node list" where
  "Sparkline vs = (if length vs < 2 then []
     else [El ''polyline'' [(''points'', join '' '' (map (spark_point (length vs) (spark_max vs)) (enumerate 0 vs))),
       (''stroke'', load_color (last vs))] [] []])"

definition MetricRow :: "string \<Rightarrow> rat \<Rightarrow> string option \<Rightarrow> bar_variant \<Rightarrow> rat list option \<Rightarrow> 'e node" where
  "MetricRow label pct extra variant spark = box (
     [Txt label, Txt (nullish extra [])] @ (case spark of None \<Rightarrow> [] | Some vs \<Rightarrow> Sparkline vs)
     @ [Txt (to_fixed 1 pct @ ''%''), UtilBar pct variant])"

definition StatusDot :: "bool \<Rightarrow> 'e node" where
  "StatusDot alive = El ''span'' [(''background'', if alive then palette ''green'' else red)] [] []"

definition roleBadgeColor :: "string \<Rightarrow> string" where
  "roleBadgeColor role = (if role = ''LEADER'' then palette ''accent''
     else if role = ''OBSERVER'' then palette ''warning'' else palette ''text2'')"

definition detail_opt :: "string \<Rightarrow> string option \<Rightarrow> 'e node list" where
  "detail_opt label v = (case v of None \<Rightarrow> [] | Some t \<Rightarrow> [Detail label t])"

definition nonempty :: "string option \<Rightarrow> string option" where
  "nonempty v = (if truthy v then v else None)"

definition card_header :: "string \<Rightarrow> string \<Rightarrow> bool \<Rightarrow> string \<Rightarrow> string \<Rightarrow> bool \<Rightarrow> 'e \<Rightarrow> 'e node" where
  "card_header name ip alive kind kind_color expanded onToggle =
     (let displayName = shortenNodeName name; displayIp = shortenNodeName ip in
      El ''div'' [] [onToggle] ([StatusDot alive, El ''span'' [(''title'', name)] [] [Txt displayName]]
        @ show_if (displayIp \<noteq> displayName) [El ''span'' [(''title'', ip)] [] [Txt displayIp]]
        @ [Badge kind kind_color, Badge (if alive then ''ALIVE'' else ''DEAD'') (if alive then palette ''green'' else red),
           Txt (if expanded then up_mark else down_mark)]))"

definition gc_text :: "(int \<Rightarrow> string) \<Rightarrow> int \<Rightarrow> int option \<Rightarrow> string" where
  "gc_text locale_int n ms = locale_int n @ '' times''
     @ (case ms of None \<Rightarrow> [] | Some t \<Rightarrow> '' '' @ middle_dot @ '' '' @ to_fixed 1 (of_int t / 1000) @ ''s'')"

definition fe_metrics :: "fe_node \<Rightarrow> rat list option \<Rightarrow> 'e node list" where
  "fe_metrics n spark =
     MetricRow ''Heap'' (nullish (fe_jvm_heap_used_pct n) 0) None Pressure spark
     # show_if (fe_connection_count n \<noteq> None \<or> fe_query_p99_ms n \<noteq> None) [box (
         (case fe_connection_count n of None \<Rightarrow> [] | Some c \<Rightarrow> [Txt ''Conns '', Txt (int_str c)])
         @ (case fe_query_p99_ms n of None \<Rightarrow> [] | Some p \<Rightarrow> [Txt ''p99 '', Txt (to_fixed 1 p @ '' ms'')])
         @ (case fe_qps n of None \<Rightarrow> [] | Some q \<Rightarrow> show_if (q > 0) [Txt ''QPS '', Txt (to_fixed 2 q)]))]"

definition FENodeCard ::
  "(string \<Rightarrow> int option) \<Rightarrow> (int \<Rightarrow> string) \<Rightarrow> fe_node \<Rightarrow> bool \<Rightarrow> 'e \<Rightarrow> int \<Rightarrow> rat list option \<Rightarrow> 'e node" where
  "FENodeCard host_date locale_int n expanded onToggle now heapHistory =
     (let hasMetrics = (fe_jvm_heap_used_pct n \<noteq> None) in
      El ''div'' [(''border'', if fe_alive n then palette ''borderLight'' else red)] [] (
        [card_header (fe_name n) (fe_ip n) (fe_alive n) (fe_role n) (roleBadgeColor (fe_role n)) expanded onToggle]
        @ show_if (hasMetrics \<or> truthy (fe_metrics_error n)) [box (
            if hasMetrics then fe_metrics n heapHistory
            else [Txt (''Metrics unavailable ('' @ nullish (fe_metrics_error n) [] @ '')'')])]
        @ show_if expanded [box (
            detail_opt ''Version'' (nonempty (fe_version n))
            @ detail_opt ''Journal ID'' (map_option locale_int (fe_replayed_journal_id n))
            @ (if truthy (fe_start_time n) then [Detail ''Start Time'' (formatRelativeTime host_date (fe_start_time n) now)] else [])
            @ detail_opt ''Young GC (cumulative)'' (map_option (\<lambda>c. gc_text locale_int c (fe_gc_young_time_ms n)) (fe_gc_young_count n))
            @ detail_opt ''Old GC (cumulative)'' (map_option (\<lambda>c. gc_text locale_int c (fe_gc_old_time_ms n)) (fe_gc_old_count n))
            @ detail_opt ''Query p99'' (map_option (\<lambda>p. to_fixed 1 p @ '' ms'') (fe_query_p99_ms n))
            @ detail_opt ''Connections'' (map_option int_str (fe_connection_count n))
            @ detail_opt ''QPS'' (map_option (to_fixed 2) (fe_qps n))
            @ (if truthy (fe_err_msg n) then [box [Txt (the (fe_err_msg n))]] else []))]))"

definition diskLabel :: "be_node \<Rightarrow> string option" where
  "diskLabel n = (if truthy (be_data_used_capacity n) \<and> truthy (be_total_capacity n)
     then Some (the (be_data_used_capacity n) @ '' / '' @ the (be_total_capacity n)) else None)"

definition BENodeCard ::
  "(string \<Rightarrow> int option) \<Rightarrow> (int \<Rightarrow> string) \<Rightarrow> be_node \<Rightarrow> bool \<Rightarrow> 'e \<Rightarrow> int \<Rightarrow> rat list option \<Rightarrow> rat list option \<Rightarrow> 'e node" where
  "BENodeCard host_date locale_int n expanded onToggle now cpuHistory memHistory =
     (let isCompute = (be_node_type n = Compute) in
      El ''div'' [(''border'', if be_alive n then palette ''borderLight'' else red)] [] (
        [card_header (be_name n) (be_ip n) (be_alive n) (if isCompute then ''CN'' else ''BE'')
           (if isCompute then palette ''warning'' else palette ''accent'') expanded onToggle,
         box ((case be_tablet_count n of None \<Rightarrow> [] | Some t \<Rightarrow> [Txt (locale_int t @ '' tablets'')])
           @ show_if (diskLabel n \<noteq> None \<and> be_used_pct n \<noteq> None)
               [MetricRow (if isCompute then ''Disk Cache'' else ''Disk'') (nullish (be_used_pct n) 0) (diskLabel n)
                  (if isCompute then Info else Pressure) None]
           @ (case be_cpu_used_pct n of None \<Rightarrow> []
              | Some p \<Rightarrow> [MetricRow ''CPU'' p (map_option (\<lambda>c. int_str c @ '' cores'') (be_cpu_cores n)) Pressure cpuHistory])
           @ (case be_mem_used_pct n of None \<Rightarrow> []
              | Some p \<Rightarrow> [MetricRow ''Memory'' p (map_option (\<lambda>m. ''of '' @ m) (nonempty (be_mem_limit n))) Pressure memHistory]))]
        @ show_if expanded [box (
            detail_opt ''Warehouse'' (if isCompute then nonempty (be_warehouse n) else None)
            @ detail_opt ''CPU Cores'' (if isCompute then None else map_option int_str (be_cpu_cores n))
            @ detail_opt ''Running Queries'' (map_option int_str (be_num_running_queries n))
            @ (if truthy (be_last_start_time n) then [Detail ''Last Start'' (formatRelativeTime host_date (be_last_start_time n) now)] else [])
            @ detail_opt ''Version'' (nonempty (be_version n))
            @ (if truthy (be_err_msg n) then [box [Txt (the (be_err_msg n))]] else []))]))"

section \<open>Summaries (ClusterSummary.tsx)\<close>

definition Stat :: "string \<Rightarrow> string \<Rightarrow> 'e node" where
  "Stat label v = box [Txt (label @ '': ''), Txt v]"

definition alive_row :: "string \<Rightarrow> int \<Rightarrow> int \<Rightarrow> 'e node" where
  "alive_row kind alive tot = box [StatusDot (alive = tot),
     Txt (kind @ '' ''), Txt (int_str alive @ ''/'' @ int_str tot), Txt '' alive'']"

definition pct_text :: "rat \<Rightarrow> string" where
  "pct_text p = to_fixed 1 p @ ''%''"

definition disk_title :: "cluster_metrics \<Rightarrow> string" where
  "disk_title m = (if cm_be_total m > 0 \<and> cm_cn_total m > 0 then ''Avg Disk/Cache''
     else if cm_be_total m > 0 then ''Avg Disk'' else ''Avg Cache'')"

definition stat_opt :: "string \<Rightarrow> string option \<Rightarrow> 'e node list" where
  "stat_opt label v = (case v of None \<Rightarrow> [] | Some t \<Rightarrow> [Stat label t])"

definition ClusterSummary :: "(int \<Rightarrow> string) \<Rightarrow> cluster_status \<Rightarrow> 'e node" where
  "ClusterSummary locale_int data = (let m = cs_metrics data in box (
     [alive_row ''FE'' (cm_fe_alive m) (cm_fe_total m)]
     @ show_if (cm_be_total m > 0) [alive_row ''BE'' (cm_be_alive m) (cm_be_total m)]
     @ show_if (cm_cn_total m > 0) [alive_row ''CN'' (cm_cn_alive m) (cm_cn_total m)]
     @ stat_opt ''Tablets'' (map_option locale_int (cm_total_tablets m))
     @ stat_opt ''Data Used'' (nonempty (cm_total_data_used m))
     @ stat_opt (disk_title m) (map_option pct_text (cm_avg_disk_used_pct m))
     @ stat_opt ''Avg CPU'' (map_option pct_text (cm_avg_cpu_used_pct m))
     @ stat_opt ''Avg Mem'' (map_option pct_text (cm_avg_mem_used_pct m))
     @ stat_opt ''Avg FE Heap'' (map_option pct_text (cm_avg_fe_heap_used_pct m))
     @ stat_opt ''Connections'' (map_option int_str (cm_total_connections m))))"

datatype kpi_status = KpiOk | KpiWarn | KpiBad

definition kpi_color :: "kpi_status \<Rightarrow> string" where
  "kpi_color st = (case st of KpiBad \<Rightarrow> red | KpiWarn \<Rightarrow> palette ''warning'' | KpiOk \<Rightarrow> palette ''green'')"

definition KpiTile ::
  "string \<Rightarrow> string \<Rightarrow> rat option \<Rightarrow> kpi_status option \<Rightarrow> bar_variant \<Rightarrow> 'e option \<Rightarrow> 'e node" where
  "KpiTile label v pct status variant onClick = El ''button'' (disabled_if (onClick = None))
     (case onClick of None \<Rightarrow> [] | Some e \<Rightarrow> [e])
     ([Txt label] @ (case status of None \<Rightarrow> [] | Some st \<Rightarrow> [El ''span'' [(''background'', kpi_color st)] [] []])
      @ [Txt v] @ (case pct of None \<Rightarrow> [] | Some p \<Rightarrow> [UtilBar p variant]))"

definition aliveStatus :: "int \<Rightarrow> int \<Rightarrow> kpi_status" where
  "aliveStatus alive tot = (if alive < tot then KpiBad else KpiOk)"

definition pctStatus :: "rat \<Rightarrow> kpi_status" where
  "pctStatus p = (if p > 85 then KpiBad else if p > 70 then KpiWarn else KpiOk)"

definition pct_tile :: "string \<Rightarrow> rat option \<Rightarrow> 'e node list" where
  "pct_tile label p = (case p of None \<Rightarrow> []
     | Some v \<Rightarrow> [KpiTile label (pct_text v) (Some v) (Some (pctStatus v)) Pressure None])"

definition alive_text :: "int \<Rightarrow> int \<Rightarrow> string" where
  "alive_text alive tot = int_str alive @ ''/'' @ int_str tot"

definition ClusterKpiBand :: "(int \<Rightarrow> string) \<Rightarrow> cluster_status \<Rightarrow> (string \<Rightarrow> 'e) option \<Rightarrow> 'e node" where
  "ClusterKpiBand locale_int data onJump =
     (let m = cs_metrics data; jump = (\<lambda>t. map_option (\<lambda>f. f t) onJump);
          cacheOnly = (cm_cn_total m > 0 \<and> cm_be_total m = 0) in box (
       [KpiTile ''Frontends'' (alive_text (cm_fe_alive m) (cm_fe_total m)) None
          (Some (aliveStatus (cm_fe_alive m) (cm_fe_total m))) Pressure (jump ''frontends'')]
       @ show_if (cm_be_total m > 0) [KpiTile ''Backends'' (alive_text (cm_be_alive m) (cm_be_total m)) None
          (Some (aliveStatus (cm_be_alive m) (cm_be_total m))) Pressure (jump ''backends'')]
       @ show_if (cm_cn_total m > 0) [KpiTile ''Compute'' (alive_text (cm_cn_alive m) (cm_cn_total m)) None
          (Some (aliveStatus (cm_cn_alive m) (cm_cn_total m))) Pressure (jump ''backends'')]
       @ pct_tile ''Avg CPU'' (cm_avg_cpu_used_pct m) @ pct_tile ''Avg Memory'' (cm_avg_mem_used_pct m)
       @ pct_tile ''Avg FE Heap'' (cm_avg_fe_heap_used_pct m)
       @ (case cm_avg_disk_used_pct m of None \<Rightarrow> []
          | Some p \<Rightarrow> [KpiTile (disk_title m) (pct_text p) (Some p) (Some (if cacheOnly then KpiOk else pctStatus p))
              (if cacheOnly then Info else Pressure) None])
       @ (case cm_total_connections m of None \<Rightarrow> []
          | Some c \<Rightarrow> [KpiTile ''Connections'' (case cm_total_qps m of
                Some q \<Rightarrow> if q > 0 then int_str c @ '' '' @ middle_dot @ '' '' @ num_str q @ '' qps'' else int_str c
              | None \<Rightarrow> int_str c) None None Pressure (jump ''frontends'')])
       @ (case cm_total_tablets m of None \<Rightarrow> [] | Some t \<Rightarrow> [KpiTile ''Tablets'' (locale_int t) None None Pressure None])
       @ (if truthy (cm_total_data_used m)
          then [KpiTile ''Data Used'' (the (cm_total_data_used m)) None None Pressure None] else [])))"

record alert =
  al_id :: string
  al_name :: string
  al_full :: string
  al_ip :: string
  al_msg :: string

definition fe_id :: "fe_node \<Rightarrow> string" where
  "fe_id n = ''fe:'' @ fe_name n"

definition be_id :: "be_node \<Rightarrow> string" where
  "be_id n = (if be_node_type n = Compute then ''cn'' else ''be'') @ '':'' @ be_name n"

definition alert_of :: "string \<Rightarrow> string \<Rightarrow> string \<Rightarrow> string option \<Rightarrow> alert" where
  "alert_of i name ip err = \<lparr>al_id = i, al_name = shortenNodeName name, al_full = name, al_ip = ip,
     al_msg = or_else err ''Node is DEAD''\<rparr>"

definition cluster_alerts :: "cluster_status \<Rightarrow> alert list" where
  "cluster_alerts data =
     map (\<lambda>n. alert_of (fe_id n) (fe_name n) (fe_ip n) (fe_err_msg n))
       (filter (\<lambda>n. \<not> fe_alive n \<or> truthy (fe_err_msg n)) (cs_frontends data))
     @ map (\<lambda>n. alert_of (be_id n) (be_name n) (be_ip n) (be_err_msg n))
       (filter (\<lambda>n. \<not> be_alive n \<or> truthy (be_err_msg n)) (cs_backends data))"

definition alert_row :: "(string \<Rightarrow> 'e) option \<Rightarrow> alert \<Rightarrow> 'e node" where
  "alert_row onJumpNode a = El ''div'' [] (case onJumpNode of None \<Rightarrow> [] | Some f \<Rightarrow> [f (al_id a)])
     ([El ''span'' [(''title'', al_full a)] [] [Txt (al_name a)], Txt (al_ip a), Txt (al_msg a)]
      @ show_if (onJumpNode \<noteq> None) [Txt (utf8 8594)])"

definition ClusterAlerts :: "cluster_status \<Rightarrow> (string \<Rightarrow> 'e) option \<Rightarrow> 'e node list" where
  "ClusterAlerts data onJumpNode = (if \<not> cs_has_errors data then []
     else [box ([InlineIcon ''warning'', Txt ''Alerts'', Txt (''('' @ nat_str (length (cluster_alerts data)) @ '')'')]
       @ map (alert_row onJumpNode) (cluster_alerts data))])"

definition ClusterBanners :: "cluster_status \<Rightarrow> 'e node list" where
  "ClusterBanners data =
     show_if (cs_mode data = LimitedMode) [box [InlineIcon ''info'', Txt ''Limited view'',
       Txt ('' '' @ em_dash @ '' showing only the FE you'' @ [quote_ch] @ ''re connected to. Full cluster inventory requires the cluster_admin role.'')]]
     @ (if truthy (cs_metrics_warning data) then [box [InlineIcon ''warning'', Txt (the (cs_metrics_warning data))]] else [])"

section \<open>Lemmas\<close>

text \<open>The bar never overflows, and what is red in one of the two gauges of a load is red in the other.\<close>

lemma bar_and_tile_agree: "kpi_color (pctStatus p) = load_color p"
  by (simp add: kpi_color_def pctStatus_def load_color_def)

text \<open>Exactly the nodes that are dead or report an error have an alert, which names them and their card.\<close>

lemma alerts_exact:
  "a \<in> set (cluster_alerts data) \<longleftrightarrow>
     (\<exists>n \<in> set (cs_frontends data). (\<not> fe_alive n \<or> truthy (fe_err_msg n))
        \<and> a = alert_of (fe_id n) (fe_name n) (fe_ip n) (fe_err_msg n))
     \<or> (\<exists>n \<in> set (cs_backends data). (\<not> be_alive n \<or> truthy (be_err_msg n))
        \<and> a = alert_of (be_id n) (be_name n) (be_ip n) (be_err_msg n))"
  by (auto simp: cluster_alerts_def)

lemma card_atoms [simp]:
  "\<not> can_send (UtilBar p v) e" "\<not> can_send (StatusDot b) e" "m \<in> set (Sparkline vs) \<Longrightarrow> \<not> can_send m e"
  by (auto simp: UtilBar_def StatusDot_def Sparkline_def obj_get_Cons split: if_splits)

lemma MetricRow_sends [simp]: "\<not> can_send (MetricRow l p x v s) e"
  by (auto simp: MetricRow_def split: option.splits)

lemma detail_opt_sends [simp]: "m \<in> set (detail_opt l v) \<Longrightarrow> \<not> can_send m e"
  by (auto simp: detail_opt_def split: option.splits)

lemma card_header_sends [simp]: "can_send (card_header n i a k c b e') e \<longleftrightarrow> e = e'"
  by (auto simp: card_header_def Let_def)

lemma alerts_send:
  "m \<in> set (ClusterAlerts data f) \<Longrightarrow> can_send m e
     \<longleftrightarrow> cs_has_errors data \<and> (\<exists>g. f = Some g \<and> (\<exists>a \<in> set (cluster_alerts data). e = g (al_id a)))"
  by (auto simp: ClusterAlerts_def alert_row_def split: if_splits option.splits)

end
