(* ===== verification/Cluster_Views.thy ===== *)
theory Cluster_Views
  imports Cluster_Cards Dag_Store Query_Utils
begin

text \<open>
  The cluster monitor: \<open>components/tabs/ClusterTab.tsx\<close> and \<open>components/cluster/ClusterDrawer.tsx\<close>.
  Both fetch with one controller that aborts the previous request; an aborted request settles with an
  \<open>AbortError\<close>. Scrolling to a section is the browser's; what is highlighted is part of the state.
\<close>

section \<open>Order and history\<close>

definition dead_key :: "('a \<Rightarrow> bool) \<Rightarrow> ('a \<Rightarrow> string option) \<Rightarrow> 'a \<Rightarrow> rat" where
  "dead_key alive err n = (if \<not> alive n \<or> truthy (err n) then 0 else 1)"

definition dead_cmp :: "('a \<Rightarrow> bool) \<Rightarrow> ('a \<Rightarrow> string option) \<Rightarrow> 'a \<Rightarrow> 'a \<Rightarrow> rat" where
  "dead_cmp alive err a b = dead_key alive err a - dead_key alive err b"

definition deadFirst :: "('a \<Rightarrow> bool) \<Rightarrow> ('a \<Rightarrow> string option) \<Rightarrow> 'a list \<Rightarrow> 'a list" where
  "deadFirst alive err nodes = js_sort (dead_cmp alive err) nodes"

definition SPARK_MAX :: nat where "SPARK_MAX = 30"

definition push_spark :: "rat list jsobj \<Rightarrow> string \<times> rat option \<Rightarrow> rat list jsobj" where
  "push_spark m kv = (case kv of
      (k, None) \<Rightarrow> m
    | (k, Some v) \<Rightarrow> (let arr = nullish (obj_get m k) [] @ [v] in
        obj_set k (if length arr > SPARK_MAX then tl arr else arr) m))"

record sparks =
  sk_heap :: "rat list jsobj"
  sk_cpu :: "rat list jsobj"
  sk_mem :: "rat list jsobj"

definition no_sparks :: sparks where
  "no_sparks = \<lparr>sk_heap = [], sk_cpu = [], sk_mem = []\<rparr>"

definition setSparks :: "cluster_status \<Rightarrow> sparks \<Rightarrow> sparks" where
  "setSparks res p = \<lparr>sk_heap = foldl push_spark (sk_heap p) (map (\<lambda>n. (fe_name n, fe_jvm_heap_used_pct n)) (cs_frontends res)),
     sk_cpu = foldl push_spark (sk_cpu p) (map (\<lambda>n. (be_name n, be_cpu_used_pct n)) (cs_backends res)),
     sk_mem = foldl push_spark (sk_mem p) (map (\<lambda>n. (be_name n, be_mem_used_pct n)) (cs_backends res))\<rparr>"

definition total_cores :: "be_node list \<Rightarrow> int option" where
  "total_cores bs = (let n = sum_list (map (\<lambda>b. if be_alive b then nullish (be_cpu_cores b) 0 else 0) bs)
     in if n = 0 then None else Some n)"

section \<open>ClusterTab.tsx\<close>

record cluster_tab =
  ct_data :: "cluster_status option"
  ct_loading :: bool
  ct_error :: "string option"
  ct_requests :: "bool async_request list"
  ct_sparks :: sparks
  ct_highlight :: "string option"
  ct_timers :: nat
  ct_cluster :: cluster_state

datatype tab_event =
    TabRefresh
  | TabRetry
  | TabTick bool
  | TabReply nat "api_error + cluster_status"
  | TabJump string
  | TabToggle string
  | TabFocus focus_target
  | HighlightTimer

definition tab_fetch :: "bool \<Rightarrow> cluster_tab \<Rightarrow> cluster_tab" where
  "tab_fetch refresh s = s\<lparr>ct_requests := start_only refresh (ct_requests s)\<rparr>"

text \<open>The effect of a focus request: it waits for the data, highlights a node, and is done.\<close>

definition focus_effect :: "cluster_tab \<Rightarrow> cluster_tab" where
  "focus_effect s = (case (cl_focus (ct_cluster s), ct_data s) of
      (Some f, Some d) \<Rightarrow>
        (let s' = (case cf_target f of FocusSection _ \<Rightarrow> s
           | FocusNode i \<Rightarrow> s\<lparr>ct_highlight := Some i, ct_timers := ct_timers s + 1\<rparr>)
         in s'\<lparr>ct_cluster := clearFocus (ct_cluster s')\<rparr>)
    | _ \<Rightarrow> s)"

definition tab_success :: "cluster_status \<Rightarrow> cluster_tab \<Rightarrow> cluster_tab" where
  "tab_success res s = s\<lparr>ct_data := Some res, ct_error := None, ct_loading := False, ct_sparks := setSparks res (ct_sparks s)\<rparr>"

definition tab_failure :: "(api_error \<Rightarrow> string) \<Rightarrow> api_error \<Rightarrow> cluster_tab \<Rightarrow> cluster_tab" where
  "tab_failure host_msg err s = (if err = AbortError then s
     else s\<lparr>ct_error := Some (qe_message (fetch_error_of host_msg err)), ct_loading := False\<rparr>)"

definition tab_mount :: "cluster_state \<Rightarrow> cluster_tab" where
  "tab_mount c = focus_effect (tab_fetch False \<lparr>ct_data = None, ct_loading = True, ct_error = None, ct_requests = [],
     ct_sparks = no_sparks, ct_highlight = None, ct_timers = 0, ct_cluster = c\<rparr>)"

definition tab_reply :: "(api_error \<Rightarrow> string) \<Rightarrow> nat \<Rightarrow> api_error + cluster_status \<Rightarrow> cluster_tab \<Rightarrow> cluster_tab" where
  "tab_reply host_msg i r s = (if i < length (ct_requests s) then
     (let s1 = s\<lparr>ct_requests := remove_request i (ct_requests s)\<rparr> in
      if \<not> ar_alive (ct_requests s ! i) then tab_failure host_msg AbortError s1
      else case r of Inr res \<Rightarrow> focus_effect (tab_success res s1) | Inl err \<Rightarrow> tab_failure host_msg err s1)
     else s)"

fun tab_step :: "(api_error \<Rightarrow> string) \<Rightarrow> cluster_tab \<Rightarrow> tab_event \<Rightarrow> cluster_tab" where
  "tab_step host_msg s TabRefresh = (if ct_loading s then s else tab_fetch True s)"
| "tab_step host_msg s TabRetry = tab_fetch False s"
| "tab_step host_msg s (TabTick hidden) = (if hidden then s else tab_fetch True s)"
| "tab_step host_msg s (TabReply i r) = tab_reply host_msg i r s"
| "tab_step host_msg s (TabJump t) = focus_effect (s\<lparr>ct_cluster := requestFocus (FocusSection t) (ct_cluster s)\<rparr>)"
| "tab_step host_msg s (TabToggle i) = s\<lparr>ct_cluster := toggleNodeExpansion i (ct_cluster s)\<rparr>"
| "tab_step host_msg s (TabFocus t) = focus_effect (s\<lparr>ct_cluster := requestFocus t (ct_cluster s)\<rparr>)"
| "tab_step host_msg s HighlightTimer =
     (if ct_timers s = 0 then s else s\<lparr>ct_timers := ct_timers s - 1, ct_highlight := None\<rparr>)"

definition cardWrap :: "cluster_tab \<Rightarrow> string \<Rightarrow> tab_event node \<Rightarrow> tab_event node" where
  "cardWrap s i child = El ''div'' ((''data-node-id'', i)
     # show_if (ct_highlight s = Some i) [(''outline'', palette ''accent'')]) [] [child]"

definition backend_title :: "cluster_metrics \<Rightarrow> string" where
  "backend_title m = (if cm_be_total m > 0 \<and> cm_cn_total m > 0 then ''Backend & Compute Nodes''
     else if cm_cn_total m > 0 then ''Compute Nodes'' else ''Backend Nodes'')"

definition tab_now :: "(string \<Rightarrow> int option) \<Rightarrow> int \<Rightarrow> cluster_tab \<Rightarrow> int" where
  "tab_now host_date browser s =
     skewedNow browser (clockSkewMs host_date browser (Option.bind (ct_data s) cs_server_now))"

definition fe_cards ::
  "(string \<Rightarrow> int option) \<Rightarrow> (int \<Rightarrow> string) \<Rightarrow> int \<Rightarrow> cluster_tab \<Rightarrow> cluster_status \<Rightarrow> tab_event node list" where
  "fe_cards host_date locale_int now s d = map (\<lambda>n. cardWrap s (fe_id n)
     (FENodeCard host_date locale_int n (fe_id n \<in> set (cl_expandedNodes (ct_cluster s))) (TabToggle (fe_id n)) now
        (obj_get (sk_heap (ct_sparks s)) (fe_name n)))) (deadFirst fe_alive fe_err_msg (cs_frontends d))"

definition be_cards ::
  "(string \<Rightarrow> int option) \<Rightarrow> (int \<Rightarrow> string) \<Rightarrow> int \<Rightarrow> cluster_tab \<Rightarrow> cluster_status \<Rightarrow> tab_event node list" where
  "be_cards host_date locale_int now s d = map (\<lambda>n. cardWrap s (be_id n)
     (BENodeCard host_date locale_int n (be_id n \<in> set (cl_expandedNodes (ct_cluster s))) (TabToggle (be_id n)) now
        (obj_get (sk_cpu (ct_sparks s)) (be_name n)) (obj_get (sk_mem (ct_sparks s)) (be_name n))))
     (deadFirst be_alive be_err_msg (cs_backends d))"

definition cards_or_none :: "'e node list \<Rightarrow> 'e node" where
  "cards_or_none cs = box (if cs = [] then [Txt ''No nodes reported''] else cs)"

text \<open>The panel of the queries is a component of its own, given the number of cores.\<close>

definition queries_slot :: "int option \<Rightarrow> 'e node" where
  "queries_slot cores = El ''QueriesPanel'' (case cores of None \<Rightarrow> [] | Some n \<Rightarrow> [(''totalCores'', int_str n)]) [] []"

definition ClusterTab ::
  "(string \<Rightarrow> int option) \<Rightarrow> (int \<Rightarrow> string) \<Rightarrow> int \<Rightarrow> cluster_tab \<Rightarrow> tab_event node" where
  "ClusterTab host_date locale_int browser s = (let now = tab_now host_date browser s in box (
     [Txt ''Cluster Monitor'', Txt ''auto-refresh 30s'',
      El ''button'' ((''data-testid'', ''cluster-tab-refresh-btn'') # disabled_if (ct_loading s)) [TabRefresh] [InlineIcon ''refresh'']]
     @ show_if (ct_loading s) [Loader]
     @ show_if (\<not> ct_loading s \<and> truthy (ct_error s)) [box [Txt ''Failed to load cluster status.'', click_text TabRetry ''Retry'']]
     @ (case ct_data s of None \<Rightarrow> [] | Some d \<Rightarrow> show_if (\<not> ct_loading s) (
         ClusterBanners d @ [ClusterKpiBand locale_int d (Some TabJump)] @ ClusterAlerts d None
         @ [SectionHeader ''Frontend Nodes'' (length (cs_frontends d)), cards_or_none (fe_cards host_date locale_int now s d),
            SectionHeader (backend_title (cs_metrics d)) (length (cs_backends d)), cards_or_none (be_cards host_date locale_int now s d),
            queries_slot (total_cores (cs_backends d))]))))"

section \<open>ClusterDrawer.tsx\<close>

record drawer =
  dw_data :: "cluster_status option"
  dw_queries :: "running_query list option"
  dw_totalCores :: "int option"
  dw_loading :: bool
  dw_error :: "string option"
  dw_requests :: "bool async_request list"
  dw_qRequests :: "bool async_request list"
  dw_cluster :: cluster_state
  dw_store :: dag_state

datatype drawer_event =
    ToggleDrawer
  | CloseDrawer
  | EscapeDrawer
  | DrawerRefresh
  | DrawerRetry
  | DrawerTick bool
  | StatusReply nat "api_error + cluster_status"
  | QueriesReply nat "api_error + queries_response"
  | JumpTo focus_target
  | OpenClusterTab

definition drawer_fetch :: "bool \<Rightarrow> bool \<Rightarrow> drawer \<Rightarrow> drawer" where
  "drawer_fetch refresh withSpinner s =
     (let s1 = (if withSpinner then s\<lparr>dw_loading := True, dw_error := None\<rparr> else s)
      in s1\<lparr>dw_requests := start_only refresh (dw_requests s), dw_qRequests := start_only refresh (dw_qRequests s)\<rparr>)"

text \<open>The effect of a change of \<open>isOpen\<close>: the cleanup aborts both requests, opening fetches.\<close>

definition open_effect :: "bool \<Rightarrow> drawer \<Rightarrow> drawer" where
  "open_effect was s = (if was = cl_isOpen (dw_cluster s) then s
     else let s1 = (if was then s\<lparr>dw_requests := kill_requests (dw_requests s), dw_qRequests := kill_requests (dw_qRequests s)\<rparr> else s)
       in if cl_isOpen (dw_cluster s) then drawer_fetch False True s1 else s1)"

definition set_cluster :: "(cluster_state \<Rightarrow> cluster_state) \<Rightarrow> drawer \<Rightarrow> drawer" where
  "set_cluster f s = open_effect (cl_isOpen (dw_cluster s)) (s\<lparr>dw_cluster := f (dw_cluster s)\<rparr>)"

definition drawer_success :: "cluster_status \<Rightarrow> drawer \<Rightarrow> drawer" where
  "drawer_success res s = s\<lparr>dw_data := Some res, dw_totalCores := total_cores (cs_backends res), dw_loading := False\<rparr>"

definition drawer_failure :: "(api_error \<Rightarrow> string) \<Rightarrow> api_error \<Rightarrow> drawer \<Rightarrow> drawer" where
  "drawer_failure host_msg err s = (if err = AbortError then s
     else s\<lparr>dw_error := Some (qe_message (fetch_error_of host_msg err)), dw_loading := False\<rparr>)"

definition status_reply :: "(api_error \<Rightarrow> string) \<Rightarrow> nat \<Rightarrow> api_error + cluster_status \<Rightarrow> drawer \<Rightarrow> drawer" where
  "status_reply host_msg i r s = (if i < length (dw_requests s) then
     (let s1 = s\<lparr>dw_requests := remove_request i (dw_requests s)\<rparr> in
      if \<not> ar_alive (dw_requests s ! i) then drawer_failure host_msg AbortError s1
      else case r of Inr res \<Rightarrow> drawer_success res s1 | Inl err \<Rightarrow> drawer_failure host_msg err s1)
     else s)"

text \<open>Any failure of the preview hides it, an abort too.\<close>

definition queries_reply :: "nat \<Rightarrow> api_error + queries_response \<Rightarrow> drawer \<Rightarrow> drawer" where
  "queries_reply i r s = (if i < length (dw_qRequests s) then
     s\<lparr>dw_qRequests := remove_request i (dw_qRequests s),
       dw_queries := (if \<not> ar_alive (dw_qRequests s ! i) then None
         else case r of Inr res \<Rightarrow> Some (qr_queries res) | Inl _ \<Rightarrow> None)\<rparr>
     else s)"

definition jumpTo :: "focus_target \<Rightarrow> drawer \<Rightarrow> drawer" where
  "jumpTo f s = set_cluster (closeDrawer \<circ> requestFocus f) (s\<lparr>dw_store := fst (setActiveTab ''cluster'' (dw_store s))\<rparr>)"

fun drawer_step :: "(api_error \<Rightarrow> string) \<Rightarrow> drawer \<Rightarrow> drawer_event \<Rightarrow> drawer" where
  "drawer_step host_msg s ToggleDrawer = set_cluster toggleDrawer s"
| "drawer_step host_msg s CloseDrawer = set_cluster closeDrawer s"
| "drawer_step host_msg s EscapeDrawer = (if cl_isOpen (dw_cluster s) then set_cluster closeDrawer s else s)"
| "drawer_step host_msg s DrawerRefresh = (if dw_loading s then s else drawer_fetch True True s)"
| "drawer_step host_msg s DrawerRetry = drawer_fetch False True s"
| "drawer_step host_msg s (DrawerTick hidden) =
     (if cl_isOpen (dw_cluster s) \<and> \<not> hidden then drawer_fetch True False s else s)"
| "drawer_step host_msg s (StatusReply i r) = status_reply host_msg i r s"
| "drawer_step host_msg s (QueriesReply i r) = queries_reply i r s"
| "drawer_step host_msg s (JumpTo f) = jumpTo f s"
| "drawer_step host_msg s OpenClusterTab =
     set_cluster closeDrawer (s\<lparr>dw_store := fst (setActiveTab ''cluster'' (dw_store s))\<rparr>)"

definition drawer_mount :: "cluster_state \<Rightarrow> dag_state \<Rightarrow> drawer" where
  "drawer_mount c st = open_effect False \<lparr>dw_data = None, dw_queries = None, dw_totalCores = None, dw_loading = False,
     dw_error = None, dw_requests = [], dw_qRequests = [], dw_cluster = c, dw_store = st\<rparr>"

definition PREVIEW_COUNT :: nat where "PREVIEW_COUNT = 3"

definition exec_cmp :: "running_query \<Rightarrow> running_query \<Rightarrow> rat" where
  "exec_cmp a b = nullish (rq_exec_time_ms b) 0 - nullish (rq_exec_time_ms a) 0"

definition topQueries :: "running_query list option \<Rightarrow> running_query list" where
  "topQueries qs = take PREVIEW_COUNT (js_sort exec_cmp (filter (\<lambda>q. rq_exec_time_ms q \<noteq> None) (nullish qs [])))"

definition preview_row :: "int option \<Rightarrow> running_query \<Rightarrow> drawer_event node" where
  "preview_row cores q = El ''div'' [] [JumpTo (FocusSection ''queries'')] [Txt (rq_user q), Txt (nullish (rq_sql q) em_dash),
     Txt (nullish (rq_exec_time_display q) em_dash), Txt (fmtCpuShare (rq_cpu_avg_cores q) (map_option of_int cores))]"

definition ClusterDrawer :: "(int \<Rightarrow> string) \<Rightarrow> drawer \<Rightarrow> drawer_event node" where
  "ClusterDrawer locale_int s = box (
     show_if (cl_isOpen (dw_cluster s)) [El ''div'' [(''class'', ''backdrop'')] [CloseDrawer] []]
     @ [Txt ''Cluster Status'',
      El ''button'' ((''title'', ''Refresh'') # disabled_if (dw_loading s)) [DrawerRefresh] [InlineIcon ''refresh''],
      El ''button'' [(''title'', ''Close'')] [CloseDrawer] [InlineIcon ''close'']]
     @ show_if (dw_loading s) [Loader]
     @ show_if (\<not> dw_loading s \<and> truthy (dw_error s)) [box [Txt ''Failed to load cluster status.'', click_text DrawerRetry ''Retry'']]
     @ (case dw_data s of None \<Rightarrow> [] | Some d \<Rightarrow> show_if (\<not> dw_loading s) (
         ClusterBanners d
         @ [ClusterKpiBand locale_int d (Some (\<lambda>t. JumpTo (FocusSection t)))]
         @ ClusterAlerts d (Some (\<lambda>i. JumpTo (FocusNode i)))
         @ [El ''button'' [(''data-testid'', ''drawer-queries-preview'')] [JumpTo (FocusSection ''queries'')]
              ([Txt ''Running Queries''] @ (case dw_queries s of None \<Rightarrow> [] | Some qs \<Rightarrow> [Txt (''('' @ nat_str (length qs) @ '')'')])
               @ [Txt (''View all '' @ utf8 8594)])]
         @ (case dw_queries s of None \<Rightarrow> [Txt ''Requires cluster_admin'']
            | Some qs \<Rightarrow> if topQueries (Some qs) = [] then [Txt ''No queries running'']
                else map (preview_row (dw_totalCores s)) (topQueries (Some qs)))
         @ [El ''button'' [(''data-testid'', ''open-cluster-tab-btn'')] [OpenClusterTab]
              [Txt (''Open Cluster Monitor '' @ em_dash @ '' nodes & running queries '' @ utf8 8594)]])))"

section \<open>Lemmas\<close>

interpretation dead_order: keyed_comparator "dead_cmp alive err" "dead_key alive err" for alive err
  by unfold_locales (simp add: dead_cmp_def)

text \<open>A sort by a key of two values is a stable partition.\<close>

lemma two_value_sort:
  fixes key :: "'a \<Rightarrow> rat"
  assumes "\<And>x. key x \<in> {0, 1}"
  shows "sort_key key xs = filter (\<lambda>x. key x = 0) xs @ filter (\<lambda>x. key x \<noteq> 0) xs"
proof (induction xs)
  case (Cons x xs)
  have front: "insort_key key x (ys @ zs) = x # ys @ zs" if "key x = 0" "\<forall>z \<in> set (ys @ zs). 0 \<le> key z" for ys zs
    using that by (cases "ys @ zs") auto
  have behind: "insort_key key x (ys @ zs) = ys @ x # zs" if "key x = 1" "\<forall>y \<in> set ys. key y = 0" "\<forall>z \<in> set zs. key z = 1" for ys zs
    using that by (induction ys) (cases zs, auto)
  have nonneg: "0 \<le> key z" for z using assms [of z] by auto
  have one: "key z = 1" if "key z \<noteq> 0" for z using assms [of z] that by blast
  let ?dead = "filter (\<lambda>x. key x = 0) xs" and ?alive = "filter (\<lambda>x. key x \<noteq> 0) xs"
  have sorted: "sort_key key (x # xs) = insort_key key x (?dead @ ?alive)" by (simp add: Cons.IH)
  show ?case
  proof (cases "key x = 0")
    case True
    have "insort_key key x (?dead @ ?alive) = x # ?dead @ ?alive"
      by (rule front [OF True]) (use nonneg in blast)
    then show ?thesis unfolding sorted using True by simp
  next
    case False
    have "\<forall>y \<in> set ?dead. key y = 0" by simp
    moreover have "\<forall>z \<in> set ?alive. key z = 1" using one by (simp only: set_filter mem_Collect_eq) blast
    ultimately have "insort_key key x (?dead @ ?alive) = ?dead @ x # ?alive" by (rule behind [OF one [OF False]])
    then show ?thesis unfolding sorted using False by simp
  qed
qed simp

lemma deadFirst_partition:
  "deadFirst alive err ns = filter (\<lambda>n. \<not> alive n \<or> truthy (err n)) ns @ filter (\<lambda>n. alive n \<and> \<not> truthy (err n)) ns"
proof -
  have "filter (\<lambda>n. dead_key alive err n = 0) ns = filter (\<lambda>n. \<not> alive n \<or> truthy (err n)) ns"
    by (rule filter_cong [OF refl]) (simp add: dead_key_def)
  moreover have "filter (\<lambda>n. dead_key alive err n \<noteq> 0) ns = filter (\<lambda>n. alive n \<and> \<not> truthy (err n)) ns"
    by (rule filter_cong [OF refl]) (auto simp: dead_key_def)
  moreover have "sort_key (dead_key alive err) ns
      = filter (\<lambda>n. dead_key alive err n = 0) ns @ filter (\<lambda>n. dead_key alive err n \<noteq> 0) ns"
    by (rule two_value_sort) (simp add: dead_key_def)
  ultimately show ?thesis by (simp add: deadFirst_def dead_order.js_sort_eq)
qed

text \<open>The last samples of a list.\<close>

definition latest :: "nat \<Rightarrow> 'a list \<Rightarrow> 'a list" where
  "latest n xs = rev (take n (rev xs))"

lemma latest_latest: "latest n (latest n xs @ ys) = latest n (xs @ ys)"
  by (simp add: latest_def take_append min_def)

lemma length_latest [simp]: "length (latest n xs) \<le> n"
  by (simp add: latest_def)

lemma latest_short: "length xs \<le> n \<Longrightarrow> latest n xs = xs"
  by (simp add: latest_def)

lemma latest_Suc: "length xs = Suc n \<Longrightarrow> latest n xs = tl xs"
  by (simp add: latest_def rev_take drop_Suc)

definition named :: "string \<Rightarrow> (string \<times> rat option) list \<Rightarrow> rat list" where
  "named k kvs = List.map_filter (\<lambda>(n, v). if n = k then v else None) kvs"

definition history_of :: "rat list jsobj \<Rightarrow> string \<Rightarrow> rat list" where
  "history_of m k = nullish (obj_get m k) []"

lemma push_history:
  assumes "\<forall>k. length (history_of m k) \<le> SPARK_MAX"
  shows "history_of (push_spark m (n, v)) k = latest SPARK_MAX (history_of m k @ named k [(n, v)])"
proof (cases v)
  case None
  then show ?thesis using assms latest_short [of "history_of m k" SPARK_MAX]
    by (simp add: push_spark_def named_def List.map_filter_def)
next
  case (Some x)
  show ?thesis
  proof (cases "n = k")
    case False
    then show ?thesis using assms latest_short [of "history_of m k" SPARK_MAX] Some
      by (simp add: push_spark_def named_def List.map_filter_def Let_def history_of_def)
  next
    case True
    let ?arr = "history_of m k @ [x]"
    have "history_of (push_spark m (n, v)) k = (if length ?arr > SPARK_MAX then tl ?arr else ?arr)"
      using True Some by (simp add: push_spark_def Let_def history_of_def nullish_def)
    also have "\<dots> = latest SPARK_MAX ?arr"
    proof (cases "length ?arr > SPARK_MAX")
      case True
      then have "length ?arr = Suc SPARK_MAX" using assms by (simp add: le_antisym)
      then show ?thesis using latest_Suc [of ?arr SPARK_MAX] by (simp only: if_P True)
    next
      case False
      then show ?thesis using latest_short [of ?arr SPARK_MAX] by simp
    qed
    finally show ?thesis using True Some by (simp add: named_def List.map_filter_def)
  qed
qed

lemma named_Cons: "named k (kv # kvs) = named k [kv] @ named k kvs"
  by (auto simp: named_def List.map_filter_def)

lemma fold_history:
  assumes "\<forall>k. length (history_of m k) \<le> SPARK_MAX"
  shows "history_of (foldl push_spark m kvs) k = latest SPARK_MAX (history_of m k @ named k kvs)"
  using assms
proof (induction kvs arbitrary: m)
  case Nil
  then show ?case using latest_short [of "history_of m k" SPARK_MAX] by (simp add: named_def List.map_filter_def)
next
  case (Cons kv kvs)
  obtain n v where kv: "kv = (n, v)" by (cases kv)
  have "\<forall>j. length (history_of (push_spark m kv) j) \<le> SPARK_MAX"
    unfolding kv using push_history [OF Cons.prems] by (metis length_latest)
  from Cons.IH [OF this] have "history_of (foldl push_spark m (kv # kvs)) k
      = latest SPARK_MAX (history_of (push_spark m kv) k @ named k kvs)" by simp
  also have "history_of (push_spark m kv) k = latest SPARK_MAX (history_of m k @ named k [kv])"
    unfolding kv by (rule push_history [OF Cons.prems])
  finally show ?case using named_Cons [of k kv kvs] by (simp add: latest_latest)
qed

text \<open>What the answers reported for a node.\<close>

definition heap_rows :: "cluster_status \<Rightarrow> (string \<times> rat option) list" where
  "heap_rows r = map (\<lambda>n. (fe_name n, fe_jvm_heap_used_pct n)) (cs_frontends r)"

definition cpu_rows :: "cluster_status \<Rightarrow> (string \<times> rat option) list" where
  "cpu_rows r = map (\<lambda>n. (be_name n, be_cpu_used_pct n)) (cs_backends r)"

definition mem_rows :: "cluster_status \<Rightarrow> (string \<times> rat option) list" where
  "mem_rows r = map (\<lambda>n. (be_name n, be_mem_used_pct n)) (cs_backends r)"

definition reported :: "(cluster_status \<Rightarrow> (string \<times> rat option) list) \<Rightarrow> cluster_status list \<Rightarrow> string \<Rightarrow> rat list" where
  "reported rows rs k = concat (map (\<lambda>r. named k (rows r)) rs)"

definition sparks_ok :: "sparks \<Rightarrow> cluster_status list \<Rightarrow> bool" where
  "sparks_ok p rs \<longleftrightarrow> (\<forall>k. history_of (sk_heap p) k = latest SPARK_MAX (reported heap_rows rs k)
     \<and> history_of (sk_cpu p) k = latest SPARK_MAX (reported cpu_rows rs k)
     \<and> history_of (sk_mem p) k = latest SPARK_MAX (reported mem_rows rs k))"

lemma sparks_ok_init: "sparks_ok no_sparks []"
  by (simp add: sparks_ok_def no_sparks_def history_of_def reported_def latest_def nullish_def)

lemma fold_reported:
  assumes "\<forall>k. history_of m k = latest SPARK_MAX (reported rows rs k)"
  shows "history_of (foldl push_spark m (rows r)) k = latest SPARK_MAX (reported rows (rs @ [r]) k)"
proof -
  have "\<forall>k. length (history_of m k) \<le> SPARK_MAX" using assms length_latest by metis
  from fold_history [OF this, of "rows r" k] show ?thesis
    using assms by (simp add: reported_def latest_latest)
qed

lemma sparks_ok_set:
  assumes "sparks_ok p rs"
  shows "sparks_ok (setSparks r p) (rs @ [r])"
proof -
  have "setSparks r p = \<lparr>sk_heap = foldl push_spark (sk_heap p) (heap_rows r),
      sk_cpu = foldl push_spark (sk_cpu p) (cpu_rows r), sk_mem = foldl push_spark (sk_mem p) (mem_rows r)\<rparr>"
    by (simp add: setSparks_def heap_rows_def cpu_rows_def mem_rows_def)
  then show ?thesis using assms unfolding sparks_ok_def by (simp add: fold_reported)
qed

text \<open>
  The answers that a run accepts, in order. The requests are numbered as they start, \<open>out\<close> are the numbers of
  those under way and \<open>n\<close> is the next number: a reply settles one of them, and its answer is accepted when it
  answers the newest request of all.
\<close>

fun tab_starts :: "cluster_tab \<Rightarrow> tab_event \<Rightarrow> bool" where
  "tab_starts s TabRefresh = (\<not> ct_loading s)"
| "tab_starts s TabRetry = True"
| "tab_starts s (TabTick hidden) = (\<not> hidden)"
| "tab_starts s _ = False"

fun tab_accepted ::
  "(api_error \<Rightarrow> string) \<Rightarrow> cluster_tab \<Rightarrow> nat list \<Rightarrow> nat \<Rightarrow> tab_event list \<Rightarrow> cluster_status list" where
  "tab_accepted host_msg s out n [] = []"
| "tab_accepted host_msg s out n (e # es) = (let s' = tab_step host_msg s e in
     case e of
       TabReply i r \<Rightarrow> (if i < length out
         then (case r of Inr res \<Rightarrow> if Suc (out ! i) = n then [res] else [] | Inl err \<Rightarrow> [])
           @ tab_accepted host_msg s' (take i out @ drop (Suc i) out) n es
         else tab_accepted host_msg s' out n es)
     | _ \<Rightarrow> (if tab_starts s e then tab_accepted host_msg s' (out @ [n]) (Suc n) es
         else tab_accepted host_msg s' out n es))"

text \<open>Exactly the newest request is alive.\<close>

definition newest :: "cluster_tab \<Rightarrow> nat list \<Rightarrow> nat \<Rightarrow> bool" where
  "newest s out n \<longleftrightarrow> map ar_alive (ct_requests s) = map (\<lambda>j. Suc j = n) out \<and> (\<forall>j \<in> set out. j < n)"

lemma focus_frame [simp]:
  "ct_sparks (focus_effect s) = ct_sparks s" "ct_data (focus_effect s) = ct_data s"
  "ct_requests (focus_effect s) = ct_requests s"
  by (simp_all add: focus_effect_def Let_def split: option.split focus_target.split)

lemma tab_frame [simp]:
  "ct_sparks (tab_fetch b s) = ct_sparks s" "ct_data (tab_fetch b s) = ct_data s"
  "ct_sparks (tab_failure host_msg e s) = ct_sparks s" "ct_data (tab_failure host_msg e s) = ct_data s"
  "ct_requests (tab_failure host_msg e s) = ct_requests s" "ct_requests (tab_success res s) = ct_requests s"
  by (simp_all add: tab_fetch_def tab_failure_def tab_success_def)

lemma newest_frame: "ct_requests s' = ct_requests s \<Longrightarrow> newest s' out n = newest s out n"
  by (simp add: newest_def)

lemma newest_nth:
  assumes "newest s out n"
  shows "length (ct_requests s) = length out" and "i < length out \<Longrightarrow> ar_alive (ct_requests s ! i) \<longleftrightarrow> Suc (out ! i) = n"
proof -
  from assms have eq: "map ar_alive (ct_requests s) = map (\<lambda>j. Suc j = n) out" by (simp add: newest_def)
  then show len: "length (ct_requests s) = length out" by (rule map_eq_imp_length_eq)
  show "ar_alive (ct_requests s ! i) \<longleftrightarrow> Suc (out ! i) = n" if "i < length out"
    using arg_cong [OF eq, of "\<lambda>xs. xs ! i"] that len by simp
qed

lemma newest_fetch:
  assumes "newest s out n"
  shows "newest (tab_fetch b s) (out @ [n]) (Suc n)"
proof -
  have "map (\<lambda>j. Suc j = Suc n) out = map (\<lambda>_. False) (ct_requests s)"
    using assms newest_nth(1) [OF assms] by (intro nth_equalityI) (auto simp: newest_def)
  with assms show ?thesis
    by (auto simp: newest_def tab_fetch_def start_only_def kill_requests_def comp_def less_Suc_eq)
qed

lemma newest_reply:
  assumes "newest s out n" and "i < length out"
  shows "newest (tab_reply host_msg i r s) (take i out @ drop (Suc i) out) n"
proof -
  have "ct_requests (tab_reply host_msg i r s) = remove_request i (ct_requests s)"
    using assms by (simp add: tab_reply_def Let_def newest_nth(1) [OF assms(1)] split: sum.split)
  moreover have "map ar_alive (remove_request i (ct_requests s)) = map (\<lambda>j. Suc j = n) (take i out @ drop (Suc i) out)"
    using assms(1) by (simp add: newest_def remove_request_def take_map [symmetric] drop_map [symmetric])
  ultimately show ?thesis using assms(1) by (auto simp: newest_def dest: in_set_takeD in_set_dropD)
qed

text \<open>The data are the last of the answers and the sparklines the history of all of them.\<close>

definition tab_ok :: "cluster_status list \<Rightarrow> cluster_tab \<Rightarrow> bool" where
  "tab_ok rs s \<longleftrightarrow> sparks_ok (ct_sparks s) rs \<and> ct_data s = (if rs = [] then None else Some (last rs))"

lemma tab_ok_frame: "ct_sparks s' = ct_sparks s \<Longrightarrow> ct_data s' = ct_data s \<Longrightarrow> tab_ok rs s' = tab_ok rs s"
  by (simp add: tab_ok_def)

lemma tab_ok_success: "tab_ok rs s \<Longrightarrow> tab_ok (rs @ [r]) (tab_success r s)"
  by (simp add: tab_ok_def tab_success_def sparks_ok_set)

lemma tab_ok_reply:
  assumes ok: "tab_ok rs s" and "newest s out n" and "i < length out"
  shows "tab_ok (rs @ (case r of Inr res \<Rightarrow> if Suc (out ! i) = n then [res] else [] | Inl err \<Rightarrow> []))
    (tab_reply host_msg i r s)"
proof -
  define t where "t = s\<lparr>ct_requests := remove_request i (ct_requests s)\<rparr>"
  have t: "tab_ok rs t" using ok by (simp add: tab_ok_def t_def)
  have "tab_reply host_msg i r s = (if Suc (out ! i) \<noteq> n then tab_failure host_msg AbortError t
      else case r of Inr res \<Rightarrow> focus_effect (tab_success res t) | Inl err \<Rightarrow> tab_failure host_msg err t)"
    using newest_nth [OF assms(2)] assms(3) by (cases r) (simp_all add: tab_reply_def Let_def t_def)
  moreover have "tab_ok rs (tab_failure host_msg err t)" for err using t by (simp add: tab_ok_def)
  moreover have "tab_ok (rs @ [res]) (focus_effect (tab_success res t))" for res
    using tab_ok_success [OF t, of res] by (simp add: tab_ok_def)
  ultimately show ?thesis by (cases r) simp_all
qed

lemma tab_ok_run:
  "tab_ok rs s \<Longrightarrow> newest s out n \<Longrightarrow>
    tab_ok (rs @ tab_accepted host_msg s out n es) (foldl (tab_step host_msg) s es)"
proof (induction es arbitrary: rs s out n)
  case (Cons e es)
  let ?s = "tab_step host_msg s e"
  have fetched: "tab_ok (rs @ tab_accepted host_msg (tab_fetch b s) (out @ [n]) (Suc n) es)
      (foldl (tab_step host_msg) (tab_fetch b s) es)" for b
    by (rule Cons.IH [OF _ newest_fetch [OF Cons.prems(2)]]) (use Cons.prems(1) in \<open>simp add: tab_ok_def\<close>)
  have stay: "tab_ok (rs @ tab_accepted host_msg t out n es) (foldl (tab_step host_msg) t es)"
    if "ct_sparks t = ct_sparks s" "ct_data t = ct_data s" "ct_requests t = ct_requests s" for t
    using Cons.IH [of rs t out n] Cons.prems tab_ok_frame [OF that(1,2), of rs] newest_frame [OF that(3), of out n]
    by blast
  show ?case
  proof (cases e)
    case (TabReply i r)
    show ?thesis
    proof (cases "i < length out")
      case True
      have "newest ?s (take i out @ drop (Suc i) out) n" using newest_reply [OF Cons.prems(2) True] TabReply by simp
      moreover have "tab_ok (rs @ (case r of Inr res \<Rightarrow> if Suc (out ! i) = n then [res] else [] | Inl err \<Rightarrow> [])) ?s"
        using tab_ok_reply [OF Cons.prems True] TabReply by simp
      ultimately have "tab_ok ((rs @ (case r of Inr res \<Rightarrow> if Suc (out ! i) = n then [res] else [] | Inl err \<Rightarrow> []))
          @ tab_accepted host_msg ?s (take i out @ drop (Suc i) out) n es) (foldl (tab_step host_msg) ?s es)"
        by (rule Cons.IH [rotated])
      with True show ?thesis by (simp add: TabReply Let_def)
    next
      case False
      then have "?s = s" using TabReply newest_nth(1) [OF Cons.prems(2)] by (simp add: tab_reply_def)
      then show ?thesis using stay [of s] False TabReply by (simp add: Let_def)
    qed
  next
    case TabRefresh
    then show ?thesis using fetched [of True] stay [of s] by (simp add: Let_def)
  next
    case TabRetry
    then show ?thesis using fetched [of False] by (simp add: Let_def)
  next
    case (TabTick h)
    then show ?thesis using fetched [of True] stay [of s] by (simp add: Let_def)
  next
    case (TabJump t)
    then show ?thesis using stay [of ?s] by (simp add: Let_def)
  next
    case (TabToggle i)
    then show ?thesis using stay [of ?s] by (simp add: Let_def)
  next
    case (TabFocus t)
    then show ?thesis using stay [of ?s] by (simp add: Let_def)
  next
    case HighlightTimer
    then show ?thesis using stay [of ?s] stay [of s] by (simp add: Let_def)
  qed
qed simp

lemma tab_ok_mount: "tab_ok [] (tab_mount c)" "newest (tab_mount c) [0] 1"
  using sparks_ok_init by (simp_all add: tab_ok_def newest_def tab_mount_def tab_fetch_def start_only_def kill_requests_def)

section \<open>Properties\<close>

text \<open>
  C16. The sparklines of the cluster tab. A run accepts the answers to the newest request of their moment, and no
  others: in every run, with every interleaving of refreshes, timer ticks, retries, late answers and failures,
  the data shown is the last answer accepted, and the history of each node is exactly the last thirty samples
  that the accepted answers, each counted once, reported for it, oldest first.
\<close>

theorem sparks_are_latest:
  "case foldl (tab_step host_msg) (tab_mount c) es of s \<Rightarrow>
     (case tab_accepted host_msg (tab_mount c) [0] 1 es of rs \<Rightarrow>
       ct_data s = (if rs = [] then None else Some (last rs))
       \<and> (\<forall>k. nullish (obj_get (sk_heap (ct_sparks s)) k) [] = latest 30 (reported heap_rows rs k)
            \<and> nullish (obj_get (sk_cpu (ct_sparks s)) k) [] = latest 30 (reported cpu_rows rs k)
            \<and> nullish (obj_get (sk_mem (ct_sparks s)) k) [] = latest 30 (reported mem_rows rs k)))"
  using tab_ok_run [OF tab_ok_mount, of host_msg c es]
  by (simp add: tab_ok_def sparks_ok_def history_of_def SPARK_MAX_def)

text \<open>
  The drawer keeps the error of a failed poll: later polls succeed without clearing it, so the message that the
  status could not be loaded stands above the fresh data.
\<close>

lemma drawer_error_stays:
  "dw_error (drawer_success res s) = dw_error s" "dw_error (drawer_fetch b False s) = dw_error s"
  by (simp_all add: drawer_success_def drawer_fetch_def Let_def)

lemma tab_error_cleared: "ct_error (tab_success res s) = None"
  by (simp add: tab_success_def)

text \<open>
  A poll that overtakes a slow request aborts it, and the abort empties the preview although the server has
  allowed it: it then says that the role is missing.
\<close>

lemma aborted_preview:
  assumes "dw_qRequests s = [\<lparr>ar_deps = b, ar_alive = True\<rparr>]" and "cl_isOpen (dw_cluster s)"
  shows "dw_queries (foldl (drawer_step host_msg) s [DrawerTick False, QueriesReply 0 (Inl AbortError)]) = None"
  using assms by (simp add: drawer_fetch_def start_only_def kill_requests_def queries_reply_def Let_def)

text \<open>The timer of one highlight ends the next one early.\<close>

lemma highlight_cut_short:
  assumes "ct_data s \<noteq> None"
  shows "ct_highlight (foldl (tab_step host_msg) s [TabFocus (FocusNode a), TabFocus (FocusNode b), HighlightTimer]) = None"
  using assms by (auto simp: focus_effect_def requestFocus_def clearFocus_def)

text \<open>A jump closes the drawer, aborts its requests, opens the tab and leaves the target for it.\<close>

lemma jump_hands_over:
  assumes "cl_isOpen (dw_cluster s)"
  shows "case jumpTo f s of s' \<Rightarrow> \<not> cl_isOpen (dw_cluster s') \<and> da_activeTab (dw_store s') = ''cluster''
    \<and> map_option cf_target (cl_focus (dw_cluster s')) = Some f \<and> live (dw_requests s') = [] \<and> live (dw_qRequests s') = []"
  using assms by (simp add: jumpTo_def set_cluster_def open_effect_def Let_def closeDrawer_def requestFocus_def setActiveTab_def)

text \<open>The preview shows the three longest of the queries whose time is known, longest first.\<close>

interpretation exec_order: keyed_comparator exec_cmp "\<lambda>q. - nullish (rq_exec_time_ms q) 0"
  by unfold_locales (simp add: exec_cmp_def)

lemma preview_longest:
  assumes "q \<in> set (nullish qs [])" and "rq_exec_time_ms q = Some t" and "q \<notin> set (topQueries qs)" and "p \<in> set (topQueries qs)"
  shows "t \<le> nullish (rq_exec_time_ms p) 0"
proof -
  define xs where "xs = js_sort exec_cmp (filter (\<lambda>q. rq_exec_time_ms q \<noteq> None) (nullish qs []))"
  have "q \<in> set xs" using assms(1,2) by (simp add: xs_def set_js_sort)
  then have "q \<in> set (take PREVIEW_COUNT xs) \<union> set (drop PREVIEW_COUNT xs)"
    by (metis append_take_drop_id set_append)
  then have "q \<in> set (drop PREVIEW_COUNT xs)" using assms(3) unfolding topQueries_def xs_def [symmetric] by simp
  moreover have "sorted (map (\<lambda>q. - nullish (rq_exec_time_ms q) 0) (take PREVIEW_COUNT xs @ drop PREVIEW_COUNT xs))"
    using exec_order.sorted_js_sort by (simp add: xs_def)
  ultimately have "nullish (rq_exec_time_ms q) 0 \<le> nullish (rq_exec_time_ms p) 0"
    using assms(4) unfolding map_append sorted_append topQueries_def xs_def [symmetric] by fastforce
  then show ?thesis using assms(2) by (simp add: nullish_def)
qed

end
