(* ===== verification/App_Shell.thy ===== *)
theory App_Shell
  imports Api_Calls Dag_Store Dag_Nodes Grant_Wizard Query_Hooks Inventory_Ui
begin

text \<open>
  The shell that holds the other components together: \<open>App.tsx\<close>, \<open>components/auth/LoginForm.tsx\<close> and
  \<open>components/layout/Header.tsx\<close>. One machine over the session, the graph store and the grant store:
  the user's events, the answers of the requests in flight in any order, and after each of them the effects
  whose dependencies have changed. The components inside the shell have theories of their own; here they
  are slots, and what they do to the shared stores are events.
\<close>

section \<open>Numbers typed by the user\<close>

text \<open>
  The unary plus on a string: white space around it is ignored, the empty string is zero. \<open>None\<close> is
  \<open>NaN\<close>, and also infinity, which JSON writes as null as well.
\<close>

definition radix_value :: "nat \<Rightarrow> string \<Rightarrow> rat option" where
  "radix_value b cs = (if cs = [] \<or> (\<exists>c \<in> set cs. nullish (hex_value c) 16 \<ge> b) then None
     else Some (of_nat (foldl (\<lambda>n c. n * b + nullish (hex_value c) 0) 0 cs)))"

definition decimal_value :: "string \<Rightarrow> rat option" where
  "decimal_value s =
     (let (ds, r) = digits_of s;
          (fs, r1) = (case r of c # r' \<Rightarrow> if c = CHR ''.'' then digits_of r' else ([], r) | [] \<Rightarrow> ([], r))
      in if ds = [] \<and> fs = [] then None
         else (case parse_exp r1 of
             Some (e, []) \<Rightarrow> Some ((of_nat (str_nat ds 0) + of_nat (str_nat fs 0) / 10 ^ length fs) * e)
           | _ \<Rightarrow> None))"

definition to_number :: "string \<Rightarrow> rat option" where
  "to_number s = (let t = trim s; p = to_lower (take 2 t) in
     if t = [] then Some 0
     else if p = ''0x'' then radix_value 16 (drop 2 t)
     else if p = ''0o'' then radix_value 8 (drop 2 t)
     else if p = ''0b'' then radix_value 2 (drop 2 t)
     else if hd t = CHR ''-'' then map_option uminus (decimal_value (tl t))
     else if hd t = CHR ''+'' then decimal_value (tl t)
     else decimal_value t)"

section \<open>State\<close>

record tab_config =
  tc_id :: string
  tc_label :: string
  tc_adminOnly :: bool
  tc_grantAdminOnly :: bool

definition TAB_CONFIG :: "tab_config list" where
  "TAB_CONFIG = [
     \<lparr>tc_id = ''obj'', tc_label = ''Object Hierarchy'', tc_adminOnly = False, tc_grantAdminOnly = False\<rparr>,
     \<lparr>tc_id = ''role'', tc_label = ''Role Map'', tc_adminOnly = False, tc_grantAdminOnly = False\<rparr>,
     \<lparr>tc_id = ''perm'', tc_label = ''Permission Focus'', tc_adminOnly = True, tc_grantAdminOnly = False\<rparr>,
     \<lparr>tc_id = ''myperm'', tc_label = ''My Inventory Search'', tc_adminOnly = False, tc_grantAdminOnly = False\<rparr>,
     \<lparr>tc_id = ''audit'', tc_label = ''Grant Audit'', tc_adminOnly = False, tc_grantAdminOnly = True\<rparr>,
     \<lparr>tc_id = ''cluster'', tc_label = ''Cluster Monitor'', tc_adminOnly = False, tc_grantAdminOnly = False\<rparr>]"

definition OBJ_FILTERS :: "(string \<times> string) list" where
  "OBJ_FILTERS = [(''catalog'', ''Catalogs''), (''database'', ''Databases''), (''table'', ''Tables''),
     (''view'', ''Views''), (''mv'', ''MVs''), (''function'', ''Functions'')]"

definition ROLE_FILTERS :: "(string \<times> string) list" where
  "ROLE_FILTERS = [(''role'', ''Roles''), (''user'', ''Users'')]"

record login_form =
  lf_host :: string
  lf_port :: string
  lf_username :: string
  lf_password :: string
  lf_error :: string
  lf_loading :: bool

definition login_form_init :: login_form where
  "login_form_init = \<lparr>lf_host = [], lf_port = ''9030'', lf_username = [], lf_password = [], lf_error = [], lf_loading = False\<rparr>"

text \<open>
  What waits for each request in flight, in the order of the requests of the session. A graph request is
  live until its effect is cleaned up; a health check belongs to one mount of the header. The requests of the
  components inside the shell, and the one of a logout, have no continuation here.
\<close>

datatype app_call =
    RestoreCall
  | LoginCall string "rat option"
  | LoginMeCall string
  | GraphCall string bool
  | HealthCall nat
  | OtherCall

record app =
  ap_session :: session
  ap_dag :: dag_state
  ap_grants :: grant_store
  ap_hash :: string
  ap_calls :: "app_call list"
  ap_form :: login_form
  ap_header :: nat
  ap_errors :: bool

abbreviation app_auth :: "app \<Rightarrow> auth_state" where
  "app_auth a \<equiv> ss_auth (ap_session a)"

datatype app_event =
    TypeHost string
  | TypePort string
  | TypeUsername string
  | TypePassword string
  | SubmitLogin
  | SelectTab string
  | ToggleFilter string
  | GroupsOnly bool
  | CloseDetails
  | ManagePrivileges
  | ToggleStatus
  | LogoutClick
  | ChildTab string
  | ChildCatalog string
  | ChildSelect "dag_node option" "panel_mode option"
  | ChildCall string bool
  | HealthTick bool
  | RestoreReply nat "user_info fetch_reply"
  | LoginReply nat "string fetch_reply"
  | LoginMeReply nat "user_info fetch_reply"
  | GraphReply nat "dag_graph fetch_reply"
  | HealthReply nat "cluster_status fetch_reply"
  | OtherReply nat "unit fetch_reply"

section \<open>Requests\<close>

definition app_send :: "app_call \<Rightarrow> api_call \<Rightarrow> app \<Rightarrow> app" where
  "app_send k c a = a\<lparr>ap_session := send_call c (ap_session a), ap_calls := ap_calls a @ [k]\<rparr>"

text \<open>A logout sends a request of its own, which nobody waits for.\<close>

definition align :: "app \<Rightarrow> app" where
  "align a = a\<lparr>ap_calls := ap_calls a @ replicate (length (ss_inflight (ap_session a)) - length (ap_calls a)) OtherCall\<rparr>"

definition app_logout :: "app \<Rightarrow> app" where
  "app_logout a = align (a\<lparr>ap_session := logout (ap_session a)\<rparr>)"

definition app_settle :: "nat \<Rightarrow> 'a fetch_reply \<Rightarrow> app \<Rightarrow> (api_error + 'a) \<times> app" where
  "app_settle i reply a =
     (let p = ss_inflight (ap_session a) ! i;
          (r, s) = api_settle (pd_path p) (pd_quiet p) reply (take_inflight i (ap_session a))
      in (r, align (a\<lparr>ap_session := s, ap_calls := take i (ap_calls a) @ drop (Suc i) (ap_calls a)\<rparr>)))"

section \<open>What follows an answer\<close>

definition set_form :: "(login_form \<Rightarrow> login_form) \<Rightarrow> app \<Rightarrow> app" where
  "set_form f a = a\<lparr>ap_form := f (ap_form a)\<rparr>"

definition store_token :: "string \<Rightarrow> app \<Rightarrow> app" where
  "store_token t a = a\<lparr>ap_session := storeToken t (ap_session a)\<rparr>"

definition sign_in :: "string \<Rightarrow> user_info \<Rightarrow> app \<Rightarrow> app" where
  "sign_in t me a = a\<lparr>ap_session := setAuth t me (ap_session a)\<rparr>"

text \<open>What \<open>localStorage\<close> would store for a missing token is the text null.\<close>

definition restore_done :: "api_error + user_info \<Rightarrow> app \<Rightarrow> app" where
  "restore_done r a = (case r of
      Inr me \<Rightarrow> sign_in (nullish (st_token (ss_storage (ap_session a))) ''null'') me a
    | Inl err \<Rightarrow> app_logout a)"

definition login_failed :: "(api_error \<Rightarrow> string) \<Rightarrow> api_error \<Rightarrow> app \<Rightarrow> app" where
  "login_failed host_msg err a =
     set_form (\<lambda>f. f\<lparr>lf_error := qe_message (fetch_error_of host_msg err), lf_loading := False\<rparr>) a"

definition login_done ::
  "(api_error \<Rightarrow> string) \<Rightarrow> string \<Rightarrow> rat option \<Rightarrow> api_error + string \<Rightarrow> app \<Rightarrow> app" where
  "login_done host_msg host port r a = (case r of
      Inr token \<Rightarrow> (let a1 = store_token token a in
        app_send (LoginMeCall token) getMe (a1\<lparr>ap_session := setConnectionInfo host port (ap_session a1)\<rparr>))
    | Inl err \<Rightarrow> login_failed host_msg err a)"

definition login_me_done :: "(api_error \<Rightarrow> string) \<Rightarrow> string \<Rightarrow> api_error + user_info \<Rightarrow> app \<Rightarrow> app" where
  "login_me_done host_msg token r a = (case r of
      Inr me \<Rightarrow> set_form (\<lambda>f. f\<lparr>lf_loading := False\<rparr>) (sign_in token me a)
    | Inl err \<Rightarrow> login_failed host_msg err a)"

definition handleSubmit :: "app \<Rightarrow> app" where
  "handleSubmit a = (let f = ap_form a; port = to_number (lf_port f) in
     app_send (LoginCall (lf_host f) port) (login_call (lf_host f) port (lf_username f) (lf_password f))
       (set_form (\<lambda>f. f\<lparr>lf_error := [], lf_loading := True\<rparr>) a))"

definition graph_done :: "string \<Rightarrow> api_error + dag_graph \<Rightarrow> app \<Rightarrow> app" where
  "graph_done key r a = a\<lparr>ap_dag := loadDag_settle key (case r of Inr g \<Rightarrow> Some g | Inl err \<Rightarrow> None) (ap_dag a)\<rparr>"

definition health_done :: "nat \<Rightarrow> api_error + cluster_status \<Rightarrow> app \<Rightarrow> app" where
  "health_done n r a = (if n \<noteq> ap_header a then a
     else a\<lparr>ap_errors := (case r of Inr res \<Rightarrow> cs_has_errors res | Inl err \<Rightarrow> False)\<rparr>)"

definition health_poll :: "app \<Rightarrow> app" where
  "health_poll a = app_send (HealthCall (ap_header a)) (getClusterStatus False True) a"

section \<open>Header.tsx\<close>

definition handleManagePrivileges :: "app \<Rightarrow> app" where
  "handleManagePrivileges a = a\<lparr>ap_grants := openWizard
     (case da_selectedNode (ap_dag a) of
        None \<Rightarrow> None
      | Some n \<Rightarrow> if to_upper (dn_type n) = ''USER''
          then Some (empty_prefill\<lparr>wp_grantee := Some \<lparr>ge_name = dn_label n, ge_type = GUser\<rparr>\<rparr>)
          else if to_upper (dn_type n) = ''ROLE''
          then Some (empty_prefill\<lparr>wp_grantee := Some \<lparr>ge_name = dn_label n, ge_type = GRole\<rparr>\<rparr>)
          else None)
     (ap_grants a)\<rparr>"

definition port_text :: "rat option \<Rightarrow> string" where
  "port_text p = (case p of Some x \<Rightarrow> num_str x | None \<Rightarrow> ''NaN'')"

definition Header :: "user_info \<Rightarrow> app \<Rightarrow> app_event node" where
  "Header me a = El ''header'' [] [] (
     [Txt ''StarRocks Permission Manager'', Txt (ui_username me)]
     @ (case at_connectionInfo (app_auth a) of None \<Rightarrow> []
        | Some c \<Rightarrow> [Txt (''@'' @ cn_host c @ '':'' @ port_text (cn_port c))])
     @ show_if (ui_can_manage_grants me) [button ''manage-privileges-btn'' False ManagePrivileges ''Manage Privileges'']
     @ [El ''button'' [(''data-testid'', ''cluster-status-btn''),
          (''title'', if ap_errors a then ''Cluster Status '' @ em_dash @ '' issues detected'' else ''Cluster Status'')]
          [ToggleStatus] (show_if (ap_errors a) [El ''span'' [(''data-testid'', ''cluster-error-badge'')] [] []]),
        click_text LogoutClick ''Logout''])"

section \<open>LoginForm.tsx\<close>

text \<open>The browser does not submit a form with an empty required field, nor by a disabled button.\<close>

definition form_complete :: "login_form \<Rightarrow> bool" where
  "form_complete f \<longleftrightarrow> lf_host f \<noteq> [] \<and> lf_port f \<noteq> [] \<and> lf_username f \<noteq> [] \<and> lf_password f \<noteq> []"

definition LoginForm :: "login_form \<Rightarrow> app_event node" where
  "LoginForm f = El ''form'' [] [] (
     [Txt ''StarRocks Permission Manager'', Txt ''Connect to a StarRocks cluster to visually explore permissions'']
     @ show_if (lf_error f \<noteq> []) [Txt (lf_error f)]
     @ [Txt ''Host'', Field ''host'' (lf_host f) False TypeHost [],
        Txt ''Port'', Field ''port'' (lf_port f) False TypePort [],
        Txt ''Username'', Field ''username'' (lf_username f) False TypeUsername [],
        Txt ''Password'', Field ''password'' (lf_password f) False TypePassword [],
        El ''button'' ((''type'', ''submit'') # disabled_if (lf_loading f)) (show_if (form_complete f) [SubmitLogin])
          [Txt (if lf_loading f then ''Connecting...'' else ''Connect & Login'')]])"

section \<open>App.tsx: the view\<close>

definition isAdmin :: "user_info option \<Rightarrow> bool" where
  "isAdmin u = nullish (map_option ui_is_user_admin u) False"

definition canManageGrants :: "user_info option \<Rightarrow> bool" where
  "canManageGrants u = nullish (map_option ui_can_manage_grants u) False"

definition visibleTabs :: "user_info option \<Rightarrow> tab_config list" where
  "visibleTabs u = filter (\<lambda>t. (\<not> tc_adminOnly t \<or> isAdmin u) \<and> (\<not> tc_grantAdminOnly t \<or> canManageGrants u)) TAB_CONFIG"

definition slot :: "string \<Rightarrow> app_event node" where
  "slot name = El name [] [] []"

definition graph_tab :: "string \<Rightarrow> bool" where
  "graph_tab t \<longleftrightarrow> t \<noteq> ''perm'' \<and> t \<noteq> ''myperm'' \<and> t \<noteq> ''audit'' \<and> t \<noteq> ''cluster''"

definition tab_bar :: "user_info option \<Rightarrow> string \<Rightarrow> app_event node" where
  "tab_bar u active = box (map (\<lambda>t. El ''button'' (show_if (active = tc_id t) [(''data-active'', ''true'')])
     [SelectTab (tc_id t)] [Txt (tc_label t)]) (visibleTabs u))"

definition check_box :: "bool \<Rightarrow> app_event \<Rightarrow> app_event node" where
  "check_box checked e = El ''input'' ((''type'', ''checkbox'') # show_if checked [(''checked'', ''true'')]) [e] []"

definition filter_box :: "dag_state \<Rightarrow> string \<times> string \<Rightarrow> app_event node" where
  "filter_box d f = El ''label'' [(''color'', nullish (obj_get NODE_COLORS (fst f)) [])] []
     [check_box (type_visible (da_visibleTypes d) (fst f)) (ToggleFilter (fst f)), Txt (snd f)]"

definition toolbar :: "dag_state \<Rightarrow> app_event node" where
  "toolbar d = box (map (filter_box d) (if da_activeTab d = ''obj'' then OBJ_FILTERS else ROLE_FILTERS)
     @ show_if (da_activeTab d = ''obj'')
         [check_box (da_groupsOnly d) (GroupsOnly (\<not> da_groupsOnly d)), Txt ''Groups Only'']
     @ [slot ''ExportPngBtn''])"

definition content_area :: "user_info option \<Rightarrow> dag_state \<Rightarrow> app_event node" where
  "content_area u d = (
     if da_activeTab d = ''myperm'' then slot ''InventoryTab''
     else if da_activeTab d = ''cluster'' then slot ''ClusterTab''
     else if da_activeTab d = ''audit'' \<and> canManageGrants u then slot ''AuditTab''
     else if da_activeTab d = ''perm'' \<and> isAdmin u then slot ''PermissionDetailTab''
     else box [toolbar d, slot ''DAGView''])"

definition details :: "dag_state \<Rightarrow> app_event node list" where
  "details d = (if da_activeTab d = ''perm'' \<or> da_activeTab d = ''myperm'' \<or> da_activeTab d = ''audit'' then []
     else (case da_panelMode d of None \<Rightarrow> []
       | Some m \<Rightarrow> [box [Txt ''Details'', click_text CloseDetails times_sign,
           slot (case m of PanelObject \<Rightarrow> ''ObjectDetailPanel'' | PanelUser \<Rightarrow> ''UserDetailPanel''
             | PanelGroup \<Rightarrow> ''GroupDetailPanel'')]]))"

definition App :: "app \<Rightarrow> app_event node" where
  "App a = (if \<not> at_isLoggedIn (app_auth a) then LoginForm (ap_form a)
     else (case at_user (app_auth a) of
         None \<Rightarrow> Loader
       | Some me \<Rightarrow> box (
           [Header me a]
           @ show_if (graph_tab (da_activeTab (ap_dag a))) [slot ''Sidebar'']
           @ [tab_bar (Some me) (da_activeTab (ap_dag a)), content_area (Some me) (ap_dag a)]
           @ details (ap_dag a)
           @ [slot ''ClusterDrawer'', slot ''ManagePrivilegesModal''])))"

section \<open>App.tsx: the effects\<close>

type_synonym app_deps = "bool \<times> user_info option \<times> string \<times> string"

definition deps_of :: "app \<Rightarrow> app_deps" where
  "deps_of a = (at_isLoggedIn (app_auth a), at_user (app_auth a), da_activeTab (ap_dag a), da_activeCatalog (ap_dag a))"

definition restricted :: "user_info option \<Rightarrow> string \<Rightarrow> bool" where
  "restricted u t \<longleftrightarrow> u \<noteq> None \<and> (\<not> isAdmin u \<and> t = ''perm'' \<or> \<not> canManageGrants u \<and> t = ''audit'')"

definition go_to_tab :: "string \<Rightarrow> app \<Rightarrow> app" where
  "go_to_tab t a = (case setActiveTab t (ap_dag a) of (d, h) \<Rightarrow> a\<lparr>ap_dag := d, ap_hash := h\<rparr>)"

definition redirect_effect :: "app_deps \<Rightarrow> app \<Rightarrow> app" where
  "redirect_effect d a = (case d of (l, u, t, c) \<Rightarrow> if restricted u t then go_to_tab ''obj'' a else a)"

definition clear_effect :: "app_deps \<Rightarrow> app_deps \<Rightarrow> app \<Rightarrow> app" where
  "clear_effect old d a = (if fst d \<noteq> fst old \<and> \<not> fst d then a\<lparr>ap_dag := clearDagCache (ap_dag a)\<rparr> else a)"

fun kill_graph :: "app_call \<Rightarrow> app_call" where
  "kill_graph (GraphCall k b) = GraphCall k False"
| "kill_graph c = c"

definition kill_graphs :: "app \<Rightarrow> app" where
  "kill_graphs a = a\<lparr>ap_calls := map kill_graph (ap_calls a)\<rparr>"

definition dagKey :: "string \<Rightarrow> string \<Rightarrow> string" where
  "dagKey t c = t @ CHR ''_'' # c"

definition graph_call :: "user_info option \<Rightarrow> string \<Rightarrow> string \<Rightarrow> api_call" where
  "graph_call u t c = (if t = ''obj'' then getObjectHierarchy (usePermApi u) (Some c) else getRoleHierarchy (usePermApi u))"

definition loads_graph :: "app_deps \<Rightarrow> bool" where
  "loads_graph d = (case d of (l, u, t, c) \<Rightarrow> l \<and> u \<noteq> None \<and> graph_tab t)"

definition load_effect :: "app_deps \<Rightarrow> app \<Rightarrow> app" where
  "load_effect d a = (if \<not> loads_graph d then a
     else (case d of (l, u, t, c) \<Rightarrow> (case loadDag_start (dagKey t c) (ap_dag a) of (dag, fetch) \<Rightarrow>
       (let a1 = a\<lparr>ap_dag := dag\<rparr> in if fetch then app_send (GraphCall (dagKey t c) True) (graph_call u t c) a1 else a1))))"

text \<open>The components that appear start anew: the login form, and the header with its first health check.\<close>

definition mount_effect :: "app_deps \<Rightarrow> app_deps \<Rightarrow> app \<Rightarrow> app" where
  "mount_effect old d a =
     (if fst (snd old) = None \<and> fst (snd d) \<noteq> None then health_poll (a\<lparr>ap_header := ap_header a + 1, ap_errors := False\<rparr>)
      else if fst old \<and> \<not> fst d then a\<lparr>ap_form := login_form_init\<rparr>
      else a)"

text \<open>
  After a render the effects whose dependencies changed are cleaned up and run, in the order of the code. They
  work on the values of that render; if they change the state there is another render.
\<close>

definition effects_pass :: "app_deps \<Rightarrow> app \<Rightarrow> app" where
  "effects_pass old a = (let d = deps_of a in
     if d = old then a
     else load_effect d (clear_effect old d (redirect_effect d (mount_effect old d (kill_graphs a)))))"

definition app_effects :: "app_deps \<Rightarrow> app \<Rightarrow> app" where
  "app_effects old a = effects_pass (deps_of a) (effects_pass old a)"

section \<open>Runs\<close>

definition app_mount :: "storage \<Rightarrow> string \<Rightarrow> app" where
  "app_mount st hash = (let a = \<lparr>ap_session = session_init st, ap_dag = dag_init hash, ap_grants = grant_store_init,
       ap_hash = hash, ap_calls = [], ap_form = login_form_init, ap_header = 0, ap_errors = False\<rparr>
     in if at_isLoggedIn (app_auth a) then app_send RestoreCall getMe a
        else a\<lparr>ap_dag := clearDagCache (ap_dag a)\<rparr>)"

text \<open>An answer reaches what waits for it; an aborted request has no other answer.\<close>

definition app_reply :: "(api_error \<Rightarrow> string) \<Rightarrow> app_call \<Rightarrow> app_event \<Rightarrow> app \<Rightarrow> app" where
  "app_reply hm c e a = (case (c, e) of
      (RestoreCall, RestoreReply i r) \<Rightarrow> (case app_settle i r a of (x, a') \<Rightarrow> restore_done x a')
    | (LoginCall h p, LoginReply i r) \<Rightarrow> (case app_settle i r a of (x, a') \<Rightarrow> login_done hm h p x a')
    | (LoginMeCall t, LoginMeReply i r) \<Rightarrow> (case app_settle i r a of (x, a') \<Rightarrow> login_me_done hm t x a')
    | (GraphCall k b, GraphReply i r) \<Rightarrow>
        (case app_settle i (if b then r else Aborted) a of (x, a') \<Rightarrow> graph_done k x a')
    | (HealthCall n, HealthReply i r) \<Rightarrow> (case app_settle i r a of (x, a') \<Rightarrow> health_done n x a')
    | (OtherCall, OtherReply i r) \<Rightarrow> snd (app_settle i r a)
    | _ \<Rightarrow> a)"

fun reply_index :: "app_event \<Rightarrow> nat option" where
  "reply_index (RestoreReply i r) = Some i"
| "reply_index (LoginReply i r) = Some i"
| "reply_index (LoginMeReply i r) = Some i"
| "reply_index (GraphReply i r) = Some i"
| "reply_index (HealthReply i r) = Some i"
| "reply_index (OtherReply i r) = Some i"
| "reply_index e = None"

text \<open>What the components inside the shell do to the shared stores, while they are mounted.\<close>

fun child_event :: "app_event \<Rightarrow> app \<Rightarrow> app" where
  "child_event (ChildTab t) a = (if t \<in> {''obj'', ''role'', ''cluster''} then go_to_tab t a else a)"
| "child_event (ChildCatalog c) a = a\<lparr>ap_dag := setActiveCatalog c (ap_dag a)\<rparr>"
| "child_event (ChildSelect n m) a = a\<lparr>ap_dag := setPanelMode m (setSelectedNode n (ap_dag a))\<rparr>"
| "child_event (ChildCall p q) a = app_send OtherCall ((get_call p)\<lparr>ca_quiet := q\<rparr>) a"
| "child_event (HealthTick hidden) a = (if hidden then a else health_poll a)"
| "child_event e a = a"

fun user_action :: "app_event \<Rightarrow> app \<Rightarrow> app" where
  "user_action (TypeHost t) a = set_form (\<lambda>f. f\<lparr>lf_host := t\<rparr>) a"
| "user_action (TypePort t) a = set_form (\<lambda>f. f\<lparr>lf_port := t\<rparr>) a"
| "user_action (TypeUsername t) a = set_form (\<lambda>f. f\<lparr>lf_username := t\<rparr>) a"
| "user_action (TypePassword t) a = set_form (\<lambda>f. f\<lparr>lf_password := t\<rparr>) a"
| "user_action SubmitLogin a = handleSubmit a"
| "user_action (SelectTab t) a = go_to_tab t a"
| "user_action (ToggleFilter t) a = a\<lparr>ap_dag := toggleType t (ap_dag a)\<rparr>"
| "user_action (GroupsOnly b) a = a\<lparr>ap_dag := setGroupsOnly b (ap_dag a)\<rparr>"
| "user_action CloseDetails a = a\<lparr>ap_dag := setPanelMode None (ap_dag a)\<rparr>"
| "user_action ManagePrivileges a = handleManagePrivileges a"
| "user_action ToggleStatus a = a\<lparr>ap_session := (ap_session a)\<lparr>ss_cluster := toggleDrawer (ss_cluster (ap_session a))\<rparr>\<rparr>"
| "user_action LogoutClick a = app_logout a"
| "user_action e a = a"

definition from_child :: "app_event \<Rightarrow> bool" where
  "from_child e = (case e of ChildTab _ \<Rightarrow> True | ChildCatalog _ \<Rightarrow> True | ChildSelect _ _ \<Rightarrow> True
     | ChildCall _ _ \<Rightarrow> True | HealthTick _ \<Rightarrow> True | _ \<Rightarrow> False)"

definition app_handle :: "(api_error \<Rightarrow> string) \<Rightarrow> app_event \<Rightarrow> app \<Rightarrow> app" where
  "app_handle hm e a = (case reply_index e of
      Some i \<Rightarrow> if i < length (ap_calls a) then app_reply hm (ap_calls a ! i) e a else a
    | None \<Rightarrow> if from_child e then (if at_user (app_auth a) = None then a else child_event e a)
        else if can_send (App a) e then user_action e a else a)"

definition app_step :: "(api_error \<Rightarrow> string) \<Rightarrow> app \<Rightarrow> app_event \<Rightarrow> app" where
  "app_step hm a e = app_effects (deps_of a) (app_handle hm e a)"

section \<open>Lemmas\<close>

text \<open>The decimal digits of a port are read as that port.\<close>

lemma lower_digit: "is_digit c \<Longrightarrow> ch_lower c = c"
  by (simp add: ch_lower_def is_digit_def)

lemma port_number: "to_number (nat_str n) = Some (of_nat n)"
proof -
  define s where "s = nat_str n"
  have d: "\<forall>c \<in> set s. is_digit c" and ne: "s \<noteq> []" and v: "str_nat s 0 = n"
    using nat_str_digits by (simp_all add: s_def)
  have t: "trim s = s" using d by (intro trim_no_ws) (auto simp: is_digit_def is_ws_def)
  have dig: "digits_of s = (s, [])" using d by (simp add: digits_of_def)
  have "\<forall>c \<in> set (to_lower (take 2 s)). is_digit c"
    using d lower_digit by (auto simp: to_lower_def dest: in_set_takeD)
  moreover have "\<not> is_digit CHR ''x''" "\<not> is_digit CHR ''o''" "\<not> is_digit CHR ''b''" by (simp_all add: is_digit_def)
  ultimately have p: "to_lower (take 2 s) \<notin> {''0x'', ''0o'', ''0b''}" by auto
  have "is_digit (hd s)" using d ne by simp
  then have h: "hd s \<noteq> CHR ''-''" "hd s \<noteq> CHR ''+''" by (auto simp: is_digit_def)
  have "decimal_value s = Some (of_nat n)" using ne dig v by (simp add: decimal_value_def parse_exp_def)
  then show ?thesis using p h ne t unfolding s_def [symmetric] by (simp add: to_number_def Let_def)
qed

end
