(* ===== verification/App_Safety.thy ===== *)
theory App_Safety
  imports App_Shell
begin

text \<open>
  What the shell promises: who may be where, and whose data is shown. The invariant of a run says in which
  phase the session is and which requests belong to it, and that the graphs in the store were answered to
  requests of the present user with the present token.
\<close>

section \<open>Frames\<close>

lemma send_simps [simp]:
  "ap_dag (app_send k c a) = ap_dag a" "ap_form (app_send k c a) = ap_form a" "ap_hash (app_send k c a) = ap_hash a"
  "ap_calls (app_send k c a) = ap_calls a @ [k]" "app_auth (app_send k c a) = app_auth a"
  "ss_storage (ap_session (app_send k c a)) = ss_storage (ap_session a)"
  "ap_header (app_send k c a) = ap_header a" "ap_grants (app_send k c a) = ap_grants a"
  "ss_inflight (ap_session (app_send k c a)) = ss_inflight (ap_session a) @
     [\<lparr>pd_url = BASE @ ca_path c, pd_path = ca_path c, pd_quiet = ca_quiet c,
       pd_headers = api_headers (st_token (ss_storage (ap_session a))) []\<rparr>]"
  by (simp_all add: app_send_def send_call_def fetch_start_def)

lemma align_simps [simp]:
  "ap_dag (align a) = ap_dag a" "ap_form (align a) = ap_form a" "ap_session (align a) = ap_session a"
  "ap_hash (align a) = ap_hash a" "ap_header (align a) = ap_header a" "ap_grants (align a) = ap_grants a"
  by (simp_all add: align_def)

definition aligned :: "app \<Rightarrow> bool" where
  "aligned a \<longleftrightarrow> length (ap_calls a) = length (ss_inflight (ap_session a))"

lemma align_aligned: "aligned a \<Longrightarrow> align a = a"
  by (simp add: aligned_def align_def)

definition logout_pending :: "app \<Rightarrow> pending" where
  "logout_pending a = \<lparr>pd_url = BASE @ ''/auth/logout'', pd_path = ''/auth/logout'', pd_quiet = False,
     pd_headers = api_headers (st_token (ss_storage (ap_session a))) []\<rparr>"

lemma logout_frame [simp]:
  "ap_dag (app_logout a) = ap_dag a" "ap_form (app_logout a) = ap_form a" "ap_hash (app_logout a) = ap_hash a"
  "\<not> at_isLoggedIn (app_auth (app_logout a))" "at_user (app_auth (app_logout a)) = None"
  "app_auth (app_logout a) = \<lparr>at_token = None, at_user = None, at_isLoggedIn = False, at_connectionInfo = None\<rparr>"
  "ss_storage (ap_session (app_logout a)) = \<lparr>st_token = None, st_connection = None\<rparr>"
  "ss_inflight (ap_session (app_logout a)) = ss_inflight (ap_session a) @ [logout_pending a]"
  by (simp_all add: app_logout_def fetch_start_def logout_pending_def)

lemma logout_calls: "aligned a \<Longrightarrow> ap_calls (app_logout a) = ap_calls a @ [OtherCall]"
  by (simp add: app_logout_def align_def aligned_def fetch_start_def)

section \<open>An answer arrives\<close>

text \<open>Without its request and what waits for it.\<close>

definition drop_nth :: "nat \<Rightarrow> 'a list \<Rightarrow> 'a list" where
  "drop_nth i xs = take i xs @ drop (Suc i) xs"

definition drop_call :: "nat \<Rightarrow> app \<Rightarrow> app" where
  "drop_call i a = a\<lparr>ap_session := take_inflight i (ap_session a), ap_calls := drop_nth i (ap_calls a)\<rparr>"

lemma drop_call_simps [simp]:
  "ap_dag (drop_call i a) = ap_dag a" "ap_form (drop_call i a) = ap_form a" "ap_hash (drop_call i a) = ap_hash a"
  "ap_calls (drop_call i a) = drop_nth i (ap_calls a)" "app_auth (drop_call i a) = app_auth a"
  "ss_storage (ap_session (drop_call i a)) = ss_storage (ap_session a)"
  "ss_inflight (ap_session (drop_call i a)) = drop_nth i (ss_inflight (ap_session a))"
  by (simp_all add: drop_call_def drop_nth_def take_inflight_def)

lemma aligned_drop: "aligned a \<Longrightarrow> aligned (drop_call i a)"
  by (simp add: aligned_def drop_nth_def)

lemma set_drop_nth: "set (drop_nth i xs) \<subseteq> set xs"
  by (auto simp: drop_nth_def dest: in_set_takeD in_set_dropD)

lemma zip_drop_nth: "length xs = length ys \<Longrightarrow> set (zip (drop_nth i xs) (drop_nth i ys)) \<subseteq> set (zip xs ys)"
proof -
  assume "length xs = length ys"
  then have "zip (drop_nth i xs) (drop_nth i ys) = drop_nth i (zip xs ys)"
    by (simp add: drop_nth_def zip_append take_zip drop_zip)
  then show ?thesis by (simp add: set_drop_nth)
qed

text \<open>Nothing the invariant looks at changes but the toasts, or the session has expired.\<close>

definition same_app :: "app \<Rightarrow> app \<Rightarrow> bool" where
  "same_app a b \<longleftrightarrow> app_auth a = app_auth b \<and> ss_storage (ap_session a) = ss_storage (ap_session b)
     \<and> ss_inflight (ap_session a) = ss_inflight (ap_session b) \<and> ap_calls a = ap_calls b
     \<and> da_dagCache (ap_dag a) = da_dagCache (ap_dag b) \<and> da_dagData (ap_dag a) = da_dagData (ap_dag b)
     \<and> da_currentKey (ap_dag a) = da_currentKey (ap_dag b) \<and> da_activeTab (ap_dag a) = da_activeTab (ap_dag b)
     \<and> lf_loading (ap_form a) = lf_loading (ap_form b)"

lemma settle_stays:
  assumes "aligned a" and "\<not> expires (pd_path (ss_inflight (ap_session a) ! i)) r" and "app_settle i r a = (x, b)"
  shows "same_app b (drop_call i a)"
proof -
  let ?p = "ss_inflight (ap_session a) ! i"
  obtain s where s: "api_settle (pd_path ?p) (pd_quiet ?p) r (take_inflight i (ap_session a)) = (x, s)"
    using assms(3) by (auto simp: app_settle_def Let_def split: prod.splits)
  have eqs: "ss_storage s = ss_storage (ap_session a)" "ss_auth s = app_auth a"
      "ss_inflight s = ss_inflight (take_inflight i (ap_session a))"
    using settle_other [OF assms(2), of "pd_quiet ?p" "take_inflight i (ap_session a)"] s by simp_all
  let ?b = "a\<lparr>ap_session := s, ap_calls := drop_nth i (ap_calls a)\<rparr>"
  have "b = align ?b" using assms(3) s by (simp add: app_settle_def Let_def drop_nth_def)
  moreover have "aligned ?b" using assms(1) eqs by (simp add: aligned_def drop_nth_def take_inflight_def)
  ultimately have b: "b = ?b" by (simp add: align_aligned)
  show ?thesis using eqs unfolding same_app_def b by (simp add: take_inflight_def drop_nth_def)
qed

lemma settle_expires:
  assumes "aligned a" and "expires (pd_path (ss_inflight (ap_session a) ! i)) r" and "app_settle i r a = (x, b)"
  shows "same_app b (app_logout (drop_call i a)) \<and> (\<exists>err. x = Inl err)"
proof -
  let ?p = "ss_inflight (ap_session a) ! i" and ?s = "take_inflight i (ap_session a)"
  obtain st det v where r: "r = Answer st det v" "st = 401" using assms(2) by (cases r) (auto simp: expires_def)
  have s: "api_settle (pd_path ?p) (pd_quiet ?p) r ?s = (x, logout (notify session_expired TWarning ?s))"
    using settle_expired [OF assms(2), of "pd_quiet ?p" ?s] assms(3)
    by (auto simp: app_settle_def Let_def split: prod.splits)
  have "b = align (a\<lparr>ap_session := logout (notify session_expired TWarning ?s), ap_calls := drop_nth i (ap_calls a)\<rparr>)"
    using assms(3) s by (simp add: app_settle_def Let_def drop_nth_def)
  then have "same_app b (app_logout (drop_call i a))"
    by (simp add: same_app_def app_logout_def align_def drop_call_def fetch_start_def)
  moreover have "\<exists>err. x = Inl err" using s r by (auto simp: api_settle_def status_ok_def Let_def)
  ultimately show ?thesis ..
qed

lemma settle_value:
  assumes "app_settle i r a = (Inr v, b)"
  obtains st det where "r = Answer st det (Some v)" and "status_ok st"
  using assms by (cases r) (auto simp: app_settle_def api_settle_def Let_def split: prod.splits if_splits option.splits)

section \<open>The invariant\<close>

fun is_auth_call :: "app_call \<Rightarrow> bool" where
  "is_auth_call RestoreCall = True"
| "is_auth_call (LoginCall h p) = True"
| "is_auth_call (LoginMeCall t) = True"
| "is_auth_call _ = False"

definition auth_calls :: "app \<Rightarrow> app_call list" where
  "auth_calls a = filter is_auth_call (ap_calls a)"

definition restoring :: "app \<Rightarrow> bool" where
  "restoring a \<longleftrightarrow> at_isLoggedIn (app_auth a) \<and> at_user (app_auth a) = None \<and> ap_calls a = [RestoreCall]
     \<and> truthy (st_token (ss_storage (ap_session a)))"

definition signed_in :: "user_info \<Rightarrow> string \<Rightarrow> app \<Rightarrow> bool" where
  "signed_in u t a \<longleftrightarrow> at_isLoggedIn (app_auth a) \<and> at_user (app_auth a) = Some u \<and> at_token (app_auth a) = Some t
     \<and> st_token (ss_storage (ap_session a)) = Some t \<and> auth_calls a = []"

definition signed_out :: "app \<Rightarrow> bool" where
  "signed_out a \<longleftrightarrow> \<not> at_isLoggedIn (app_auth a) \<and> at_user (app_auth a) = None
     \<and> (auth_calls a = [] \<or> lf_loading (ap_form a) \<and> (\<exists>c. c \<noteq> RestoreCall \<and> auth_calls a = [c]))"

text \<open>A graph answers a request with the given path and headers; \<open>Q\<close> says what that means.\<close>

type_synonym answers = "string \<Rightarrow> string jsobj \<Rightarrow> dag_graph \<Rightarrow> bool"

definition own_request :: "answers \<Rightarrow> user_info \<Rightarrow> string \<Rightarrow> string \<Rightarrow> string \<Rightarrow> dag_graph \<Rightarrow> bool" where
  "own_request Q u t tab cat g \<longleftrightarrow> Q (ca_path (graph_call (Some u) tab cat)) (api_headers (Some t) []) g"

definition own_graph :: "answers \<Rightarrow> user_info \<Rightarrow> string \<Rightarrow> string \<Rightarrow> dag_graph \<Rightarrow> bool" where
  "own_graph Q u t k g \<longleftrightarrow> (\<exists>tab cat. CHR ''_'' \<notin> set tab \<and> k = dagKey tab cat \<and> own_request Q u t tab cat g)"

fun live_graph :: "app_call \<times> pending \<Rightarrow> bool" where
  "live_graph (GraphCall k b, p) = b"
| "live_graph (c, p) = False"

definition graph_pending :: "user_info \<Rightarrow> string \<Rightarrow> string \<Rightarrow> string \<Rightarrow> app_call \<times> pending \<Rightarrow> bool" where
  "graph_pending u t tab cat x \<longleftrightarrow> (live_graph x \<longrightarrow> fst x = GraphCall (dagKey tab cat) True
     \<and> pd_path (snd x) = ca_path (graph_call (Some u) tab cat) \<and> pd_headers (snd x) = api_headers (Some t) [])"

definition calls_of :: "app \<Rightarrow> (app_call \<times> pending) list" where
  "calls_of a = zip (ap_calls a) (ss_inflight (ap_session a))"

definition graph_cached :: "answers \<Rightarrow> user_info \<Rightarrow> string \<Rightarrow> dag_state \<Rightarrow> bool" where
  "graph_cached Q u t d \<longleftrightarrow> (\<forall>k g. obj_get (da_dagCache d) k = Some g \<longrightarrow> own_graph Q u t k g)
     \<and> (\<forall>g. da_dagData d = Some g \<longrightarrow> (\<exists>k. da_currentKey d = Some k \<and> obj_get (da_dagCache d) k = Some g))"

definition no_live :: "app \<Rightarrow> bool" where
  "no_live a \<longleftrightarrow> (\<forall>x \<in> set (calls_of a). \<not> live_graph x)"

definition graph_none :: "app \<Rightarrow> bool" where
  "graph_none a \<longleftrightarrow> da_dagCache (ap_dag a) = [] \<and> da_dagData (ap_dag a) = None \<and> da_currentKey (ap_dag a) = None \<and> no_live a"

definition graph_ok :: "answers \<Rightarrow> user_info \<Rightarrow> string \<Rightarrow> string \<Rightarrow> string \<Rightarrow> app \<Rightarrow> bool" where
  "graph_ok Q u t tab cat a \<longleftrightarrow> graph_cached Q u t (ap_dag a) \<and> CHR ''_'' \<notin> set tab
     \<and> (\<forall>x \<in> set (calls_of a). graph_pending u t tab cat x)
     \<and> (graph_tab tab \<longrightarrow> da_currentKey (ap_dag a) = Some (dagKey tab cat))"

text \<open>The invariant after an event, relative to the dependencies that the effects have last run with.\<close>

definition shell_ok :: "answers \<Rightarrow> app_deps \<Rightarrow> app \<Rightarrow> bool" where
  "shell_ok Q old a \<longleftrightarrow> aligned a \<and> CHR ''_'' \<notin> set (da_activeTab (ap_dag a))
     \<and> (case old of (l, uo, tab, cat) \<Rightarrow> (case uo of
          Some u \<Rightarrow> l \<and> ((\<exists>t. signed_in u t a \<and> graph_ok Q u t tab cat a) \<or> signed_out a \<and> auth_calls a = [])
        | None \<Rightarrow> graph_none a \<and> (restoring a \<and> l \<or> signed_out a \<and> (l \<longrightarrow> auth_calls a = []) \<or> (\<exists>u t. signed_in u t a))))"

lemma same_app_parts:
  assumes "same_app a b"
  shows "restoring a = restoring b" "signed_in u t a = signed_in u t b" "signed_out a = signed_out b"
    "graph_none a = graph_none b" "graph_ok Q u t tab cat a = graph_ok Q u t tab cat b" "aligned a = aligned b"
    "auth_calls a = auth_calls b" "da_activeTab (ap_dag a) = da_activeTab (ap_dag b)"
    "lf_loading (ap_form a) = lf_loading (ap_form b)"
  using assms by (simp_all add: same_app_def restoring_def signed_in_def signed_out_def graph_none_def graph_ok_def
      graph_cached_def no_live_def calls_of_def aligned_def auth_calls_def)

lemma same_app_shell: "same_app a b \<Longrightarrow> shell_ok Q old a = shell_ok Q old b"
  by (simp add: shell_ok_def same_app_parts [of a b] split: prod.split option.split)

section \<open>The effects keep it\<close>

lemma kill_simps [simp]:
  "ap_session (kill_graphs a) = ap_session a" "ap_dag (kill_graphs a) = ap_dag a" "ap_form (kill_graphs a) = ap_form a"
  "ap_hash (kill_graphs a) = ap_hash a" "ap_header (kill_graphs a) = ap_header a"
  "ap_calls (kill_graphs a) = map kill_graph (ap_calls a)" "aligned (kill_graphs a) = aligned a"
  by (simp_all add: kill_graphs_def aligned_def)

lemma kill_graph_auth [simp]: "is_auth_call (kill_graph c) = is_auth_call c" "is_auth_call c \<Longrightarrow> kill_graph c = c"
  by (cases c; simp)+

lemma filter_kill_graph [simp]: "filter is_auth_call (map kill_graph cs) = filter is_auth_call cs"
  by (induction cs) auto

lemma kill_auth_calls [simp]: "auth_calls (kill_graphs a) = auth_calls a"
  by (simp add: auth_calls_def)

lemma not_live_kill: "\<not> live_graph (kill_graph c, p)"
  by (cases c) simp_all

lemma no_live_kill: "no_live (kill_graphs a)"
  by (auto simp: no_live_def calls_of_def in_set_zip not_live_kill)

lemma kill_phase [simp]:
  "signed_in u t (kill_graphs a) = signed_in u t a" "signed_out (kill_graphs a) = signed_out a"
  "restoring a \<Longrightarrow> restoring (kill_graphs a)"
  by (simp_all add: signed_in_def signed_out_def restoring_def)

lemma calls_of_send:
  assumes "aligned a"
  shows "calls_of (app_send k c a) = calls_of a @ [(k, \<lparr>pd_url = BASE @ ca_path c, pd_path = ca_path c,
    pd_quiet = ca_quiet c, pd_headers = api_headers (st_token (ss_storage (ap_session a))) []\<rparr>)]"
  using assms by (simp add: calls_of_def aligned_def)

lemma aligned_send [simp]: "aligned (app_send k c a) = aligned a"
  by (simp add: aligned_def)

lemma signed_in_send [simp]: "\<not> is_auth_call k \<Longrightarrow> signed_in u t (app_send k c a) = signed_in u t a"
  by (simp add: signed_in_def auth_calls_def)

lemma dag_update_phase [simp]:
  "signed_in u t (a\<lparr>ap_dag := d\<rparr>) = signed_in u t a" "signed_out (a\<lparr>ap_dag := d\<rparr>) = signed_out a"
  "aligned (a\<lparr>ap_dag := d\<rparr>) = aligned a" "calls_of (a\<lparr>ap_dag := d\<rparr>) = calls_of a" "auth_calls (a\<lparr>ap_dag := d\<rparr>) = auth_calls a"
  by (simp_all add: signed_in_def signed_out_def aligned_def calls_of_def auth_calls_def)

lemma load_dag_cached:
  assumes "graph_cached Q u t d" and "loadDag_start k d = (d', f)"
  shows "graph_cached Q u t d' \<and> da_currentKey d' = Some k \<and> da_activeTab d' = da_activeTab d
    \<and> da_activeCatalog d' = da_activeCatalog d"
  using assms by (cases "obj_get (da_dagCache d) k") (auto simp: loadDag_start_def graph_cached_def)

text \<open>The load effect leaves the requests and the key of its own dependencies.\<close>

lemma load_effect_ok:
  assumes "signed_in u t a" and "aligned a" and "no_live a" and "graph_cached Q u t (ap_dag a)" and "CHR ''_'' \<notin> set tab"
  shows "case load_effect (True, Some u, tab, cat) a of b \<Rightarrow> signed_in u t b \<and> aligned b \<and> graph_ok Q u t tab cat b
    \<and> da_activeTab (ap_dag b) = da_activeTab (ap_dag a) \<and> da_activeCatalog (ap_dag b) = da_activeCatalog (ap_dag a)"
proof (cases "graph_tab tab")
  case False
  then show ?thesis
    using assms by (auto simp: load_effect_def loads_graph_def graph_ok_def no_live_def graph_pending_def)
next
  case True
  obtain d f where d: "loadDag_start (dagKey tab cat) (ap_dag a) = (d, f)" by fastforce
  note c = load_dag_cached [OF assms(4) d]
  define b where "b = a\<lparr>ap_dag := d\<rparr>"
  have b: "signed_in u t b" "aligned b" "no_live b" "ap_dag b = d" using assms by (simp_all add: b_def no_live_def)
  have eff: "load_effect (True, Some u, tab, cat) a =
      (if f then app_send (GraphCall (dagKey tab cat) True) (graph_call (Some u) tab cat) b else b)"
    using True d by (simp add: load_effect_def loads_graph_def b_def)
  have tok: "st_token (ss_storage (ap_session b)) = Some t" using b(1) by (simp add: signed_in_def)
  have "\<forall>x \<in> set (calls_of b). graph_pending u t tab cat x" using b(3) by (simp add: no_live_def graph_pending_def)
  then show ?thesis
    using b c tok assms(5) unfolding eff by (simp add: graph_ok_def calls_of_send graph_pending_def)
qed

lemma go_to_tab_simps [simp]:
  "ap_session (go_to_tab t a) = ap_session a" "ap_calls (go_to_tab t a) = ap_calls a" "ap_form (go_to_tab t a) = ap_form a"
  "da_activeTab (ap_dag (go_to_tab t a)) = t" "da_activeCatalog (ap_dag (go_to_tab t a)) = da_activeCatalog (ap_dag a)"
  "da_dagCache (ap_dag (go_to_tab t a)) = da_dagCache (ap_dag a)" "da_dagData (ap_dag (go_to_tab t a)) = da_dagData (ap_dag a)"
  "da_currentKey (ap_dag (go_to_tab t a)) = da_currentKey (ap_dag a)"
  by (simp_all add: go_to_tab_def setActiveTab_def)

lemma go_to_tab_phase [simp]:
  "signed_in u t (go_to_tab x a) = signed_in u t a" "signed_out (go_to_tab x a) = signed_out a"
  "restoring (go_to_tab x a) = restoring a" "graph_none (go_to_tab x a) = graph_none a"
  "aligned (go_to_tab x a) = aligned a" "no_live (go_to_tab x a) = no_live a" "auth_calls (go_to_tab x a) = auth_calls a"
  "graph_cached Q u t (ap_dag (go_to_tab x a)) = graph_cached Q u t (ap_dag a)"
  "graph_ok Q u t tab cat (go_to_tab x a) = graph_ok Q u t tab cat a"
  by (simp_all add: signed_in_def signed_out_def restoring_def graph_none_def aligned_def no_live_def auth_calls_def
      calls_of_def graph_cached_def graph_ok_def)

lemma redirect_cases: "redirect_effect d a = a \<or> redirect_effect d a = go_to_tab ''obj'' a"
  by (simp add: redirect_effect_def split: prod.split)

text \<open>A pass after which somebody is signed in.\<close>

lemma pass_signed_in:
  assumes "signed_in u t a" and "aligned a" and "no_live a" and "graph_cached Q u t (ap_dag a)"
    and "CHR ''_'' \<notin> set (da_activeTab (ap_dag a))"
    and d: "d = (True, Some u, da_activeTab (ap_dag a), da_activeCatalog (ap_dag a))"
  shows "shell_ok Q d (load_effect d (redirect_effect d a))"
proof -
  define b where "b = redirect_effect d a"
  have b: "signed_in u t b" "aligned b" "no_live b" "graph_cached Q u t (ap_dag b)" "CHR ''_'' \<notin> set (da_activeTab (ap_dag b))"
    using assms(1-5) redirect_cases [of d a] by (auto simp: b_def)
  from load_effect_ok [OF b(1-4) assms(5), of "da_activeCatalog (ap_dag a)"] b(5) show ?thesis
    unfolding b_def [symmetric] by (auto simp: shell_ok_def d)
qed

lemma graph_none_cached: "graph_none a \<Longrightarrow> graph_cached Q u t (ap_dag a)"
  by (simp add: graph_none_def graph_cached_def)

lemma deps_signed_in: "signed_in u t a \<Longrightarrow> deps_of a = (True, Some u, da_activeTab (ap_dag a), da_activeCatalog (ap_dag a))"
  by (simp add: deps_of_def signed_in_def)

lemma deps_signed_out: "signed_out a \<Longrightarrow> deps_of a = (False, None, da_activeTab (ap_dag a), da_activeCatalog (ap_dag a))"
  by (simp add: deps_of_def signed_out_def)

lemma deps_restoring: "restoring a \<Longrightarrow> deps_of a = (True, None, da_activeTab (ap_dag a), da_activeCatalog (ap_dag a))"
  by (simp add: deps_of_def restoring_def)

lemma pass_changed:
  assumes "deps_of a \<noteq> old"
  shows "effects_pass old a = load_effect (deps_of a) (clear_effect old (deps_of a)
    (redirect_effect (deps_of a) (mount_effect old (deps_of a) (kill_graphs a))))"
  using assms by (simp add: effects_pass_def Let_def)

lemma pass_user:
  assumes "shell_ok Q (l, Some u, tab, cat) a"
  shows "shell_ok Q (deps_of a) (effects_pass (l, Some u, tab, cat) a)"
proof (cases "deps_of a = (l, Some u, tab, cat)")
  case True
  then show ?thesis using assms by (simp add: effects_pass_def)
next
  case False
  have ok: "aligned a" "CHR ''_'' \<notin> set (da_activeTab (ap_dag a))" l using assms by (simp_all add: shell_ok_def)
  consider (stay) t where "signed_in u t a" "graph_ok Q u t tab cat a" | (out) "signed_out a" "auth_calls a = []"
    using assms by (auto simp: shell_ok_def)
  then show ?thesis
  proof cases
    case stay
    have k: "mount_effect (l, Some u, tab, cat) (deps_of a) (kill_graphs a) = kill_graphs a"
      using deps_signed_in [OF stay(1)] by (simp add: mount_effect_def)
    have c: "clear_effect (l, Some u, tab, cat) (deps_of a) b = b" for b
      using deps_signed_in [OF stay(1)] ok(3) by (simp add: clear_effect_def)
    have "shell_ok Q (deps_of a) (load_effect (deps_of a) (redirect_effect (deps_of a) (kill_graphs a)))"
      by (rule pass_signed_in [of u t])
        (use stay ok no_live_kill deps_signed_in [OF stay(1)] in \<open>simp_all add: graph_ok_def\<close>)
    then show ?thesis unfolding pass_changed [OF False] using k c by simp
  next
    case out
    have "effects_pass (l, Some u, tab, cat) a =
        (kill_graphs a)\<lparr>ap_form := login_form_init, ap_dag := clearDagCache (ap_dag a)\<rparr>"
      unfolding pass_changed [OF False] using deps_signed_out [OF out(1)] ok(3)
      by (simp add: mount_effect_def redirect_effect_def restricted_def clear_effect_def
          load_effect_def loads_graph_def)
    then show ?thesis
      using ok out no_live_kill [of a] deps_signed_out [OF out(1)]
      by (simp add: shell_ok_def graph_none_def no_live_def calls_of_def clearDagCache_def signed_out_def
          auth_calls_def aligned_def kill_graphs_def)
  qed
qed

lemma mount_poll: "mount_effect (l, None, tab, cat) (l', Some u, tab', cat') a = health_poll (a\<lparr>ap_header := ap_header a + 1, ap_errors := False\<rparr>)"
  by (simp add: mount_effect_def)

lemma poll_ok:
  assumes "signed_in u t a" and "aligned a" and "no_live a" and "graph_cached Q u t (ap_dag a)"
  shows "case health_poll (a\<lparr>ap_header := n, ap_errors := e\<rparr>) of b \<Rightarrow>
    signed_in u t b \<and> aligned b \<and> no_live b \<and> graph_cached Q u t (ap_dag b) \<and> ap_dag b = ap_dag a"
proof -
  define b where "b = a\<lparr>ap_header := n, ap_errors := e\<rparr>"
  have "signed_in u t b" "aligned b" "no_live b" "ap_dag b = ap_dag a"
    using assms by (simp_all add: b_def signed_in_def auth_calls_def aligned_def no_live_def calls_of_def)
  then show ?thesis using assms(4)
    unfolding b_def [symmetric] by (simp add: health_poll_def no_live_def calls_of_send)
qed

lemma pass_nobody:
  assumes "shell_ok Q (l, None, tab, cat) a"
  shows "shell_ok Q (deps_of a) (effects_pass (l, None, tab, cat) a)"
proof (cases "deps_of a = (l, None, tab, cat)")
  case True
  then show ?thesis using assms by (simp add: effects_pass_def)
next
  case False
  have ok: "aligned a" "CHR ''_'' \<notin> set (da_activeTab (ap_dag a))" "graph_none a" using assms by (simp_all add: shell_ok_def)
  consider (wait) "restoring a" l | (out) "signed_out a" "l \<longrightarrow> auth_calls a = []" | (in_) u t where "signed_in u t a"
    using assms by (auto simp: shell_ok_def)
  then show ?thesis
  proof cases
    case wait
    have "effects_pass (l, None, tab, cat) a = kill_graphs a"
      unfolding pass_changed [OF False] using deps_restoring [OF wait(1)] wait(2)
      by (simp add: mount_effect_def redirect_effect_def restricted_def clear_effect_def
          load_effect_def loads_graph_def)
    then show ?thesis
      using ok wait no_live_kill [of a] deps_restoring [OF wait(1)]
      by (simp add: shell_ok_def graph_none_def)
  next
    case out
    define b where "b = (if l then (kill_graphs a)\<lparr>ap_form := login_form_init, ap_dag := clearDagCache (ap_dag a)\<rparr> else kill_graphs a)"
    have "effects_pass (l, None, tab, cat) a = b"
      unfolding pass_changed [OF False] using deps_signed_out [OF out(1)]
      by (simp add: b_def mount_effect_def redirect_effect_def restricted_def clear_effect_def
          load_effect_def loads_graph_def)
    moreover have "signed_out b" using out by (auto simp: b_def signed_out_def auth_calls_def kill_graphs_def)
    moreover have "graph_none b" "aligned b" "da_activeTab (ap_dag b) = da_activeTab (ap_dag a)"
      using ok no_live_kill [of a]
      by (auto simp: b_def graph_none_def no_live_def calls_of_def clearDagCache_def aligned_def kill_graphs_def)
    ultimately show ?thesis using ok(2) deps_signed_out [OF out(1)] by (simp add: shell_ok_def)
  next
    case (in_ u t)
    define b where "b = health_poll ((kill_graphs a)\<lparr>ap_header := ap_header a + 1, ap_errors := False\<rparr>)"
    have k: "mount_effect (l, None, tab, cat) (deps_of a) (kill_graphs a) = b"
      using deps_signed_in [OF in_] by (simp add: mount_effect_def b_def)
    have c: "clear_effect (l, None, tab, cat) (deps_of a) x = x" for x
      using deps_signed_in [OF in_] by (simp add: clear_effect_def)
    have "signed_in u t b \<and> aligned b \<and> no_live b \<and> graph_cached Q u t (ap_dag b) \<and> ap_dag b = ap_dag a"
      using poll_ok [of u t "kill_graphs a" Q] in_ ok graph_none_cached [OF ok(3)] no_live_kill [of a]
      unfolding b_def by simp
    then have "shell_ok Q (deps_of a) (load_effect (deps_of a) (redirect_effect (deps_of a) b))"
      by (intro pass_signed_in [of u t]) (use ok graph_none_cached [OF ok(3)] deps_signed_in [OF in_] in simp_all)
    then show ?thesis unfolding pass_changed [OF False] using k c by simp
  qed
qed

lemma pass_ok: "shell_ok Q old a \<Longrightarrow> shell_ok Q (deps_of a) (effects_pass old a)"
  using pass_user pass_nobody by (cases old; metis not_None_eq)

text \<open>Two passes are enough: after the first nobody is on a tab that is closed to them.\<close>

lemma deps_send [simp]: "deps_of (app_send k c a) = deps_of a"
  by (simp add: deps_of_def)

lemma deps_kill [simp]: "deps_of (kill_graphs a) = deps_of a"
  by (simp add: deps_of_def)

lemma deps_mount [simp]: "deps_of (mount_effect old d a) = deps_of a"
  by (simp add: mount_effect_def health_poll_def deps_of_def)

lemma deps_clear [simp]: "deps_of (clear_effect old d a) = deps_of a"
  by (simp add: clear_effect_def deps_of_def clearDagCache_def)

lemma deps_load [simp]: "deps_of (load_effect d a) = deps_of a"
  by (auto simp: load_effect_def deps_of_def loadDag_start_def Let_def split: prod.split option.split)

lemma deps_redirect:
  "deps_of (redirect_effect (l, u, t, c) a) = (if restricted u t then (case deps_of a of (l', u', t', c') \<Rightarrow> (l', u', ''obj'', c'))
     else deps_of a)"
  by (simp add: redirect_effect_def deps_of_def)

definition closed_to :: "app_deps \<Rightarrow> bool" where
  "closed_to d \<longleftrightarrow> restricted (fst (snd d)) (fst (snd (snd d)))"

lemma not_restricted_obj [simp]: "\<not> restricted u ''obj''"
  by (simp add: restricted_def)

lemma pass_open: "\<not> closed_to old \<Longrightarrow> \<not> closed_to (deps_of (effects_pass old a))"
  by (cases "deps_of a") (auto simp: effects_pass_def Let_def deps_redirect closed_to_def)

lemma pass_settled: "\<not> closed_to (deps_of a) \<Longrightarrow> deps_of (effects_pass old a) = deps_of a"
  by (cases "deps_of a") (auto simp: effects_pass_def Let_def deps_redirect closed_to_def)

lemma effects_ok:
  assumes "shell_ok Q old a" and "\<not> closed_to old"
  shows "shell_ok Q (deps_of (app_effects old a)) (app_effects old a) \<and> \<not> closed_to (deps_of (app_effects old a))"
proof -
  define b where "b = effects_pass old a"
  have "deps_of (effects_pass (deps_of a) b) = deps_of b"
    unfolding b_def by (rule pass_settled) (rule pass_open [OF assms(2)])
  moreover have "shell_ok Q (deps_of b) (effects_pass (deps_of a) b)"
    unfolding b_def by (intro pass_ok assms(1))
  ultimately show ?thesis
    using pass_open [OF assms(2), of a] unfolding app_effects_def b_def [symmetric] by simp
qed

section \<open>The events keep it\<close>

lemma app_offers:
  assumes "can_send (App a) e"
  shows "\<not> at_isLoggedIn (app_auth a) \<and> (e = SubmitLogin \<and> \<not> lf_loading (ap_form a)
        \<or> (\<exists>x. e = TypeHost x \<or> e = TypePort x \<or> e = TypeUsername x \<or> e = TypePassword x))
    \<or> at_isLoggedIn (app_auth a) \<and> at_user (app_auth a) \<noteq> None \<and> ((\<exists>t \<in> tc_id ` set TAB_CONFIG. e = SelectTab t)
        \<or> (\<exists>x. e = ToggleFilter x) \<or> (\<exists>b. e = GroupsOnly b) \<or> e = CloseDetails \<or> e = ManagePrivileges
        \<or> e = ToggleStatus \<or> e = LogoutClick)"
proof (cases "at_isLoggedIn (app_auth a)")
  case False
  then show ?thesis using assms
    by (auto simp: App_def LoginForm_def disabled_if_def show_if_def obj_get_Cons split: if_splits)
next
  case True
  then obtain me where me: "at_user (app_auth a) = Some me"
    using assms by (cases "at_user (app_auth a)") (auto simp: App_def)
  have hd: "can_send (Header me a) e \<Longrightarrow> e = ManagePrivileges \<or> e = ToggleStatus \<or> e = LogoutClick"
    by (auto simp: Header_def show_if_def obj_get_Cons split: option.splits if_splits)
  have bar: "can_send (tab_bar u t) e \<Longrightarrow> \<exists>t \<in> tc_id ` set TAB_CONFIG. e = SelectTab t" for u t
    by (auto simp: tab_bar_def visibleTabs_def show_if_def obj_get_Cons split: if_splits)
  have tool: "can_send (toolbar d) e \<Longrightarrow> (\<exists>x. e = ToggleFilter x) \<or> (\<exists>b. e = GroupsOnly b)" for d
    by (auto simp: toolbar_def filter_box_def check_box_def slot_def split: if_splits)
  have content: "can_send (content_area u d) e \<Longrightarrow> (\<exists>x. e = ToggleFilter x) \<or> (\<exists>b. e = GroupsOnly b)" for u d
    using tool by (auto simp: content_area_def slot_def split: if_splits)
  have det: "n \<in> set (details d) \<Longrightarrow> can_send n e \<Longrightarrow> e = CloseDetails" for n d
    by (auto simp: details_def slot_def split: option.splits if_splits)
  show ?thesis using assms True me
    by (auto simp: App_def slot_def dest: hd bar content det)
qed

lemma tab_ids_plain: "t \<in> tc_id ` set TAB_CONFIG \<Longrightarrow> CHR ''_'' \<notin> set t"
  by (auto simp: TAB_CONFIG_def)

lemma shell_go_to_tab: "shell_ok Q old a \<Longrightarrow> CHR ''_'' \<notin> set t \<Longrightarrow> shell_ok Q old (go_to_tab t a)"
  by (auto simp: shell_ok_def split: prod.splits option.splits)

text \<open>A logout from anywhere but the restoring of a session.\<close>

lemma auth_calls_logout: "aligned a \<Longrightarrow> auth_calls (app_logout a) = auth_calls a"
  by (simp add: auth_calls_def logout_calls)

lemma aligned_logout: "aligned a \<Longrightarrow> aligned (app_logout a)"
  by (simp add: aligned_def logout_calls)

lemma calls_of_logout: "aligned a \<Longrightarrow> calls_of (app_logout a) = calls_of a @ [(OtherCall, logout_pending a)]"
  by (simp add: calls_of_def logout_calls aligned_def)

lemma graph_none_logout: "aligned a \<Longrightarrow> graph_none (app_logout a) = graph_none a"
  by (simp add: graph_none_def no_live_def calls_of_logout)

lemma shell_logout:
  assumes "shell_ok Q (deps_of a) a" and "\<not> restoring a"
  shows "shell_ok Q (deps_of a) (app_logout a)"
proof -
  have al: "aligned a" "CHR ''_'' \<notin> set (da_activeTab (ap_dag a))" using assms(1) by (simp_all add: shell_ok_def)
  show ?thesis
  proof (cases "at_user (app_auth a)")
    case None
    then have "graph_none a \<and> signed_out a"
      using assms by (auto simp: shell_ok_def deps_of_def signed_in_def)
    then show ?thesis using al None
      by (auto simp: shell_ok_def deps_of_def signed_out_def auth_calls_logout aligned_logout graph_none_logout)
  next
    case (Some u)
    then have "auth_calls a = []" "at_isLoggedIn (app_auth a)"
      using assms(1) by (auto simp: shell_ok_def deps_of_def signed_in_def signed_out_def)
    then show ?thesis using al Some
      by (simp add: shell_ok_def deps_of_def signed_out_def auth_calls_logout aligned_logout)
  qed
qed

lemma shell_send_other:
  assumes "shell_ok Q (deps_of a) a" and "at_user (app_auth a) \<noteq> None" and "\<not> is_auth_call k" and "\<And>p. \<not> live_graph (k, p)"
  shows "shell_ok Q (deps_of a) (app_send k c a)"
proof -
  obtain u t where "signed_in u t a" "graph_ok Q u t (da_activeTab (ap_dag a)) (da_activeCatalog (ap_dag a)) a"
    using assms(1,2) by (auto simp: shell_ok_def deps_of_def signed_in_def signed_out_def)
  then show ?thesis using assms
    by (auto simp: shell_ok_def deps_of_def graph_ok_def calls_of_send graph_pending_def signed_in_def auth_calls_def)
qed

lemma shell_user_action:
  assumes ok: "shell_ok Q (deps_of a) a" and can: "can_send (App a) e"
  shows "shell_ok Q (deps_of a) (user_action e a)"
proof (cases "at_isLoggedIn (app_auth a)")
  case False
  consider "e = SubmitLogin" "\<not> lf_loading (ap_form a)" | x where "e = TypeHost x \<or> e = TypePort x \<or> e = TypeUsername x \<or> e = TypePassword x"
    using app_offers [OF can] False by blast
  then show ?thesis
  proof cases
    case 1
    then have out: "signed_out a" "graph_none a" "auth_calls a = []" "aligned a" "at_user (app_auth a) = None"
      using ok False by (auto simp: shell_ok_def deps_of_def signed_in_def signed_out_def restoring_def split: option.splits)
    define b where "b = set_form (\<lambda>f. f\<lparr>lf_error := [], lf_loading := True\<rparr>) a"
    have "aligned b" "no_live b" "auth_calls b = []" "ap_dag b = ap_dag a" "app_auth b = app_auth a" "lf_loading (ap_form b)"
      using out by (simp_all add: b_def set_form_def aligned_def graph_none_def no_live_def calls_of_def auth_calls_def)
    then show ?thesis
      using ok out False 1(1)
      by (simp add: handleSubmit_def Let_def b_def [symmetric] shell_ok_def deps_of_def signed_out_def
          graph_none_def no_live_def calls_of_send auth_calls_def)
  next
    case 2
    then have "same_app (user_action e a) a" by (auto simp: same_app_def set_form_def)
    then show ?thesis using ok same_app_shell by metis
  qed
next
  case True
  then have user: "at_user (app_auth a) \<noteq> None" and ev: "(\<exists>t \<in> tc_id ` set TAB_CONFIG. e = SelectTab t)
      \<or> (\<exists>x. e = ToggleFilter x) \<or> (\<exists>b. e = GroupsOnly b) \<or> e = CloseDetails \<or> e = ManagePrivileges
      \<or> e = ToggleStatus \<or> e = LogoutClick" using app_offers [OF can] by auto
  consider (tab) t where "t \<in> tc_id ` set TAB_CONFIG" "e = SelectTab t" | (out) "e = LogoutClick"
    | (same) "same_app (user_action e a) a"
    using ev by (auto simp: same_app_def toggleType_def setGroupsOnly_def setPanelMode_def handleManagePrivileges_def)
  then show ?thesis
  proof cases
    case tab
    then show ?thesis using shell_go_to_tab [OF ok tab_ids_plain] by simp
  next
    case out
    have "\<not> restoring a" using user by (simp add: restoring_def)
    then show ?thesis using shell_logout [OF ok] out by simp
  next
    case same
    then show ?thesis using ok same_app_shell by metis
  qed
qed

lemma shell_child:
  assumes ok: "shell_ok Q (deps_of a) a" and user: "at_user (app_auth a) \<noteq> None"
  shows "shell_ok Q (deps_of a) (child_event e a)"
proof (cases e)
  case (ChildTab t)
  then show ?thesis using shell_go_to_tab [OF ok, of t] ok by auto
next
  case (ChildCall p q)
  then show ?thesis using shell_send_other [OF ok user] by simp
next
  case (HealthTick h)
  then show ?thesis using shell_send_other [OF ok user] ok by (simp add: health_poll_def)
next
  case (ChildCatalog c)
  then have "same_app (child_event e a) a" by (simp add: same_app_def setActiveCatalog_def)
  then show ?thesis using ok same_app_shell by metis
next
  case (ChildSelect n m)
  then have "same_app (child_event e a) a" by (simp add: same_app_def setPanelMode_def setSelectedNode_def)
  then show ?thesis using ok same_app_shell by metis
qed (use ok in simp_all)

section \<open>The answers keep it\<close>

lemma filter_drop_nth:
  assumes "i < length xs"
  shows "filter P xs = (if P (xs ! i) then filter P (take i xs) @ xs ! i # filter P (drop (Suc i) xs) else filter P (drop_nth i xs))"
  using arg_cong [OF id_take_nth_drop [OF assms], of "filter P"] by (simp add: drop_nth_def)

lemma auth_calls_drop:
  assumes "i < length (ap_calls a)"
  shows "\<not> is_auth_call (ap_calls a ! i) \<Longrightarrow> auth_calls (drop_call i a) = auth_calls a"
    and "auth_calls a = [c] \<Longrightarrow> is_auth_call (ap_calls a ! i) \<Longrightarrow> c = ap_calls a ! i \<and> auth_calls (drop_call i a) = []"
    and "auth_calls a = [] \<Longrightarrow> \<not> is_auth_call (ap_calls a ! i)"
  using filter_drop_nth [OF assms, of is_auth_call]
  by (auto simp: auth_calls_def drop_nth_def append_eq_Cons_conv split: if_splits)

lemma deps_drop [simp]: "deps_of (drop_call i a) = deps_of a"
  by (simp add: deps_of_def)

lemma calls_of_drop: "aligned a \<Longrightarrow> set (calls_of (drop_call i a)) \<subseteq> set (calls_of a)"
  unfolding calls_of_def aligned_def by (simp add: zip_drop_nth)

lemma graph_drop:
  assumes "aligned a"
  shows "graph_none a \<Longrightarrow> graph_none (drop_call i a)"
    and "graph_ok Q u t tab cat a \<Longrightarrow> graph_ok Q u t tab cat (drop_call i a)"
  using calls_of_drop [OF assms, of i] by (auto simp: graph_none_def no_live_def graph_ok_def)

lemma signed_in_drop: "i < length (ap_calls a) \<Longrightarrow> signed_in u t a \<Longrightarrow> signed_in u t (drop_call i a)"
  using auth_calls_drop by (simp add: signed_in_def)

text \<open>A request settles that is not one of a sign-in.\<close>

lemma shell_drop:
  assumes ok: "shell_ok Q (deps_of a) a" and i: "i < length (ap_calls a)" "\<not> is_auth_call (ap_calls a ! i)"
  shows "shell_ok Q (deps_of a) (drop_call i a) \<and> \<not> restoring (drop_call i a)"
proof -
  have "\<not> restoring a" using i by (auto simp: restoring_def)
  then have "\<not> restoring (drop_call i a)"
    using ok i auth_calls_drop(1) [OF i]
    by (auto simp: restoring_def shell_ok_def deps_of_def signed_out_def signed_in_def)
  moreover have "signed_out a \<Longrightarrow> signed_out (drop_call i a)"
    using auth_calls_drop(1) [OF i] by (simp add: signed_out_def)
  moreover have "aligned a" using ok by (simp add: shell_ok_def)
  ultimately show ?thesis
    using ok \<open>\<not> restoring a\<close> aligned_drop graph_drop signed_in_drop [OF i(1)] auth_calls_drop(1) [OF i]
    by (fastforce simp: shell_ok_def deps_of_def split: option.splits)
qed

lemma settle_other_ok:
  assumes ok: "shell_ok Q (deps_of a) a" and i: "i < length (ap_calls a)" "\<not> is_auth_call (ap_calls a ! i)"
    and s: "app_settle i r a = (x, b)"
  shows "shell_ok Q (deps_of a) b \<and> (\<forall>v. x = Inr v \<longrightarrow> same_app b (drop_call i a))"
proof -
  have al: "aligned a" using ok by (simp add: shell_ok_def)
  note d = shell_drop [OF ok i]
  show ?thesis
  proof (cases "expires (pd_path (ss_inflight (ap_session a) ! i)) r")
    case True
    have "shell_ok Q (deps_of a) (app_logout (drop_call i a))"
      using shell_logout [of Q "drop_call i a"] d by simp
    then show ?thesis using settle_expires [OF al True s] same_app_shell by (metis Inl_Inr_False)
  next
    case False
    then show ?thesis using settle_stays [OF al False s] d same_app_shell by metis
  qed
qed

definition answer_ok :: "answers \<Rightarrow> app \<Rightarrow> app_event \<Rightarrow> bool" where
  "answer_ok Q a e \<longleftrightarrow> (case e of
      GraphReply i (Answer st det (Some g)) \<Rightarrow> i < length (ap_calls a) \<and> status_ok st \<longrightarrow>
        Q (pd_path (ss_inflight (ap_session a) ! i)) (pd_headers (ss_inflight (ap_session a) ! i)) g
    | _ \<Rightarrow> True)"

lemma graph_done_same: "same_app (graph_done k (Inl err) a) a"
  by (simp add: same_app_def graph_done_def loadDag_settle_def)

lemma graph_done_cached:
  assumes "graph_cached Q u t (ap_dag a)" and "own_graph Q u t k g"
  shows "graph_cached Q u t (ap_dag (graph_done k (Inr g) a))"
  using assms by (auto simp: graph_cached_def graph_done_def loadDag_settle_def)

lemma graph_done_frame [simp]:
  "da_currentKey (ap_dag (graph_done k x a)) = da_currentKey (ap_dag a)"
  "da_activeTab (ap_dag (graph_done k x a)) = da_activeTab (ap_dag a)"
  "ap_session (graph_done k x a) = ap_session a" "ap_calls (graph_done k x a) = ap_calls a" "ap_form (graph_done k x a) = ap_form a"
  by (simp_all add: graph_done_def loadDag_settle_def split: sum.split)

lemma graph_done_phase [simp]:
  "signed_in u t (graph_done k x a) = signed_in u t a" "aligned (graph_done k x a) = aligned a"
  "calls_of (graph_done k x a) = calls_of a"
  by (simp_all add: signed_in_def auth_calls_def aligned_def calls_of_def)

lemma graph_reply_ok:
  assumes ok: "shell_ok Q (deps_of a) a" and i: "i < length (ap_calls a)" and c: "ap_calls a ! i = GraphCall k b"
    and s: "app_settle i (if b then r else Aborted) a = (x, a')" and ans: "answer_ok Q a (GraphReply i r)"
  shows "shell_ok Q (deps_of a) (graph_done k x a')"
proof -
  have na: "\<not> is_auth_call (ap_calls a ! i)" using c by simp
  note st = settle_other_ok [OF ok i na s]
  show ?thesis
  proof (cases x)
    case (Inl err)
    then show ?thesis using st graph_done_same same_app_shell by metis
  next
    case (Inr g)
    then have s': "app_settle i (if b then r else Aborted) a = (Inr g, a')" using s by simp
    obtain st det where r: "(if b then r else Aborted) = Answer st det (Some g)" "status_ok st" by (rule settle_value [OF s'])
    then have b: b "r = Answer st det (Some g)" by (auto split: if_splits)
    let ?p = "ss_inflight (ap_session a) ! i" and ?tab = "da_activeTab (ap_dag a)" and ?cat = "da_activeCatalog (ap_dag a)"
    have al: "aligned a" using ok by (simp add: shell_ok_def)
    have mem: "(GraphCall k True, ?p) \<in> set (calls_of a)"
      using i c b al by (auto simp: calls_of_def aligned_def in_set_zip)
    moreover have "live_graph (GraphCall k True, ?p)" by simp
    ultimately have "\<not> graph_none a" unfolding graph_none_def no_live_def by blast
    then obtain u t where u: "signed_in u t a" "graph_ok Q u t ?tab ?cat a"
      using ok by (auto simp: shell_ok_def deps_of_def signed_in_def signed_out_def split: option.splits)
    have "graph_pending u t ?tab ?cat (GraphCall k True, ?p)" using u(2) mem by (simp add: graph_ok_def)
    then have "k = dagKey ?tab ?cat" "own_request Q u t ?tab ?cat g"
      using ans b(2) r(2) i by (simp_all add: graph_pending_def own_request_def answer_ok_def)
    then have own: "own_graph Q u t k g" using u(2) by (auto simp: own_graph_def graph_ok_def)
    have a': "signed_in u t a'" "graph_ok Q u t ?tab ?cat a'"
      using st Inr u signed_in_drop [OF i] graph_drop(2) [OF al] same_app_parts(2,5) [of a' "drop_call i a"] by simp_all
    have "graph_ok Q u t ?tab ?cat (graph_done k x a')"
      using a'(2) graph_done_cached [OF _ own, of a'] Inr by (simp add: graph_ok_def)
    then show ?thesis
      using a'(1) st unfolding deps_signed_in [OF u(1)] by (auto simp: shell_ok_def)
  qed
qed

text \<open>The answers of a sign-in.\<close>

lemma app_logout_frame:
  assumes "aligned a" and "graph_none a" and "auth_calls a = []" and "CHR ''_'' \<notin> set (da_activeTab (ap_dag a))"
  shows "shell_ok Q (l, None, tab, cat) (app_logout a)"
  using assms by (simp add: shell_ok_def signed_out_def auth_calls_logout aligned_logout graph_none_logout)

lemma settle_drop:
  assumes "aligned a" and "app_settle i r a = (x, b)"
  obtains (good) v where "x = Inr v" and "same_app b (drop_call i a)"
    | (stay) err where "x = Inl err" and "same_app b (drop_call i a)"
    | (out) err where "x = Inl err" and "same_app b (app_logout (drop_call i a))"
  using settle_stays [OF assms(1) _ assms(2)] settle_expires [OF assms(1) _ assms(2)] by (metis sum.exhaust)

lemma same_app_logout:
  assumes "same_app a b" and "aligned b"
  shows "same_app (app_logout a) (app_logout b)"
proof -
  have "aligned a" using assms same_app_parts(6) by simp
  then show ?thesis using assms by (simp add: same_app_def logout_calls logout_pending_def)
qed

lemma restore_reply_ok:
  assumes ok: "shell_ok Q (deps_of a) a" and i: "i < length (ap_calls a)" and c: "ap_calls a ! i = RestoreCall"
    and s: "app_settle i r a = (x, b)"
  shows "shell_ok Q (deps_of a) (restore_done x b)"
proof -
  have al: "aligned a" "CHR ''_'' \<notin> set (da_activeTab (ap_dag a))" using ok by (simp_all add: shell_ok_def)
  have "RestoreCall \<in> set (auth_calls a)" using i c by (simp add: auth_calls_def) (metis nth_mem)
  then have re: "restoring a" "graph_none a"
    using ok by (auto simp: shell_ok_def deps_of_def signed_in_def signed_out_def split: option.splits)
  then have zero: "i = 0" using i by (simp add: restoring_def)
  obtain t where t: "st_token (ss_storage (ap_session a)) = Some t" using re(1) by (auto simp: restoring_def truthy_iff)
  define d where "d = drop_call i a"
  have d: "aligned d" "graph_none d" "auth_calls d = []" "CHR ''_'' \<notin> set (da_activeTab (ap_dag d))" "at_isLoggedIn (app_auth d)"
      "st_token (ss_storage (ap_session d)) = Some t"
    using re al t aligned_drop graph_drop(1) by (simp_all add: d_def auth_calls_def zero restoring_def drop_nth_def)
  have deps: "deps_of a = (True, None, da_activeTab (ap_dag a), da_activeCatalog (ap_dag a))" by (rule deps_restoring [OF re(1)])
  note out = app_logout_frame [OF d(1-4), of Q True]
  consider (good) v where "x = Inr v" "same_app b d" | (stay) err where "x = Inl err" "same_app b d"
    | (out) err where "x = Inl err" "same_app b (app_logout d)"
    unfolding d_def by (rule settle_drop [OF al(1) s])
  then show ?thesis
  proof cases
    case (good v)
    then have "st_token (ss_storage (ap_session b)) = Some t" using d(6) by (simp add: same_app_def)
    then have "signed_in v t (restore_done x b)" "graph_none (restore_done x b)" "aligned (restore_done x b)"
        "da_activeTab (ap_dag (restore_done x b)) = da_activeTab (ap_dag d)"
      using good d by (auto simp: restore_done_def sign_in_def setAuth_def signed_in_def same_app_def auth_calls_def
          graph_none_def no_live_def calls_of_def aligned_def)
    then show ?thesis using d(4) unfolding deps by (auto simp: shell_ok_def)
  next
    case (stay err)
    then have "same_app (restore_done x b) (app_logout d)" using same_app_logout d(1) by (simp add: restore_done_def)
    then show ?thesis using out same_app_shell unfolding deps by metis
  next
    case (out err)
    have "shell_ok Q (True, None, da_activeTab (ap_dag a), da_activeCatalog (ap_dag a)) (app_logout (app_logout d))"
      using d by (intro app_logout_frame) (simp_all add: aligned_logout graph_none_logout auth_calls_logout)
    moreover have "same_app (restore_done x b) (app_logout (app_logout d))"
      using out same_app_logout aligned_logout d(1) by (simp add: restore_done_def)
    ultimately show ?thesis using same_app_shell unfolding deps by metis
  qed
qed

text \<open>A sign-in goes on, ends with a user, or fails; until it ends nobody is signed in.\<close>

lemma out_ok:
  assumes "signed_out a" and "graph_none a" and "aligned a" and "CHR ''_'' \<notin> set (da_activeTab (ap_dag a))"
  shows "shell_ok Q (False, None, tab, cat) a"
  using assms by (simp add: shell_ok_def)

lemma login_reply_ok:
  assumes ok: "shell_ok Q (deps_of a) a" and i: "i < length (ap_calls a)"
    and c: "is_auth_call (ap_calls a ! i)" "ap_calls a ! i \<noteq> RestoreCall" and s: "app_settle i r a = (x, b)"
  shows "deps_of a = (False, None, da_activeTab (ap_dag a), da_activeCatalog (ap_dag a)) \<and> signed_out b \<and> graph_none b \<and> aligned b
    \<and> CHR ''_'' \<notin> set (da_activeTab (ap_dag b)) \<and> auth_calls b = [] \<and> lf_loading (ap_form b)"
proof -
  have al: "aligned a" "CHR ''_'' \<notin> set (da_activeTab (ap_dag a))" using ok by (simp_all add: shell_ok_def)
  have mem: "ap_calls a ! i \<in> set (auth_calls a)" using i c by (simp add: auth_calls_def)
  then have so: "signed_out a" "graph_none a" "lf_loading (ap_form a)" "\<exists>c. auth_calls a = [c]"
    using ok c(2) i by (auto simp: shell_ok_def deps_of_def signed_in_def signed_out_def restoring_def split: option.splits)
  define d where "d = drop_call i a"
  have d: "signed_out d" "graph_none d" "aligned d" "auth_calls d = []" "lf_loading (ap_form d)"
      "CHR ''_'' \<notin> set (da_activeTab (ap_dag d))"
    using so al c(1) i auth_calls_drop(2) [OF i] aligned_drop graph_drop(1) by (auto simp: d_def signed_out_def)
  have "same_app b d \<or> same_app b (app_logout d)"
    using settle_drop [OF al(1) s] unfolding d_def [symmetric] by metis
  then have "signed_out b \<and> graph_none b \<and> aligned b \<and> auth_calls b = [] \<and> lf_loading (ap_form b)
      \<and> da_activeTab (ap_dag b) = da_activeTab (ap_dag d)"
  proof
    assume b: "same_app b d"
    show ?thesis using d by (simp add: same_app_parts [OF b])
  next
    assume b: "same_app b (app_logout d)"
    have "auth_calls (app_logout d) = []" using d by (simp add: auth_calls_logout)
    then have "signed_out (app_logout d)" by (simp add: signed_out_def)
    then show ?thesis
      using d by (simp add: same_app_parts [OF b] auth_calls_logout aligned_logout graph_none_logout)
  qed
  then show ?thesis using d(6) deps_signed_out [OF so(1)] by simp
qed

lemma login_failed_ok:
  assumes "signed_out b" and "graph_none b" and "aligned b" and "CHR ''_'' \<notin> set (da_activeTab (ap_dag b))" and "auth_calls b = []"
  shows "shell_ok Q (False, None, tab, cat) (login_failed hm err b)"
  using assms by (simp add: shell_ok_def login_failed_def set_form_def signed_out_def graph_none_def no_live_def
      calls_of_def auth_calls_def aligned_def)

lemma login_done_ok:
  assumes "signed_out b" and "graph_none b" and "aligned b" and "CHR ''_'' \<notin> set (da_activeTab (ap_dag b))"
    and "auth_calls b = []" and "lf_loading (ap_form b)"
  shows "shell_ok Q (False, None, tab, cat) (login_done hm h p x b)"
proof (cases x)
  case (Inl err)
  then show ?thesis using login_failed_ok [OF assms(1-5)] by (simp add: login_done_def)
next
  case (Inr token)
  define c where "c = (store_token token b)\<lparr>ap_session := setConnectionInfo h p (ap_session (store_token token b))\<rparr>"
  have c: "ap_calls c = ap_calls b" "ap_dag c = ap_dag b" "ap_form c = ap_form b" "at_isLoggedIn (app_auth c) = at_isLoggedIn (app_auth b)"
      "at_user (app_auth c) = at_user (app_auth b)" "ss_inflight (ap_session c) = ss_inflight (ap_session b)"
    by (simp_all add: c_def store_token_def storeToken_def setConnectionInfo_def)
  have "aligned c" "no_live c" "auth_calls c = []" using assms c by (simp_all add: aligned_def graph_none_def no_live_def calls_of_def auth_calls_def)
  then have "shell_ok Q (False, None, tab, cat) (app_send (LoginMeCall token) getMe c)"
    using assms c by (simp add: shell_ok_def signed_out_def graph_none_def no_live_def calls_of_send auth_calls_def)
  then show ?thesis using Inr by (simp add: login_done_def Let_def c_def)
qed

lemma login_me_done_ok:
  assumes "signed_out b" and "graph_none b" and "aligned b" and "CHR ''_'' \<notin> set (da_activeTab (ap_dag b))" and "auth_calls b = []"
  shows "shell_ok Q (False, None, tab, cat) (login_me_done hm token x b)"
proof (cases x)
  case (Inl err)
  then show ?thesis using login_failed_ok [OF assms] by (simp add: login_me_done_def)
next
  case (Inr me)
  define c where "c = login_me_done hm token x b"
  have "signed_in me token c" "graph_none c" "aligned c" "da_activeTab (ap_dag c) = da_activeTab (ap_dag b)"
    using assms Inr by (simp_all add: c_def login_me_done_def sign_in_def setAuth_def set_form_def signed_in_def auth_calls_def
        graph_none_def no_live_def calls_of_def aligned_def)
  then show ?thesis using assms(4) unfolding c_def [symmetric] by (auto simp: shell_ok_def)
qed

lemma login_next_ok:
  assumes "shell_ok Q (deps_of a) a" and "i < length (ap_calls a)"
    and "is_auth_call (ap_calls a ! i)" "ap_calls a ! i \<noteq> RestoreCall" and "app_settle i r a = (x, b)"
  shows "shell_ok Q (deps_of a) (login_done hm h p y b)" and "shell_ok Q (deps_of a) (login_me_done hm token z b)"
proof -
  note b = login_reply_ok [OF assms]
  then show "shell_ok Q (deps_of a) (login_done hm h p y b)" using login_done_ok by metis
  show "shell_ok Q (deps_of a) (login_me_done hm token z b)" using b login_me_done_ok by metis
qed

lemma health_done_same: "same_app (health_done n x b) b"
  by (simp add: same_app_def health_done_def)

lemma shell_health [simp]: "shell_ok Q old (health_done n x b) = shell_ok Q old b"
  by (rule same_app_shell [OF health_done_same])

lemma shell_reply:
  assumes ok: "shell_ok Q (deps_of a) a" and i: "reply_index e = Some i" "i < length (ap_calls a)" and ans: "answer_ok Q a e"
  shows "shell_ok Q (deps_of a) (app_reply hm (ap_calls a ! i) e a)"
proof (cases e)
  case (RestoreReply j r)
  then show ?thesis using ok i restore_reply_ok [OF ok i(2)]
    by (cases "ap_calls a ! i") (auto simp: app_reply_def split: prod.split)
next
  case (LoginReply j r)
  then show ?thesis using ok i login_next_ok(1) [OF ok i(2)]
    by (cases "ap_calls a ! i") (auto simp: app_reply_def split: prod.split)
next
  case (LoginMeReply j r)
  then show ?thesis using ok i login_next_ok(2) [OF ok i(2)]
    by (cases "ap_calls a ! i") (auto simp: app_reply_def split: prod.split)
next
  case (GraphReply j r)
  then show ?thesis using ok i ans graph_reply_ok [OF ok i(2)]
    by (cases "ap_calls a ! i") (auto simp: app_reply_def split: prod.split)
next
  case (HealthReply j r)
  then show ?thesis using ok i settle_other_ok [OF ok i(2)]
    by (cases "ap_calls a ! i") (auto simp: app_reply_def split: prod.split)
next
  case (OtherReply j r)
  obtain x b where s: "app_settle i r a = (x, b)" by fastforce
  then show ?thesis using OtherReply ok i settle_other_ok [OF ok i(2) _ s]
    by (cases "ap_calls a ! i") (simp_all add: app_reply_def)
qed (use i in simp_all)

lemma shell_handle:
  assumes "shell_ok Q (deps_of a) a" and "answer_ok Q a e"
  shows "shell_ok Q (deps_of a) (app_handle hm e a)"
proof (cases "reply_index e")
  case (Some i)
  then show ?thesis using assms shell_reply by (simp add: app_handle_def)
next
  case None
  then show ?thesis using assms(1) shell_child shell_user_action by (simp add: app_handle_def)
qed

definition app_ok :: "answers \<Rightarrow> app \<Rightarrow> bool" where
  "app_ok Q a \<longleftrightarrow> shell_ok Q (deps_of a) a \<and> \<not> closed_to (deps_of a)"

lemma app_ok_step: "app_ok Q a \<Longrightarrow> answer_ok Q a e \<Longrightarrow> app_ok Q (app_step hm a e)"
  unfolding app_ok_def app_step_def by (rule effects_ok [OF shell_handle]) simp_all

fun answers_ok_run :: "answers \<Rightarrow> (api_error \<Rightarrow> string) \<Rightarrow> app \<Rightarrow> app_event list \<Rightarrow> bool" where
  "answers_ok_run Q hm a [] = True"
| "answers_ok_run Q hm a (e # es) = (answer_ok Q a e \<and> answers_ok_run Q hm (app_step hm a e) es)"

lemma app_ok_run: "app_ok Q a \<Longrightarrow> answers_ok_run Q hm a es \<Longrightarrow> app_ok Q (foldl (app_step hm) a es)"
  by (induction es arbitrary: a) (simp_all add: app_ok_step)

lemma app_ok_mount: "CHR ''_'' \<notin> set (tab_of_hash hash) \<Longrightarrow> app_ok Q (app_mount st hash)"
  by (auto simp: app_ok_def app_mount_def Let_def shell_ok_def deps_of_def closed_to_def restricted_def session_init_def
      auth_init_def dag_init_def clearDagCache_def aligned_def graph_none_def no_live_def calls_of_def restoring_def
      signed_out_def auth_calls_def app_send_def send_call_def fetch_start_def)

section \<open>Properties\<close>

lemma dagKey_inj:
  assumes "dagKey t c = dagKey t' c'" and "CHR ''_'' \<notin> set t" and "CHR ''_'' \<notin> set t'"
  shows "t = t' \<and> c = c'"
proof -
  have cut: "takeWhile (\<lambda>x. x \<noteq> CHR ''_'') (dagKey t c) = t" if "CHR ''_'' \<notin> set t" for t c
    using that by (auto simp: dagKey_def takeWhile_append2 takeWhile_eq_all_conv intro!: takeWhile_append2 [THEN trans])
  have "t = t'" using cut [OF assms(2), of c] cut [OF assms(3), of c'] assms(1) by simp
  then show ?thesis using assms(1) by (simp add: dagKey_def)
qed

text \<open>
  C2. Data of a session is shown to its user only. In every run of the shell, whatever the order in which the
  answers of a previous session, of a sign-in and of overlapping loads arrive: with nobody signed in the store
  holds no graph; a graph on the screen answers a request for the present tab and catalog, to the API of the
  present user's rights, with the present token; nobody stays on a tab that is closed to them; and a session that
  is being restored still waits for its answer. \<open>Q\<close> is any meaning that the answers to graph requests have by
  their path and headers; the tab of the initial location must not contain the separator of the cache keys.
\<close>

theorem session_owns_graph:
  assumes "CHR ''_'' \<notin> set (tab_of_hash hash)" and "answers_ok_run Q hm (app_mount st hash) es"
  shows "case foldl (app_step hm) (app_mount st hash) es of a \<Rightarrow>
    (case at_user (app_auth a) of
        None \<Rightarrow> da_dagData (ap_dag a) = None \<and> da_dagCache (ap_dag a) = []
          \<and> (if at_isLoggedIn (app_auth a) then ap_calls a = [RestoreCall] else True)
      | Some u \<Rightarrow> (if da_activeTab (ap_dag a) = ''perm'' then ui_is_user_admin u else True)
          \<and> (if da_activeTab (ap_dag a) = ''audit'' then ui_can_manage_grants u else True)
          \<and> (case da_dagData (ap_dag a) of None \<Rightarrow> True
            | Some g \<Rightarrow> if graph_tab (da_activeTab (ap_dag a))
                then Q (ca_path (graph_call (Some u) (da_activeTab (ap_dag a)) (da_activeCatalog (ap_dag a))))
                  (api_headers (at_token (app_auth a)) []) g
                else True))"
proof -
  define a where "a = foldl (app_step hm) (app_mount st hash) es"
  have ok: "app_ok Q a" unfolding a_def by (rule app_ok_run [OF app_ok_mount [OF assms(1)] assms(2)])
  show ?thesis
  proof (cases "at_user (app_auth a)")
    case None
    with ok have "graph_none a \<and> (restoring a \<or> signed_out a)"
      by (auto simp: app_ok_def shell_ok_def deps_of_def signed_in_def)
    then show ?thesis
      unfolding a_def [symmetric] using None by (auto simp: graph_none_def restoring_def signed_out_def)
  next
    case (Some u)
    let ?tab = "da_activeTab (ap_dag a)" and ?cat = "da_activeCatalog (ap_dag a)"
    from ok Some obtain t where u: "signed_in u t a" "graph_ok Q u t ?tab ?cat a" "\<not> restricted (Some u) ?tab"
      by (auto simp: app_ok_def shell_ok_def deps_of_def signed_out_def closed_to_def)
    have open_tab: "(?tab = ''perm'' \<longrightarrow> ui_is_user_admin u) \<and> (?tab = ''audit'' \<longrightarrow> ui_can_manage_grants u)"
      using u(3) by (auto simp: restricted_def isAdmin_def canManageGrants_def)
    have own: "own_request Q u t ?tab ?cat g" if g: "da_dagData (ap_dag a) = Some g" "graph_tab ?tab" for g
    proof -
      have "own_graph Q u t (dagKey ?tab ?cat) g" using u(2) g by (auto simp: graph_ok_def graph_cached_def)
      then show ?thesis using u(2) dagKey_inj unfolding own_graph_def graph_ok_def by metis
    qed
    have "at_token (app_auth a) = Some t" using u(1) by (simp add: signed_in_def)
    then show ?thesis
      unfolding a_def [symmetric] using Some open_tab own by (auto simp: own_request_def split: option.split)
  qed
qed

text \<open>A session is restored on the role map, and its hierarchy arrives.\<close>

definition ann_user :: user_info where
  "ann_user = \<lparr>ui_username = ''ann'', ui_roles = [], ui_default_role = None, ui_is_user_admin = False,
     ui_can_manage_grants = False\<rparr>"

definition some_storage :: storage where
  "some_storage = \<lparr>st_token = Some ''t'', st_connection = None\<rparr>"

definition some_events :: "app_event list" where
  "some_events = [RestoreReply 0 (Answer 200 None (Some ann_user)), GraphReply 1 (Answer 200 None (Some empty_graph))]"

definition role_app :: "session \<Rightarrow> app_call list \<Rightarrow> nat \<Rightarrow> dag_state \<Rightarrow> app" where
  "role_app ss cs n d = \<lparr>ap_session = ss, ap_dag = d, ap_grants = grant_store_init, ap_hash = ''#role'',
     ap_calls = cs, ap_form = login_form_init, ap_header = n, ap_errors = False\<rparr>"

lemma role_app_simps [simp]:
  "ap_session (role_app ss cs n d) = ss" "ap_calls (role_app ss cs n d) = cs" "ap_dag (role_app ss cs n d) = d"
  "ap_header (role_app ss cs n d) = n" "role_app ss cs n d\<lparr>ap_session := ss'\<rparr> = role_app ss' cs n d"
  "role_app ss cs n d\<lparr>ap_calls := cs'\<rparr> = role_app ss cs' n d" "role_app ss cs n d\<lparr>ap_dag := d'\<rparr> = role_app ss cs n d'"
  "role_app ss cs n d\<lparr>ap_header := n'\<rparr> = role_app ss cs n' d" "role_app ss cs n d\<lparr>ap_errors := False\<rparr> = role_app ss cs n d"
  by (simp_all add: role_app_def)

lemma tab_role: "tab_of_hash ''#role'' = ''role''"
  by code_simp

lemma role_dag: "da_activeTab (dag_init ''#role'') = ''role''" "da_activeCatalog (dag_init ''#role'') = ''default_catalog''"
    "da_dagCache (dag_init ''#role'') = []"
  by (simp_all add: dag_init_def tab_role)

definition role_key :: string where "role_key = dagKey ''role'' ''default_catalog''"

definition signed :: session where
  "signed = setAuth ''t'' ann_user ((session_init some_storage)\<lparr>ss_inflight := []\<rparr>)"

lemma signed_simps:
  "ss_auth signed = \<lparr>at_token = Some ''t'', at_user = Some ann_user, at_isLoggedIn = True, at_connectionInfo = None\<rparr>"
  "st_token (ss_storage signed) = Some ''t''" "ss_inflight signed = []"
  by (simp_all add: signed_def setAuth_def session_init_def auth_init_def some_storage_def loadConnectionInfo_def)

lemma role_mount: "app_mount some_storage ''#role'' =
    role_app (send_call getMe (session_init some_storage)) [RestoreCall] 0 (dag_init ''#role'')"
  by (simp add: app_mount_def role_app_def app_send_def session_init_def auth_init_def some_storage_def Let_def)

lemma role_handle: "app_handle hm (RestoreReply 0 (Answer 200 None (Some ann_user)))
    (role_app (send_call getMe (session_init some_storage)) [RestoreCall] 0 (dag_init ''#role'')) = role_app signed [] 0 (dag_init ''#role'')"
  by (simp add: app_handle_def app_reply_def app_settle_def api_settle_def status_ok_def restore_done_def sign_in_def
      send_call_def fetch_start_def take_inflight_def align_def signed_def session_init_def some_storage_def setAuth_def Let_def)

definition role_pending :: pending where
  "role_pending = \<lparr>pd_url = ''/api/user/dag/role-hierarchy'', pd_path = ''/user/dag/role-hierarchy'', pd_quiet = False,
     pd_headers = api_headers (Some ''t'') []\<rparr>"

definition health_pending :: pending where
  "health_pending = \<lparr>pd_url = BASE @ ca_path (getClusterStatus False True), pd_path = ca_path (getClusterStatus False True),
     pd_quiet = True, pd_headers = api_headers (Some ''t'') []\<rparr>"

definition role_loading :: app where
  "role_loading = role_app (signed\<lparr>ss_inflight := [health_pending, role_pending]\<rparr>) [HealthCall 1, GraphCall role_key True] 1
     ((dag_init ''#role'')\<lparr>da_currentKey := Some role_key, da_dagData := None, da_dagLoading := True\<rparr>)"

lemma role_deps: "deps_of (role_app signed cs n (dag_init ''#role'')) = (True, Some ann_user, ''role'', ''default_catalog'')"
  by (simp add: deps_of_def signed_simps role_dag)

lemma role_poll: "health_poll (role_app signed [] (Suc 0) (dag_init ''#role''))
    = role_app (signed\<lparr>ss_inflight := [health_pending]\<rparr>) [HealthCall (Suc 0)] (Suc 0) (dag_init ''#role'')"
  by (simp add: health_poll_def app_send_def send_call_def fetch_start_def signed_simps health_pending_def getClusterStatus_def)

lemma role_call: "graph_call (Some ann_user) ''role'' c = get_call ''/user/dag/role-hierarchy''"
  by (simp add: graph_call_def getRoleHierarchy_def usePermApi_def ann_user_def)

lemma role_effects: "app_effects (True, None, ''role'', ''default_catalog'') (role_app signed [] 0 (dag_init ''#role'')) = role_loading"
proof -
  have "effects_pass (True, None, ''role'', ''default_catalog'') (role_app signed [] 0 (dag_init ''#role'')) = role_loading"
    by (simp add: effects_pass_def role_deps mount_effect_def kill_graphs_def role_poll redirect_effect_def restricted_def
        clear_effect_def load_effect_def loads_graph_def graph_tab_def loadDag_start_def role_dag app_send_def send_call_def
        fetch_start_def signed_simps role_call get_call_def BASE_def role_pending_def role_loading_def role_key_def Let_def)
  moreover have "deps_of role_loading = deps_of (role_app signed [] 0 (dag_init ''#role''))"
    by (simp add: role_loading_def deps_of_def)
  ultimately show ?thesis by (simp add: app_effects_def effects_pass_def)
qed

lemma role_step: "app_step hm (app_mount some_storage ''#role'') (RestoreReply 0 (Answer 200 None (Some ann_user))) = role_loading"
proof -
  have "deps_of (role_app (send_call getMe (session_init some_storage)) [RestoreCall] 0 (dag_init ''#role''))
      = (True, None, ''role'', ''default_catalog'')"
    by (simp add: deps_of_def role_dag send_call_def fetch_start_def session_init_def auth_init_def some_storage_def)
  then show ?thesis by (simp add: app_step_def role_mount role_handle role_effects)
qed

definition role_shown :: app where
  "role_shown = role_app (signed\<lparr>ss_inflight := [health_pending]\<rparr>) [HealthCall 1] 1
     ((dag_init ''#role'')\<lparr>da_currentKey := Some role_key, da_dagCache := [(role_key, empty_graph)],
        da_dagData := Some empty_graph, da_dagLoading := False\<rparr>)"

lemma role_shown_step: "app_step hm role_loading (GraphReply (Suc 0) (Answer 200 None (Some empty_graph))) = role_shown"
proof -
  have "app_handle hm (GraphReply (Suc 0) (Answer 200 None (Some empty_graph))) role_loading = role_shown"
    unfolding role_shown_def
    by (simp add: app_handle_def app_reply_def app_settle_def api_settle_def status_ok_def role_loading_def role_pending_def
        take_inflight_def align_def graph_done_def loadDag_settle_def role_dag obj_set_def Let_def)
  moreover have "deps_of role_shown = deps_of role_loading"
    by (simp add: role_loading_def role_shown_def deps_of_def)
  ultimately show ?thesis by (simp add: app_step_def app_effects_def effects_pass_def)
qed

definition role_events :: "app_event list" where
  "role_events = [RestoreReply 0 (Answer 200 None (Some ann_user)), GraphReply 1 (Answer 200 None (Some empty_graph))]"

lemma session_owns_graph_witness:
  "case foldl (app_step (\<lambda>e. [])) (app_mount some_storage ''#role'') role_events of a \<Rightarrow>
     at_user (app_auth a) = Some ann_user \<and> da_activeTab (ap_dag a) = ''role'' \<and> da_dagData (ap_dag a) = Some empty_graph
     \<and> ca_path (graph_call (Some ann_user) ''role'' (da_activeCatalog (ap_dag a))) = ''/user/dag/role-hierarchy''
     \<and> api_headers (at_token (app_auth a)) [] = api_headers (Some ''t'') []"
proof -
  let ?Q = "\<lambda>p h g. p = ''/user/dag/role-hierarchy'' \<and> h = api_headers (Some ''t'') []"
  define a where "a = foldl (app_step (\<lambda>e. [])) (app_mount some_storage ''#role'') role_events"
  have shown: "da_dagData (ap_dag a) = Some empty_graph" "at_user (app_auth a) = Some ann_user" "da_activeTab (ap_dag a) = ''role''"
    by (simp_all add: a_def role_events_def role_step role_shown_step) (simp_all add: role_shown_def signed_simps role_dag)
  have plain: "CHR ''_'' \<notin> set (tab_of_hash ''#role'')" by (simp add: tab_role)
  have "answers_ok_run ?Q (\<lambda>e. []) (app_mount some_storage ''#role'') role_events"
    by (simp add: role_events_def role_step answer_ok_def) (simp add: role_loading_def role_pending_def)
  from session_owns_graph [OF plain this] shown show ?thesis
    unfolding a_def [symmetric] by (simp add: graph_tab_def)
qed

text \<open>
  What a logout leaves: the selection, the panel and the open wizard belong to the page, not to the session. The
  next user finds them, the wizard even without the right to manage grants.
\<close>

lemma effects_keep:
  "da_selectedNode (ap_dag (app_effects old a)) = da_selectedNode (ap_dag a)"
  "da_panelMode (ap_dag (app_effects old a)) = da_panelMode (ap_dag a)"
  "ap_grants (app_effects old a) = ap_grants a"
proof -
  have load: "da_selectedNode (ap_dag (load_effect d a)) = da_selectedNode (ap_dag a)
      \<and> da_panelMode (ap_dag (load_effect d a)) = da_panelMode (ap_dag a) \<and> ap_grants (load_effect d a) = ap_grants a" for d a
    by (auto simp: load_effect_def loadDag_start_def Let_def split: prod.split option.split)
  have pass: "da_selectedNode (ap_dag (effects_pass old a)) = da_selectedNode (ap_dag a)
      \<and> da_panelMode (ap_dag (effects_pass old a)) = da_panelMode (ap_dag a) \<and> ap_grants (effects_pass old a) = ap_grants a" for old a
    by (simp add: effects_pass_def Let_def load clear_effect_def clearDagCache_def redirect_effect_def go_to_tab_def
        setActiveTab_def mount_effect_def health_poll_def kill_graphs_def split: prod.split)
  show "da_selectedNode (ap_dag (app_effects old a)) = da_selectedNode (ap_dag a)"
    "da_panelMode (ap_dag (app_effects old a)) = da_panelMode (ap_dag a)"
    "ap_grants (app_effects old a) = ap_grants a"
    by (simp_all add: app_effects_def pass)
qed

lemma logout_leaves_selection:
  assumes "can_send (App a) LogoutClick"
  shows "case app_step hm a LogoutClick of b \<Rightarrow> da_selectedNode (ap_dag b) = da_selectedNode (ap_dag a)
    \<and> da_panelMode (ap_dag b) = da_panelMode (ap_dag a) \<and> gr_wizardOpen (ap_grants b) = gr_wizardOpen (ap_grants a)"
  using assms by (simp add: app_step_def app_handle_def from_child_def effects_keep app_logout_def align_def)

text \<open>The shell renders the wizard for every user.\<close>

lemma wizard_ungated:
  assumes "at_isLoggedIn (app_auth a)" and "at_user (app_auth a) = Some me"
  shows "\<exists>ns. App a = box (ns @ [slot ''ManagePrivilegesModal''])"
proof
  show "App a = box (([Header me a] @ show_if (graph_tab (da_activeTab (ap_dag a))) [slot ''Sidebar'']
      @ [tab_bar (Some me) (da_activeTab (ap_dag a)), content_area (Some me) (ap_dag a)] @ details (ap_dag a)
      @ [slot ''ClusterDrawer'']) @ [slot ''ManagePrivilegesModal''])"
    using assms by (simp add: App_def)
qed

text \<open>
  A sign-in whose second request fails reports an error and shows the form, but its token stays in the browser:
  after a reload the page signs in with it.
\<close>

lemma failed_login_keeps_token:
  assumes "t \<noteq> []" and "\<not> at_isLoggedIn (app_auth a)"
  shows "case login_me_done hm t (Inl err) (login_done hm h p (Inr t) a) of b \<Rightarrow>
    \<not> at_isLoggedIn (app_auth b) \<and> ap_calls (app_mount (ss_storage (ap_session b)) hash) = [RestoreCall]"
  using assms by (simp add: login_me_done_def login_done_def login_failed_def set_form_def store_token_def storeToken_def
      setConnectionInfo_def Let_def app_mount_def session_init_def auth_init_def app_send_def send_call_def fetch_start_def)

text \<open>A tab that does not exist, from the location, is shown as a graph without a selected tab: that of the roles.\<close>

lemma unknown_tab_loads_roles:
  assumes "t \<notin> tc_id ` set TAB_CONFIG"
  shows "graph_tab t \<and> graph_call u t c = getRoleHierarchy (usePermApi u)"
  using assms by (auto simp: TAB_CONFIG_def graph_tab_def graph_call_def)

text \<open>The separator of the cache keys is a legal character of a catalog, so such a tab can name the entry of another.\<close>

lemma keys_collide: "dagKey ''obj_a'' ''b'' = dagKey ''obj'' ''a_b''"
  by (simp add: dagKey_def)

end
