(* ===== verification/Export_Png.thy ===== *)
theory Export_Png
  imports Inventory_Ui
begin

text \<open>
  The export of the graph as a picture: \<open>components/common/ExportPngBtn.tsx\<close>. The library that draws the
  picture is outside the repository: its answer, a data URL or a failure, is an event.
\<close>

section \<open>Definitions\<close>

text \<open>Captures in flight, the files offered for download with their names, and the failures logged.\<close>

record export_state =
  ep_exporting :: bool
  ep_captures :: nat
  ep_downloads :: "(string \<times> string) list"
  ep_failures :: nat

definition export_init :: export_state where
  "export_init = \<lparr>ep_exporting = False, ep_captures = 0, ep_downloads = [], ep_failures = 0\<rparr>"

text \<open>Which nodes of the page are drawn, by their classes if they are elements.\<close>

definition capture_filter :: "string list option \<Rightarrow> bool" where
  "capture_filter classes = (case classes of None \<Rightarrow> True
     | Some cs \<Rightarrow> if ''react-flow__panel'' \<in> set cs then False
         else if ''react-flow__controls'' \<in> set cs then False else True)"

definition file_name :: "nat \<Rightarrow> string" where
  "file_name now = ''starrocks-permissions-'' @ nat_str now @ ''.png''"

datatype export_event = ExportClick bool | Captured "string option" nat

text \<open>Before the await, if the graph is on the page, and after it.\<close>

definition export_start :: "bool \<Rightarrow> export_state \<Rightarrow> export_state" where
  "export_start on_page s = (if \<not> on_page then s else s\<lparr>ep_exporting := True, ep_captures := ep_captures s + 1\<rparr>)"

definition export_settle :: "string option \<Rightarrow> nat \<Rightarrow> export_state \<Rightarrow> export_state" where
  "export_settle url now s = (case url of
      Some u \<Rightarrow> s\<lparr>ep_exporting := False, ep_captures := ep_captures s - 1,
        ep_downloads := ep_downloads s @ [(file_name now, u)]\<rparr>
    | None \<Rightarrow> s\<lparr>ep_exporting := False, ep_captures := ep_captures s - 1, ep_failures := ep_failures s + 1\<rparr>)"

definition ExportPngBtn :: "bool \<Rightarrow> export_state \<Rightarrow> export_event node" where
  "ExportPngBtn on_page s = El ''button'' (disabled_if (ep_exporting s)) [ExportClick on_page]
     [Txt (if ep_exporting s then ''Exporting...'' else ''PNG'')]"

fun export_step :: "export_state \<Rightarrow> export_event \<Rightarrow> export_state" where
  "export_step s (ExportClick on_page) =
     (if can_send (ExportPngBtn on_page s) (ExportClick on_page) then export_start on_page s else s)"
| "export_step s (Captured url now) = (if ep_captures s = 0 then s else export_settle url now s)"

section \<open>Lemmas\<close>

lemma can_export [simp]: "can_send (ExportPngBtn p s) e \<longleftrightarrow> \<not> ep_exporting s \<and> e = ExportClick p"
  by (auto simp: ExportPngBtn_def disabled_if_def show_if_def obj_get_Cons)

text \<open>One picture at a time, and the button waits exactly while it is drawn.\<close>

definition export_ok :: "export_state \<Rightarrow> bool" where
  "export_ok s \<longleftrightarrow> ep_captures s = (if ep_exporting s then 1 else 0)"

lemma export_ok_step: "export_ok s \<Longrightarrow> export_ok (export_step s e)"
  by (cases e) (auto simp: export_ok_def export_start_def export_settle_def split: option.split)

interpretation exports: machine export_init export_step export_ok
  by unfold_locales (simp add: export_ok_def export_init_def, rule export_ok_step)

text \<open>Whatever the library answers, the button is back.\<close>

lemma export_ends:
  assumes "ep_exporting (foldl export_step export_init es)"
  shows "\<not> ep_exporting (foldl export_step export_init (es @ [Captured url now]))"
proof -
  have "export_ok (foldl export_step export_init es)" by (rule exports.inv_run)
  then show ?thesis using assms by (simp add: export_ok_def export_settle_def split: option.split)
qed

end
