(* ===== verification/Grant_Sql.thy ===== *)
theory Grant_Sql
  imports Js_View
begin

text \<open>
  The colouring of a SQL line in the grant wizard: \<open>components/grants/grantSql.tsx\<close>. The pattern of
  \<open>SQL_SPLIT\<close> has no choice that backtracking could change, so it is written as the function that gives
  the length of its match at a place, knowing the character before.
\<close>

section \<open>Definitions\<close>

definition SQL_KW :: "string list" where
  "SQL_KW = [''WITH GRANT OPTION'', ''MATERIALIZED VIEW'', ''CREATE DATABASE'', ''CREATE TABLE'', ''SET CATALOG'',
     ''GRANT'', ''REVOKE'', ''ON'', ''TO'', ''FROM'', ''ALL'', ''ROLE'', ''TABLE'', ''DATABASE'', ''CATALOG'', ''VIEW'',
     ''FUNCTION'', ''SYSTEM'', ''USER'', ''GLOBAL'', ''USAGE'', ''SELECT'', ''INSERT'', ''UPDATE'', ''DELETE'', ''ALTER'',
     ''DROP'', ''EXPORT'', ''REFRESH'', ''CREATE'']"

definition backtick :: char where "backtick = char_of (96 :: nat)"
definition apostrophe :: char where "apostrophe = char_of (39 :: nat)"

text \<open>Letters in either case and the underscore; with the digits they are the word characters.\<close>

definition sql_letter :: "char \<Rightarrow> bool" where
  "sql_letter c \<longleftrightarrow> (let n = of_char c :: nat in 65 \<le> n \<and> n \<le> 90 \<or> 97 \<le> n \<and> n \<le> 122 \<or> c = CHR ''_'')"

definition word_char :: "char \<Rightarrow> bool" where
  "word_char c \<longleftrightarrow> sql_letter c \<or> is_digit c"

definition word_at :: "char option \<Rightarrow> bool" where
  "word_at c = (case c of None \<Rightarrow> False | Some d \<Rightarrow> word_char d)"

definition first_char :: "string \<Rightarrow> char option" where
  "first_char s = (case s of [] \<Rightarrow> None | c # _ \<Rightarrow> Some c)"

definition boundary :: "char option \<Rightarrow> char option \<Rightarrow> bool" where
  "boundary a b \<longleftrightarrow> word_at a \<noteq> word_at b"

text \<open>A quoted piece: from the quote to the next one.\<close>

definition quoted_len :: "char \<Rightarrow> string \<Rightarrow> nat option" where
  "quoted_len q s = (case s of [] \<Rightarrow> None
     | c # r \<Rightarrow> if c = q \<and> q \<in> set r then Some (length (takeWhile (\<lambda>d. d \<noteq> q) r) + 2) else None)"

definition phrase_len :: "char option \<Rightarrow> string \<Rightarrow> string \<Rightarrow> nat option" where
  "phrase_len prev w s = (let n = length w in
     if to_upper (take n s) = w \<and> boundary prev (first_char s) \<and> boundary (Some (last w)) (first_char (drop n s))
     then Some n else None)"

definition word_len :: "char option \<Rightarrow> string \<Rightarrow> nat option" where
  "word_len prev s = (let n = length (takeWhile sql_letter s) in
     if n \<noteq> 0 \<and> boundary prev (first_char s) \<and> \<not> word_at (first_char (drop n s)) then Some n else None)"

definition or_match :: "nat option \<Rightarrow> nat option \<Rightarrow> nat option" where
  "or_match a b = (case a of Some n \<Rightarrow> Some n | None \<Rightarrow> b)"

definition SQL_SPLIT :: "char option \<Rightarrow> string \<Rightarrow> nat option" where
  "SQL_SPLIT prev s = or_match (quoted_len backtick s) (or_match (quoted_len apostrophe s)
     (or_match (phrase_len prev ''WITH GRANT OPTION'' s) (or_match (phrase_len prev ''MATERIALIZED VIEW'' s)
     (or_match (phrase_len prev ''CREATE DATABASE'' s) (or_match (phrase_len prev ''CREATE TABLE'' s)
     (or_match (phrase_len prev ''SET CATALOG'' s) (word_len prev s)))))))"

text \<open>\<open>line.split\<close> with one capture: the texts between the matches, and the matches.\<close>

function sql_split :: "char option \<Rightarrow> string \<Rightarrow> string \<Rightarrow> string list" where
  "sql_split prev acc [] = [acc]"
| "sql_split prev acc (c # r) = (case SQL_SPLIT prev (c # r) of
      Some n \<Rightarrow> acc # (c # take (n - 1) r) # sql_split (Some (last (c # take (n - 1) r))) [] (drop (n - 1) r)
    | None \<Rightarrow> sql_split (Some c) (acc @ [c]) r)"
  by pat_completeness auto
termination by (relation "measure (\<lambda>(_, _, s). length s)") auto

text \<open>The test for a name or a literal: its quotes, and no line break between them.\<close>

definition is_name :: "string \<Rightarrow> bool" where
  "is_name s \<longleftrightarrow> length s \<ge> 2 \<and> hd s \<in> {backtick, apostrophe} \<and> last s \<in> {backtick, apostrophe}
     \<and> list_all (\<lambda>c. (of_char c :: nat) \<notin> {10, 13}) (butlast (tl s))"

definition sql_span :: "string \<Rightarrow> 'e node list" where
  "sql_span seg = (if seg = [] then []
     else if is_name seg then [El ''span'' [(''color'', ''#fcd34d'')] [] [Txt seg]]
     else if to_upper seg \<in> set SQL_KW then [El ''span'' [(''color'', ''#7dd3fc''), (''fontWeight'', ''600'')] [] [Txt seg]]
     else [El ''span'' [] [] [Txt seg]])"

definition renderSqlLine :: "string \<Rightarrow> 'e node list" where
  "renderSqlLine line = concat (map sql_span (sql_split None [] line))"

section \<open>Lemmas\<close>

lemma split_complete: "concat (sql_split prev acc s) = acc @ s"
  by (induction prev acc s rule: sql_split.induct) (auto split: option.splits)

text \<open>The colours are for display only: the text of the line is preserved, and nothing in it can be clicked.\<close>

lemma span_text: "concat (concat (map texts (sql_span seg))) = seg"
  by (simp add: sql_span_def)

lemma spans_text: "concat (concat (map texts (concat (map sql_span segs)))) = concat segs"
proof (induction segs)
  case (Cons seg segs)
  then show ?case using span_text [of seg] by simp
qed simp

lemma sql_text_preserved: "concat (concat (map texts (renderSqlLine line))) = line"
  unfolding renderSqlLine_def spans_text by (simp add: split_complete)

lemma sql_line_inert: "n \<in> set (renderSqlLine line) \<Longrightarrow> \<not> can_send n e"
  by (auto simp: renderSqlLine_def sql_span_def split: if_splits)

text \<open>Between the word characters of one word there is no match, so keywords inside a name are not coloured.\<close>

lemma sql_sample:
  "map texts (renderSqlLine ''GRANT SELECT ON x1'') = [[''GRANT''], ['' ''], [''SELECT''], ['' ''], [''ON''], ['' x1'']]"
  by code_simp

end
