(* ===== verification/Spec2Isabelle.thy ===== *)
theory Spec2Isabelle
  imports Grant_Display Query_Utils Wizard_View Dag_Store Overlap_Termination Async_Hooks Api_Calls Relative_Time
    Queries_Panel Inventory Sidebar Entity_Tabs Cluster_Views App_Safety Export_Png Grant_Sql
begin

text \<open>
  StarRocks Permission Manager: the logic of the web frontend, \<open>frontend/src\<close>. All file names below are
  relative to it.

  \<^bold>\<open>The program.\<close> The frontend shows who may do what in a StarRocks cluster and lets administrators change
  it. Four stores are shared by all components: the session (\<open>stores/authStore.ts\<close>), the graph on the
  screen (\<open>stores/dagStore.ts\<close>), the grant wizard (\<open>stores/grantStore.ts\<close>) and the cluster drawer
  (\<open>stores/clusterStore.ts\<close>). The shell (\<open>App.tsx\<close>) signs in, restores a session, chooses the tab
  and loads the graph of the tab; the tabs, panels, the sidebar, the wizard and the drawer read the stores, fetch
  with the client (\<open>api/client.ts\<close>) and render. What a component does is a machine here: a state, its
  events (clicks and keys, timers, answers of requests in any order), one step for an event, and a view that
  says which events it offers.

  \<^bold>\<open>The theories.\<close>

  \<^item> The language: \<open>Js_Prelude\<close> (strings, numbers, null, the locales of the library),
    \<open>Js_Collections\<close> (sets, maps, objects, sorting), \<open>Js_Regex\<close> (a backtracking matcher),
    \<open>Js_Json\<close>, \<open>Js_Url\<close>, \<open>Js_View\<close> (rendered trees and what they offer),
    \<open>Types\<close> (\<open>types/index.ts\<close>).
  \<^item> Grants: \<open>Grant_Helpers\<close> and \<open>Grant_Display\<close> (the helpers of \<open>utils\<close>),
    \<open>Grant_Wizard\<close> (the store and the hooks of \<open>components/grants\<close>), \<open>Wizard_View\<close> (the
    modal and its parts, and the whole wizard as a machine), \<open>Grant_Sql\<close> (the colouring of a line).
  \<^item> Graphs: \<open>Dag_Store\<close>, \<open>Dag_Nodes\<close> (icons, filters, React Flow nodes), \<open>Dag_Highlight\<close>,
    \<open>Dag_Layout\<close> and \<open>Dag_Clusters\<close> (\<open>components/dag/dagLayout.ts\<close>), \<open>Dag_Layout_Props\<close>
    and \<open>Overlap_Termination\<close> (what the layout guarantees), \<open>Graph_View\<close> (\<open>DAGView.tsx\<close>, context
    menu, layout and highlight effects), \<open>Object_Panel\<close> (\<open>components/panels\<close>), \<open>Sidebar\<close>.
  \<^item> Session and client: \<open>Toast\<close>, \<open>Session\<close> (\<open>authStore.ts\<close>, \<open>clusterStore.ts\<close>,
    \<open>client.ts\<close>), \<open>Api_Calls\<close> (the functions of \<open>api\<close>), \<open>Async_Hooks\<close>
    (\<open>hooks\<close> and \<open>useTreeExpansion.ts\<close>).
  \<^item> Tabs: \<open>Inventory_Utils\<close>, \<open>Inventory_Ui\<close>, \<open>Inventory\<close> (\<open>InventoryTab.tsx\<close>),
    \<open>Detail_Panes\<close> and \<open>Permission_Matrix\<close> (its panes), \<open>Entity_Tabs\<close> (\<open>ComboInput\<close>,
    \<open>AuditTab\<close>, \<open>PermissionDetailTab\<close>), \<open>Query_Utils\<close>, \<open>Query_Hooks\<close>,
    \<open>Queries_Panel\<close>, \<open>Relative_Time\<close>, \<open>Cluster_Cards\<close> and \<open>Cluster_Views\<close> (the
    cluster monitor and its drawer).
  \<^item> The whole: \<open>App_Shell\<close> (\<open>App.tsx\<close>, \<open>LoginForm.tsx\<close>, \<open>Header.tsx\<close>),
    \<open>App_Safety\<close> (its invariant), \<open>Export_Png\<close>.

  \<^bold>\<open>How code becomes definitions.\<close> An interface is a record, a union a datatype, a missing property an
  option, a \<open>Map\<close> or object an association list in insertion order (index-like keys first where the code
  enumerates them), a \<open>Set\<close> a list without duplicates. A function that awaits is split there: the part before starts
  a request that is kept in the state, the part after is the event of its answer; an abort marks the request, whose
  answer then is an abort error whatever the server sent. React state is a field, an effect a function of the
  dependencies before and after a step, and a component what it renders: texts, fields, and elements with the
  events they send. A user's event happens only where the view offers it; the views drop the styling but for
  attributes that carry meaning.

  \<^bold>\<open>Interfaces.\<close> The locales \<open>machine\<close> (an invariant of all runs), \<open>toggle_set\<close>,
  \<open>bucket_map\<close>, \<open>keyed_comparator\<close> and \<open>url_encoding\<close> state what several components rely on; each is interpreted on the
  definitions of the program that provide it, and the properties use the interpretations' facts.

  \<^bold>\<open>What is shown.\<close>

  \<^item> Grants: nothing is executed or killed without a confirmation, and no second request starts while one is
    running; a request that the form builds is well formed; a row that can be revoked loads a form that revokes
    exactly it; every cell of the matrix revokes the grant of its own row and column, and the detail panel opens a
    revocation of its own item only, where it can be made and to whom may make it; the grouped display is complete and
    sound. A kill is confirmed in the button that asked for it: details stay mounted while the position and the id of
    their row stay.
  \<^item> Data on the screen: whatever the order of answers, a graph is one of the current key, and in the whole
    shell one of the present user, token, tab and catalog; a panel, a pane and a history show what was asked for last; the
    data hook returns the last answer accepted, or keeps it while it asks again if told to; a spinner always has a
    request that ends it; sparklines are the last thirty samples. Which answers a run accepts is a function of its
    events (\<open>tab_accepted\<close>, \<open>mount_accepted\<close>): those to the newest request of their moment.
  \<^item> Layout: every node is placed once, children fit in their group, groups are centred under their parent; the
    correction of overlaps ends by itself and then leaves no overlap. The highlight is the lineage, by a reference
    definition as reachability.
  \<^item> Session: the stores refine an abstract session, which is signed out, entering (a login has stored the token that
    the server issued and waits for the user) or signed in; a reload keeps it and ends an entering one signed in; every
    answer of a request has the stated outcome. The parameters of a query and of a body are read back for all texts, a
    name in a path when the routes of the backend can tell it from the path around it.
  \<^item> Texts: identities, classifier rules, sizes and relative times are parsed and printed right, with their
    exceptions.

  Lemmas beside the properties of a theory prove, on an input or in general, where the code does something else
  than it means to do.

  \<^bold>\<open>Bounds.\<close> The correction of overlaps has the limit of fifty passes of the code; \<open>Overlap_Termination\<close>
  gives for every placement a number of passes after which the loop would stop without it. \<open>JSON.parse\<close> runs
  with fuel twice the length of the text plus two, and \<open>Js_Json\<close> proves it enough for every text that
  \<open>JSON.stringify\<close> writes of a value whose numbers have at most twenty decimals. A global match has the length of the text as fuel, each
  match consuming a character. All other recursion is structural or has its measure.

  \<^bold>\<open>Parameters.\<close> Code that is not in the repository is an argument: the dagre engine (a function from a graph to
  positions, about which nothing is assumed), the SQL formatter, the collation and the number format of the browser's
  locale, the parser of dates, the messages of errors of the host, and the icon drawings. Times are arguments or events.

  \<^bold>\<open>Not modelled.\<close> Styling, hover effects, scrolling, focus, zoom and drag of React Flow; the contents of the
  icons; the picture that the export draws; the doubled effects of the development mode; changes of the storage by
  another window. Numbers are rationals, so rounding of floating-point numbers is not; an infinite number is not told from
  one that is no number. The message of a failed request is its text, also where a toast would be handed a list or an
  object. Two rows of the query tables with the same id share the state of their details. Strings are bytes of UTF-8, and case mapping and white space are those of ASCII.
  \<open>decodeURIComponent\<close> does not reject escapes that are no UTF-8. The shell has its components as slots: what they do
  to the shared stores are events of it, and their own requests are requests that it does not wait for. The backend
  but for its routes of privileges (\<open>Api_Calls\<close>), the tests, the build and the deployment are outside.
\<close>

end
